(* ===== verification/Prelude.thy ===== *)
theory Prelude
  imports Main "HOL-Library.AList"
begin

text \<open>
  Shared vocabulary of the development: the named collections the component
  theories feed, the error-propagating bind used to model JavaScript exceptions,
  and generic lemmas on association lists (JavaScript objects keep their own
  properties in insertion order, which \<open>AList.update\<close> preserves) and on list
  updates, used by every component.
\<close>

named_theorems heap_simps "evaluation rules of the JavaScript heap operations"
named_theorems frame_simps "facts that an operation leaves a part of the heap alone"

type_synonym addr = nat

text \<open>
  A JavaScript statement that may throw is a value of \<open>'e + 'a\<close>, \<open>Inl\<close> the
  exception. \<open>sbind\<close> runs the rest of the block only when nothing was thrown.
\<close>

definition sbind :: "'e + 'a \<Rightarrow> ('a \<Rightarrow> 'e + 'b) \<Rightarrow> 'e + 'b" where
  "sbind m f = (case m of Inl e \<Rightarrow> Inl e | Inr x \<Rightarrow> f x)"

text \<open>
  A JavaScript computation that may also fail to return (unbounded recursion) is a
  value of \<open>('e + 'a) option\<close>: \<open>None\<close> when it does not return. \<open>rbind\<close>
  sequences two of them.
\<close>

definition rbind :: "('e + 'a) option \<Rightarrow> ('a \<Rightarrow> ('e + 'b) option) \<Rightarrow> ('e + 'b) option" where
  "rbind m f = (case m of None \<Rightarrow> None | Some (Inl e) \<Rightarrow> Some (Inl e) | Some (Inr x) \<Rightarrow> f x)"

subsection \<open>Lemmas on the binds\<close>

lemma sbind_Inr [simp]: "sbind (Inr x) f = f x"
  by (simp add: sbind_def)

lemma sbind_Inl [simp]: "sbind (Inl e) f = Inl e"
  by (simp add: sbind_def)

lemma sbind_eq_Inr:
  "sbind m f = Inr y \<longleftrightarrow> (\<exists>x. m = Inr x \<and> f x = Inr y)"
  by (cases m) auto

lemma sbind_eq_Inl:
  "sbind m f = Inl e \<longleftrightarrow> m = Inl e \<or> (\<exists>x. m = Inr x \<and> f x = Inl e)"
  by (cases m) auto

lemma rbind_simps [simp]:
  "rbind None f = None"
  "rbind (Some (Inl e)) f = Some (Inl e)"
  "rbind (Some (Inr x)) f = f x"
  by (simp_all add: rbind_def)

lemma rbind_eq_Inr:
  "rbind m f = Some (Inr y) \<longleftrightarrow> (\<exists>x. m = Some (Inr x) \<and> f x = Some (Inr y))"
  by (auto simp: rbind_def split: option.splits sum.splits)

lemma rbind_eq_None:
  "rbind m f = None \<longleftrightarrow> m = None \<or> (\<exists>x. m = Some (Inr x) \<and> f x = None)"
  by (auto simp: rbind_def split: option.splits sum.splits)

lemma rbind_not_None:
  "m \<noteq> None \<Longrightarrow> (\<And>x. m = Some (Inr x) \<Longrightarrow> f x \<noteq> None) \<Longrightarrow> rbind m f \<noteq> None"
  by (auto simp: rbind_eq_None)

subsection \<open>Association lists as ordered property tables\<close>

lemma map_of_update_same [simp]: "map_of (AList.update k v ps) k = Some v"
  by (simp add: update_conv')

lemma map_of_update_other [simp]:
  "k' \<noteq> k \<Longrightarrow> map_of (AList.update k v ps) k' = map_of ps k'"
  by (simp add: update_conv')

lemma map_of_delete_same [simp]: "map_of (AList.delete k ps) k = None"
  by (simp add: delete_conv')

lemma map_of_delete_other [simp]:
  "k' \<noteq> k \<Longrightarrow> map_of (AList.delete k ps) k' = map_of ps k'"
  by (simp add: delete_conv')

lemma set_update_subset: "set (AList.update k v ps) \<subseteq> insert (k, v) (set ps)"
  by (induction ps) auto

lemma keys_update_existing:
  "map_of ps k \<noteq> None \<Longrightarrow> map fst (AList.update k v ps) = map fst ps"
  by (induction ps) auto

lemma keys_update_new:
  "map_of ps k = None \<Longrightarrow> map fst (AList.update k v ps) = map fst ps @ [k]"
  by (induction ps) auto

subsection \<open>Lists\<close>

text \<open>A bounded quantifier as a list check, the form \<open>code_simp\<close> evaluates best.\<close>

lemma all_less_list_all: "(\<forall>a < n. P a) \<longleftrightarrow> list_all P [0..<n]"
  by (auto simp: list_all_iff)

lemma nth_list_update_if:
  "a < length xs \<Longrightarrow> xs[a := x] ! b = (if b = a then x else xs ! b)"
  by (simp add: nth_list_update)

lemma nth_append_length_if:
  "b \<le> length xs \<Longrightarrow> (xs @ [x]) ! b = (if b = length xs then x else xs ! b)"
  by (simp add: nth_append)

end
