(* ===== verification/JsObj.thy ===== *)
theory JsObj
  imports Prelude
begin

text \<open>
  The JavaScript object model the configuration engine runs on. The engine of
  \<open>src/src/core/core.config.js\<close> works by mutating prototype links
  (\<open>Object.setPrototypeOf\<close>), reading properties through prototype chains
  (\<open>obj[key]\<close>), copying own properties (\<open>Object.assign\<close>) and listing them
  (\<open>Object.keys\<close>). These are language builtins, not code of the repository; they
  are modelled from the ECMAScript specification:
  \<^item> a value is \<open>undefined\<close>, \<open>null\<close>, a boolean, a number (kept as an \<open>int\<close>:
    the engine never computes with option numbers, it only tests them for truth),
    a string, or a reference to a heap object;
  \<^item> the heap is a list of objects, the address is the index; an object has a
    kind (plain object or array with its elements), its own enumerable properties
    in insertion order (an association list) and its prototype link;
  \<^item> \<open>Object.prototype\<close> is not on the heap: an object whose chain ends there has
    prototype \<open>None\<close>, exactly as one made by \<open>Object.create(null)\<close>, since
    \<open>Object.prototype\<close> has no enumerable properties and the engine reads none
    of its methods;
  \<^item> a property read walks the prototype chain with fuel equal to the heap size;
    the invariant \<open>heap_ok\<close> (every chain ends) makes the fuel always enough;
  \<^item> \<open>Object.setPrototypeOf\<close> follows OrdinarySetPrototypeOf, including the loop
    that refuses a cycle with a \<open>TypeError\<close>.
\<close>

datatype js_error = TypeError string

datatype val = Undef | Null | Bool bool | Num int | Str string | Ref addr

datatype okind = Plain | Array "val list"

record obj =
  okind :: okind
  own :: "(string \<times> val) list"
  proto :: "addr option"

type_synonym heap = "obj list"

subsection \<open>Prototype chains\<close>

definition next_proto :: "heap \<Rightarrow> addr \<Rightarrow> addr option" where
  "next_proto h a = (if a < length h then proto (h ! a) else None)"

text \<open>\<open>chain_ends n h a\<close>: the prototype chain from \<open>a\<close> ends within \<open>n\<close> objects.\<close>

fun chain_ends :: "nat \<Rightarrow> heap \<Rightarrow> addr \<Rightarrow> bool" where
  "chain_ends 0 h a = False"
| "chain_ends (Suc n) h a =
     (case next_proto h a of None \<Rightarrow> True | Some p \<Rightarrow> chain_ends n h p)"

text \<open>
  The loop of OrdinarySetPrototypeOf (ECMAScript 10.1.2.1, step 8): walk the
  chain of the new prototype \<open>p\<close> and report whether it meets the object \<open>ob\<close>.
  Running out of fuel counts as meeting it (the conservative answer); under
  \<open>heap_ok\<close> the fuel never runs out.
\<close>

fun chain_has :: "nat \<Rightarrow> heap \<Rightarrow> addr \<Rightarrow> addr \<Rightarrow> bool" where
  "chain_has 0 h p ob = True"
| "chain_has (Suc n) h p ob =
     (p = ob \<or> (case next_proto h p of None \<Rightarrow> False | Some q \<Rightarrow> chain_has n h q ob))"

definition protos_ok :: "heap \<Rightarrow> bool" where
  "protos_ok h \<longleftrightarrow> (\<forall>a < length h. case proto (h ! a) of None \<Rightarrow> True | Some p \<Rightarrow> p < length h)"

definition heap_ok :: "heap \<Rightarrow> bool" where
  "heap_ok h \<longleftrightarrow> protos_ok h \<and> (\<forall>a < length h. chain_ends (length h) h a)"

subsection \<open>Reading properties\<close>

text \<open>[[Get]] on an ordinary object with data properties: own property first, then the prototype.\<close>

fun lookup_fuel :: "nat \<Rightarrow> heap \<Rightarrow> addr \<Rightarrow> string \<Rightarrow> val" where
  "lookup_fuel 0 h a k = Undef"
| "lookup_fuel (Suc n) h a k =
     (if a < length h then
        (case map_of (own (h ! a)) k of
           Some v \<Rightarrow> v
         | None \<Rightarrow> (case proto (h ! a) of None \<Rightarrow> Undef | Some p \<Rightarrow> lookup_fuel n h p k))
      else Undef)"

definition get_prop :: "heap \<Rightarrow> addr \<Rightarrow> string \<Rightarrow> val" where
  "get_prop h a k = lookup_fuel (length h) h a k"

text \<open>
  The decimal numeral of a natural number, as \<open>String(i)\<close> writes it (an
  index, or a number used as a property key).
\<close>

fun nat_str :: "nat \<Rightarrow> string" where
  "nat_str n = (if n < 10 then [char_of (48 + n)] else nat_str (n div 10) @ [char_of (48 + n mod 10)])"

text \<open>
  The own index keys \<open>'0'\<close>, \<open>'1'\<close>, ... of a string primitive.
\<close>

definition str_keys :: "string \<Rightarrow> string list" where
  "str_keys s = map nat_str [0..<length s]"

text \<open>
  \<open>v[k]\<close> on any value: reading a property of \<open>undefined\<close> or \<open>null\<close> throws;
  a string primitive has its characters under its index keys and its
  \<open>length\<close>. The members that the prototypes of booleans, numbers and strings
  define (their methods) are not modelled: those reads give \<open>undefined\<close>, and
  the sources read none of them.
\<close>

definition get_v :: "heap \<Rightarrow> val \<Rightarrow> string \<Rightarrow> js_error + val" where
  "get_v h v k =
     (case v of
        Undef \<Rightarrow> Inl (TypeError ''Cannot read properties of undefined'')
      | Null \<Rightarrow> Inl (TypeError ''Cannot read properties of null'')
      | Ref a \<Rightarrow> Inr (get_prop h a k)
      | Str s \<Rightarrow> Inr (if k = ''length'' then Num (int (length s))
                     else case map_of (zip (str_keys s) s) k of Some c \<Rightarrow> Str [c] | None \<Rightarrow> Undef)
      | _ \<Rightarrow> Inr Undef)"

definition has_own :: "heap \<Rightarrow> addr \<Rightarrow> string \<Rightarrow> bool" where
  "has_own h a k \<longleftrightarrow> a < length h \<and> map_of (own (h ! a)) k \<noteq> None"

definition own_keys :: "heap \<Rightarrow> addr \<Rightarrow> string list" where
  "own_keys h a = (if a < length h then map fst (own (h ! a)) else [])"

text \<open>JavaScript truth and the value-returning \<open>||\<close>.\<close>

fun truthy :: "val \<Rightarrow> bool" where
  "truthy Undef = False"
| "truthy Null = False"
| "truthy (Bool b) = b"
| "truthy (Num n) = (n \<noteq> 0)"
| "truthy (Str s) = (s \<noteq> [])"
| "truthy (Ref a) = True"

definition js_or :: "val \<Rightarrow> val \<Rightarrow> val" where
  "js_or a b = (if truthy a then a else b)"

text \<open>\<open>isObject\<close> of \<open>src/helpers/helpers.core\<close>: a plain object, not an array, not null.\<close>

definition is_object :: "heap \<Rightarrow> val \<Rightarrow> bool" where
  "is_object h v = (case v of Ref a \<Rightarrow> a < length h \<and> okind (h ! a) = Plain | _ \<Rightarrow> False)"

definition is_obj_ref :: "heap \<Rightarrow> val \<Rightarrow> bool" where
  "is_obj_ref h v = (case v of Ref a \<Rightarrow> a < length h | _ \<Rightarrow> False)"

text \<open>ToString of a value used as a property key.\<close>

fun to_str :: "val \<Rightarrow> string" where
  "to_str Undef = ''undefined''"
| "to_str Null = ''null''"
| "to_str (Bool b) = (if b then ''true'' else ''false'')"
| "to_str (Num n) = (if n < 0 then CHR ''-'' # nat_str (nat (- n)) else nat_str (nat n))"
| "to_str (Str s) = s"
| "to_str (Ref a) = ''[object Object]''"

subsection \<open>Changing objects\<close>

text \<open>\<open>obj[k] = v\<close> on an object: every property is a writable data property.\<close>

definition put_prop :: "heap \<Rightarrow> addr \<Rightarrow> string \<Rightarrow> val \<Rightarrow> heap" where
  "put_prop h a k v =
     (if a < length h then h[a := (h ! a)\<lparr>own := AList.update k v (own (h ! a))\<rparr>] else h)"

text \<open>Assignment in strict mode code (ES modules): a property of a primitive cannot be set.\<close>

definition put_v :: "heap \<Rightarrow> val \<Rightarrow> string \<Rightarrow> val \<Rightarrow> js_error + heap" where
  "put_v h t k v =
     (case t of Ref a \<Rightarrow> Inr (put_prop h a k v)
      | _ \<Rightarrow> Inl (TypeError ''Cannot create property on primitive''))"

definition delete_prop :: "heap \<Rightarrow> addr \<Rightarrow> string \<Rightarrow> heap" where
  "delete_prop h a k =
     (if a < length h then h[a := (h ! a)\<lparr>own := AList.delete k (own (h ! a))\<rparr>] else h)"

text \<open>\<open>Object.create(null)\<close>, and an object literal with the given own properties.\<close>

definition alloc_obj :: "heap \<Rightarrow> (string \<times> val) list \<Rightarrow> addr \<times> heap" where
  "alloc_obj h ps = (length h, h @ [\<lparr>okind = Plain, own = ps, proto = None\<rparr>])"

definition alloc_array :: "heap \<Rightarrow> val list \<Rightarrow> addr \<times> heap" where
  "alloc_array h vs = (length h, h @ [\<lparr>okind = Array vs, own = [], proto = None\<rparr>])"

text \<open>
  \<open>O.[[SetPrototypeOf]](V)\<close> (OrdinarySetPrototypeOf): nothing to do when the
  link is already \<open>V\<close>; otherwise a \<open>TypeError\<close> when \<open>O\<close> is on the chain of \<open>V\<close>.
\<close>

definition set_proto_addr :: "heap \<Rightarrow> addr \<Rightarrow> addr option \<Rightarrow> js_error + heap" where
  "set_proto_addr h a p =
     (if proto (h ! a) = p then Inr h
      else case p of
        None \<Rightarrow> Inr (h[a := (h ! a)\<lparr>proto := None\<rparr>])
      | Some b \<Rightarrow>
          (if chain_has (length h) h b a then Inl (TypeError ''Cyclic __proto__ value'')
           else Inr (h[a := (h ! a)\<lparr>proto := Some b\<rparr>])))"

text \<open>
  \<open>Object.setPrototypeOf(O, V)\<close> (ECMAScript 20.1.2.23): \<open>O\<close> must not be
  \<open>undefined\<close> or \<open>null\<close>, \<open>V\<close> must be an object or \<open>null\<close>, and a primitive \<open>O\<close>
  is returned unchanged.
\<close>

definition set_proto_of :: "heap \<Rightarrow> val \<Rightarrow> val \<Rightarrow> js_error + heap" where
  "set_proto_of h ob v =
     (if ob = Undef \<or> ob = Null
      then Inl (TypeError ''Object.setPrototypeOf called on null or undefined'')
      else if \<not> (v = Null \<or> is_obj_ref h v)
      then Inl (TypeError ''Object prototype may only be an Object or null'')
      else case ob of
        Ref a \<Rightarrow> (if a < length h
                   then set_proto_addr h a (case v of Ref b \<Rightarrow> Some b | _ \<Rightarrow> None)
                   else Inr h)
      | _ \<Rightarrow> Inr h)"

text \<open>
  \<open>Object.assign(target, ...sources)\<close>: for each source that is an object, its
  own keys are listed once, then each is read (with [[Get]]) and written to the
  target in order. \<open>undefined\<close> and \<open>null\<close> sources are skipped; the engine passes
  no string sources.
\<close>

fun assign_keys :: "heap \<Rightarrow> addr \<Rightarrow> addr \<Rightarrow> string list \<Rightarrow> heap" where
  "assign_keys h t s [] = h"
| "assign_keys h t s (k # ks) = assign_keys (put_prop h t k (get_prop h s k)) t s ks"

definition assign_from :: "heap \<Rightarrow> addr \<Rightarrow> val \<Rightarrow> heap" where
  "assign_from h t src =
     (case src of Ref s \<Rightarrow> assign_keys h t s (own_keys h s) | _ \<Rightarrow> h)"

fun object_assign :: "heap \<Rightarrow> addr \<Rightarrow> val list \<Rightarrow> heap" where
  "object_assign h t [] = h"
| "object_assign h t (s # ss) = object_assign (assign_from h t s) t ss"

subsection \<open>Relations between heaps\<close>

text \<open>
  \<open>same_data h h'\<close>: \<open>h'\<close> differs from \<open>h\<close> at most in prototype links.
  \<open>keeps h h'\<close>: moreover the invariant is kept. \<open>own_ranked h rk\<close>: the graph
  of own properties is acyclic, \<open>rk\<close> decreasing along every own reference.
\<close>

definition same_data :: "heap \<Rightarrow> heap \<Rightarrow> bool" where
  "same_data h h' \<longleftrightarrow> length h' = length h \<and> map own h' = map own h \<and> map okind h' = map okind h"

definition own_ranked :: "heap \<Rightarrow> (addr \<Rightarrow> nat) \<Rightarrow> bool" where
  "own_ranked h rk \<longleftrightarrow>
     (\<forall>a < length h. \<forall>kv \<in> set (own (h ! a)).
        case snd kv of Ref b \<Rightarrow> rk b < rk a | _ \<Rightarrow> True)"

text \<open>\<open>refs_ok h\<close>: every reference held in an own property is to an object of the heap.\<close>

definition refs_ok :: "heap \<Rightarrow> bool" where
  "refs_ok h \<longleftrightarrow>
     (\<forall>a < length h. \<forall>kv \<in> set (own (h ! a)).
        case snd kv of Ref b \<Rightarrow> b < length h | _ \<Rightarrow> True)"

definition keeps :: "heap \<Rightarrow> heap \<Rightarrow> bool" where
  "keeps h h' \<longleftrightarrow> (heap_ok h \<longrightarrow> heap_ok h') \<and> same_data h h'"

text \<open>
  The \<open>i\<close>-th object on the prototype chain of \<open>a\<close> (\<open>None\<close> once the chain has
  ended): a proof device for the chain lemmas below, not a part of the model.
\<close>

fun walk :: "heap \<Rightarrow> nat \<Rightarrow> addr \<Rightarrow> addr option" where
  "walk h 0 a = Some a"
| "walk h (Suc n) a = (case next_proto h a of None \<Rightarrow> None | Some p \<Rightarrow> walk h n p)"

subsection \<open>Prototype chains end: the pigeonhole argument\<close>

lemma chain_ends_walk: "chain_ends n h a \<longleftrightarrow> walk h n a = None"
  by (induction n arbitrary: a) (simp_all split: option.splits)

lemma walk_add: "walk h (i + j) a = Option.bind (walk h i a) (walk h j)"
  by (induction i arbitrary: a) (simp_all split: option.splits)

lemma walk_None_mono: "walk h i a = None \<Longrightarrow> i \<le> j \<Longrightarrow> walk h j a = None"
  using walk_add [of h i "j - i" a] by simp

lemma chain_ends_mono: "chain_ends n h a \<Longrightarrow> n \<le> m \<Longrightarrow> chain_ends m h a"
  by (simp add: chain_ends_walk walk_None_mono)

lemma walk_cycle_pow: "walk h (Suc i) c = Some c \<Longrightarrow> walk h (t * Suc i) c = Some c"
proof (induction t)
  case 0 then show ?case by simp
next
  case (Suc t)
  have "walk h (Suc i + t * Suc i) c = Option.bind (walk h (Suc i) c) (walk h (t * Suc i))"
    by (rule walk_add)
  with Suc show ?case by (simp add: ac_simps)
qed

lemma walk_cycle_never_ends:
  assumes "walk h (Suc i) c = Some c"
  shows "walk h n c \<noteq> None"
proof
  assume "walk h n c = None"
  moreover have "n \<le> n * Suc i" by simp
  ultimately have "walk h (n * Suc i) c = None" by (rule walk_None_mono)
  with walk_cycle_pow [OF assms, of n] show False by (simp add: mult.commute)
qed

lemma walk_lt:
  assumes "protos_ok h" "a < length h" "walk h i a = Some b"
  shows "b < length h"
  using assms(3,2)
proof (induction i arbitrary: a)
  case 0 then show ?case by simp
next
  case (Suc i)
  then obtain p where p: "next_proto h a = Some p" and "walk h i p = Some b"
    by (auto split: option.splits)
  moreover from p assms(1) Suc.prems(2) have "p < length h"
    by (auto simp: next_proto_def protos_ok_def split: if_splits)
  ultimately show ?case using Suc.IH by blast
qed

lemma chain_ends_length:
  assumes ok: "protos_ok h" and a: "a < length h" and ends: "chain_ends n h a"
  shows "chain_ends (length h) h a"
proof (rule ccontr)
  let ?L = "length h"
  assume "\<not> chain_ends ?L h a"
  then have wL: "walk h ?L a \<noteq> None" by (simp add: chain_ends_walk)
  have some: "walk h i a \<noteq> None" if "i \<le> ?L" for i
  proof
    assume "walk h i a = None"
    then have "walk h ?L a = None" using that by (rule walk_None_mono)
    with wL show False by simp
  qed
  define g where "g i = the (walk h i a)" for i
  have g_eq: "walk h i a = Some (g i)" if "i \<le> ?L" for i
    using some [OF that] by (auto simp: g_def)
  have "g ` {..?L} \<subseteq> {..<?L}"
  proof
    fix b assume "b \<in> g ` {..?L}"
    then obtain i where "i \<le> ?L" "b = g i" by auto
    then have "walk h i a = Some b" using g_eq by simp
    then show "b \<in> {..<?L}" using walk_lt [OF ok a] by simp
  qed
  then have "card (g ` {..?L}) \<le> card {..<?L}" by (rule card_mono [rotated]) simp
  then have "card (g ` {..?L}) < card {..?L}" by simp
  then have "\<not> inj_on g {..?L}" by (rule pigeonhole)
  then obtain x y where xy: "x \<le> ?L" "y \<le> ?L" "x \<noteq> y" "g x = g y"
    by (auto simp: inj_on_def)
  have "\<exists>i j. i \<le> ?L \<and> j \<le> ?L \<and> i < j \<and> g i = g j"
  proof (cases "x < y")
    case True with xy show ?thesis by blast
  next
    case False with xy have "y < x" by simp
    with xy show ?thesis by metis
  qed
  then obtain i j where ij: "i \<le> ?L" "j \<le> ?L" "i < j" "g i = g j" by blast
  define c where "c = g i"
  have "walk h (i + (j - i)) a = Option.bind (walk h i a) (walk h (j - i))"
    by (rule walk_add)
  with g_eq ij have cyc0: "walk h (j - i) c = Some c"
    by (simp add: c_def)
  have "j - i = Suc (j - i - 1)" using ij(3) by simp
  with cyc0 have cyc: "walk h (Suc (j - i - 1)) c = Some c" by simp
  have "walk h (i + n) a = walk h n c"
    using walk_add [of h i n a] g_eq [OF ij(1)] by (simp add: c_def)
  moreover from ends have "walk h (i + n) a = None"
    by (simp add: chain_ends_walk walk_None_mono)
  ultimately have "walk h n c = None" by simp
  with walk_cycle_never_ends [OF cyc] show False by blast
qed

lemma chain_ends_next_cong:
  "(\<And>x. next_proto h' x = next_proto h x) \<Longrightarrow> chain_ends n h' a = chain_ends n h a"
  by (induction n arbitrary: a) (simp_all split: option.splits)

lemma protos_ok_next: "protos_ok h \<longleftrightarrow> (\<forall>a p. next_proto h a = Some p \<longrightarrow> p < length h)"
  by (auto simp: protos_ok_def next_proto_def split: option.splits)

lemma heap_ok_next_cong:
  assumes "length h' = length h" "\<And>x. next_proto h' x = next_proto h x"
  shows "heap_ok h' = heap_ok h"
  using assms chain_ends_next_cong [of h' h] by (simp add: heap_ok_def protos_ok_next)

lemma next_proto_set:
  "a < length h \<Longrightarrow>
   next_proto (h[a := (h ! a)\<lparr>proto := q\<rparr>]) x = (if x = a then q else next_proto h x)"
  by (simp add: next_proto_def nth_list_update)

lemma next_proto_own_update [simp]:
  "next_proto (h[a := (h ! a)\<lparr>own := ps\<rparr>]) = next_proto h"
  by (rule ext) (cases "a < length h"; auto simp: next_proto_def nth_list_update)

lemma next_proto_put [simp]: "next_proto (put_prop h a k v) = next_proto h"
  by (simp add: put_prop_def)

lemma next_proto_delete [simp]: "next_proto (delete_prop h a k) = next_proto h"
  by (simp add: delete_prop_def)

lemma length_put [simp]: "length (put_prop h a k v) = length h"
  by (simp add: put_prop_def)

lemma length_delete [simp]: "length (delete_prop h a k) = length h"
  by (simp add: delete_prop_def)

lemma next_proto_alloc [simp]:
  "next_proto (h @ [\<lparr>okind = kd, own = ps, proto = None\<rparr>]) = next_proto h"
  by (rule ext) (simp add: next_proto_def nth_append)

subsection \<open>Lookups\<close>

lemma lookup_fuel_stable:
  "chain_ends n h a \<Longrightarrow> n \<le> m \<Longrightarrow> lookup_fuel m h a k = lookup_fuel n h a k"
proof (induction n arbitrary: a m)
  case 0 then show ?case by simp
next
  case (Suc n)
  then obtain m' where m: "m = Suc m'" "n \<le> m'" by (cases m) auto
  show ?case
  proof (cases "a < length h")
    case True
    show ?thesis
    proof (cases "map_of (own (h ! a)) k")
      case None
      show ?thesis
      proof (cases "proto (h ! a)")
        case (Some p)
        with True Suc.prems(1) have "chain_ends n h p" by (simp add: next_proto_def)
        then have "lookup_fuel m' h p k = lookup_fuel n h p k" using m(2) by (rule Suc.IH)
        with True None Some m(1) show ?thesis by simp
      qed (simp add: True None m(1))
    qed (simp add: True m(1))
  next
    case False with m show ?thesis by simp
  qed
qed

theorem get_prop_unfold:
  assumes "heap_ok h" "a < length h"
  shows "get_prop h a k =
           (case map_of (own (h ! a)) k of
              Some v \<Rightarrow> v
            | None \<Rightarrow> (case proto (h ! a) of None \<Rightarrow> Undef | Some p \<Rightarrow> get_prop h p k))"
proof -
  obtain n where n: "length h = Suc n" using assms(2) by (cases "length h") auto
  have ends: "chain_ends (Suc n) h a" using assms n by (simp add: heap_ok_def)
  have "lookup_fuel (Suc n) h p k = lookup_fuel n h p k" if "proto (h ! a) = Some p" for p
  proof -
    from ends that assms(2) have "chain_ends n h p" by (simp add: next_proto_def)
    then show ?thesis by (rule lookup_fuel_stable) simp
  qed
  with assms(2) show ?thesis
    by (simp add: get_prop_def n split: option.splits)
qed

lemma get_prop_out [simp]: "\<not> a < length h \<Longrightarrow> get_prop h a k = Undef"
  by (cases "length h") (simp_all add: get_prop_def)

lemma chain_has_walk:
  "chain_ends n h p \<Longrightarrow> chain_has n h p a \<Longrightarrow> \<exists>i. walk h i p = Some a"
proof (induction n arbitrary: p)
  case 0 then show ?case by simp
next
  case (Suc n)
  show ?case
  proof (cases "p = a")
    case True
    then have "walk h 0 p = Some a" by simp
    then show ?thesis by blast
  next
    case False
    show ?thesis
    proof (cases "next_proto h p")
      case None
      with False Suc.prems(2) show ?thesis by simp
    next
      case (Some q)
      with False Suc.prems have "chain_ends n h q" "chain_has n h q a" by simp_all
      with Suc.IH obtain i where "walk h i q = Some a" by blast
      with Some have "walk h (Suc i) p = Some a" by simp
      then show ?thesis by blast
    qed
  qed
qed

lemma not_chain_has_ends: "\<not> chain_has m h b a \<Longrightarrow> chain_ends m h b"
  by (induction m arbitrary: b) (auto split: option.splits)

lemma heap_ok_parent_not_below:
  assumes "heap_ok h" "a < length h" "proto (h ! a) = Some p"
  shows "\<not> chain_has (length h) h p a"
proof
  assume has: "chain_has (length h) h p a"
  from assms have "p < length h" by (auto simp: heap_ok_def protos_ok_def)
  with assms(1) have "chain_ends (length h) h p" by (simp add: heap_ok_def)
  with has obtain i where "walk h i p = Some a" using chain_has_walk by blast
  with assms(2,3) have "walk h (Suc i) a = Some a" by (simp add: next_proto_def)
  then have "walk h (length h) a \<noteq> None" by (rule walk_cycle_never_ends)
  with assms(1,2) show False by (simp add: heap_ok_def chain_ends_walk)
qed

subsection \<open>Frame: an update is seen only below the object it changes\<close>

lemma lookup_fuel_put_frame:
  "\<not> chain_has n h b a \<Longrightarrow> lookup_fuel n (put_prop h a k v) b k' = lookup_fuel n h b k'"
proof (induction n arbitrary: b)
  case 0 then show ?case by simp
next
  case (Suc n)
  then have "b \<noteq> a" by simp
  then have nth: "put_prop h a k v ! b = h ! b" by (simp add: put_prop_def)
  from Suc.prems have "next_proto h b = Some q \<Longrightarrow> \<not> chain_has n h q a" for q
    by simp
  with Suc.IH show ?case
    by (simp add: nth next_proto_def split: option.splits)
qed

theorem get_prop_put_frame:
  "\<not> chain_has (length h) h b a \<Longrightarrow> get_prop (put_prop h a k v) b k' = get_prop h b k'"
  by (simp add: get_prop_def lookup_fuel_put_frame)

theorem get_prop_put_same:
  "a < length h \<Longrightarrow> get_prop (put_prop h a k v) a k = v"
  by (cases "length h") (auto simp: get_prop_def put_prop_def)

subsection \<open>Every heap operation keeps the invariant\<close>

lemma heap_ok_put [simp]: "heap_ok (put_prop h a k v) = heap_ok h"
  by (rule heap_ok_next_cong) simp_all

lemma heap_ok_delete [simp]: "heap_ok (delete_prop h a k) = heap_ok h"
  by (rule heap_ok_next_cong) simp_all

lemma heap_ok_append:
  assumes "heap_ok h"
  shows "heap_ok (h @ [\<lparr>okind = kd, own = ps, proto = None\<rparr>])" (is "heap_ok ?h'")
proof -
  from assms have po: "protos_ok h" by (simp add: heap_ok_def)
  have pr: "protos_ok ?h'" unfolding protos_ok_next
  proof (intro allI impI)
    fix x q assume "next_proto ?h' x = Some q"
    with po have "q < length h" by (simp add: protos_ok_next)
    then show "q < length ?h'" by simp
  qed
  have "chain_ends (length ?h') ?h' a" if "a < length ?h'" for a
  proof (cases "a < length h")
    case True
    with assms have "chain_ends (length h) h a" by (simp add: heap_ok_def)
    then have "chain_ends (length h) ?h' a" using chain_ends_next_cong [of ?h' h] by simp
    then show ?thesis by (rule chain_ends_mono) simp
  next
    case False
    then have "next_proto h a = None" by (simp add: next_proto_def)
    then have "chain_ends (Suc 0) ?h' a" by simp
    then show ?thesis by (rule chain_ends_mono) simp
  qed
  with pr show ?thesis by (simp add: heap_ok_def)
qed

lemma heap_ok_alloc_obj: "heap_ok h \<Longrightarrow> alloc_obj h ps = (a, h') \<Longrightarrow> heap_ok h'"
  by (auto simp: alloc_obj_def heap_ok_append)

lemma ends_after_relink:
  assumes nx: "\<And>x. x \<noteq> a \<Longrightarrow> next_proto h' x = next_proto h x"
    and na: "next_proto h' a = Some b" and eb: "chain_ends m h' b"
  shows "chain_ends n h x \<Longrightarrow> chain_ends (n + m) h' x"
proof (induction n arbitrary: x)
  case 0 then show ?case by simp
next
  case (Suc n)
  show ?case
  proof (cases "x = a")
    case True
    from eb have "chain_ends (n + m) h' b" by (rule chain_ends_mono) simp
    with True na show ?thesis by simp
  next
    case False
    with Suc nx [OF False] show ?thesis by (simp split: option.splits)
  qed
qed

lemma ends_unchanged_off_chain:
  assumes nx: "\<And>x. x \<noteq> a \<Longrightarrow> next_proto h' x = next_proto h x"
  shows "\<not> chain_has m h b a \<Longrightarrow> chain_ends m h' b"
proof (induction m arbitrary: b)
  case 0 then show ?case by simp
next
  case (Suc m)
  then have "b \<noteq> a" by simp
  with Suc nx [OF this] show ?case by (simp split: option.splits)
qed

lemma ends_after_cut:
  assumes "\<And>x. x \<noteq> a \<Longrightarrow> next_proto h' x = next_proto h x" "next_proto h' a = None"
  shows "chain_ends n h x \<Longrightarrow> chain_ends n h' x"
proof (induction n arbitrary: x)
  case 0 then show ?case by simp
next
  case (Suc n)
  show ?case
  proof (cases "x = a")
    case True with assms(2) show ?thesis by simp
  next
    case False
    with Suc assms(1) [OF False] show ?thesis by (simp split: option.splits)
  qed
qed

text \<open>A heap whose chains all end within \<open>d\<close> steps is well formed; \<open>d\<close> need not be its size.\<close>

lemma heap_ok_by_depth:
  assumes ok: "protos_ok h" and d: "list_all (chain_ends d h) [0..<length h]"
  shows "heap_ok h"
proof -
  have "chain_ends (length h) h a" if a: "a < length h" for a
  proof -
    from d a have "chain_ends d h a" by (simp add: list_all_iff)
    with ok a show ?thesis by (rule chain_ends_length)
  qed
  with ok show ?thesis by (simp add: heap_ok_def)
qed

lemma heap_ok_set_proto_addr:
  assumes ok: "heap_ok h" and a: "a < length h"
    and pb: "\<forall>b. p = Some b \<longrightarrow> b < length h"
    and r: "set_proto_addr h a p = Inr h'"
  shows "heap_ok h'"
proof (cases "proto (h ! a) = p")
  case True with r ok show ?thesis by (simp add: set_proto_addr_def)
next
  case False
  let ?h = "h[a := (h ! a)\<lparr>proto := p\<rparr>]"
  have nx: "next_proto ?h x = (if x = a then p else next_proto h x)" for x
    using a by (rule next_proto_set)
  from ok have po: "protos_ok h" by (simp add: heap_ok_def)
  have pr: "protos_ok ?h" unfolding protos_ok_next
  proof (intro allI impI)
    fix x q assume "next_proto ?h x = Some q"
    with po pb show "q < length ?h" by (auto simp: nx protos_ok_next split: if_splits)
  qed
  show ?thesis
  proof (cases p)
    case None
    have h': "h' = ?h" using False r None by (auto simp: set_proto_addr_def)
    have "chain_ends (length h) ?h x" if "x < length h" for x
    proof -
      from ok that have "chain_ends (length h) h x" by (simp add: heap_ok_def)
      note e = this
      show ?thesis using ends_after_cut [of a ?h h "length h" x, OF _ _ e]
        by (simp add: next_proto_set [OF a] None)
    qed
    with pr h' show ?thesis by (simp add: heap_ok_def)
  next
    case (Some b)
    with False r have nh: "\<not> chain_has (length h) h b a" and h': "h' = ?h"
      by (auto simp: set_proto_addr_def split: if_splits)
    have eb: "chain_ends (length h) ?h b"
      using ends_unchanged_off_chain [of a ?h h, OF _ nh] by (simp add: nx)
    have "chain_ends (length h) ?h x" if "x < length h" for x
    proof -
      from ok that have "chain_ends (length h) h x" by (simp add: heap_ok_def)
      note e = this
      have "chain_ends (length h + length h) ?h x"
        using ends_after_relink [of a ?h h b "length h", OF _ _ eb e]
        by (simp add: next_proto_set [OF a] Some)
      then show ?thesis using chain_ends_length [OF pr] that by simp
    qed
    with pr h' show ?thesis by (simp add: heap_ok_def)
  qed
qed

theorem heap_ok_set_proto_of:
  assumes ok: "heap_ok h" and r: "set_proto_of h ob v = Inr h'"
  shows "heap_ok h'"
proof (cases "\<exists>a. ob = Ref a \<and> a < length h")
  case True
  then obtain a where a: "ob = Ref a" "a < length h" by blast
  let ?p = "case v of Ref b \<Rightarrow> Some b | _ \<Rightarrow> None"
  from r a have v: "v = Null \<or> is_obj_ref h v" and s: "set_proto_addr h a ?p = Inr h'"
    by (auto simp: set_proto_of_def split: if_splits)
  from v have "\<forall>b. ?p = Some b \<longrightarrow> b < length h"
    by (auto simp: is_obj_ref_def split: val.splits)
  then show ?thesis by (rule heap_ok_set_proto_addr [OF ok a(2) _ s])
next
  case False
  with r have "h' = h" by (cases ob) (auto simp: set_proto_of_def split: if_splits)
  with ok show ?thesis by simp
qed

lemma heap_ok_assign_keys: "heap_ok (assign_keys h t s ks) = heap_ok h"
  by (induction ks arbitrary: h) simp_all

subsection \<open>Heaps that differ only in prototype links\<close>

lemma keeps_refl [simp]: "keeps h h"
  by (simp add: keeps_def same_data_def)

lemma keeps_trans: "keeps h1 h2 \<Longrightarrow> keeps h2 h3 \<Longrightarrow> keeps h1 h3"
  by (simp add: keeps_def same_data_def)

lemma same_data_proto_update:
  "same_data h (h[a := (h ! a)\<lparr>proto := p\<rparr>])"
  by (cases "a < length h")
     (auto simp: same_data_def list_eq_iff_nth_eq nth_list_update list_update_beyond)

lemma set_proto_of_same_data: "set_proto_of h ob v = Inr h' \<Longrightarrow> same_data h h'"
  by (auto simp: set_proto_of_def set_proto_addr_def same_data_proto_update
           split: if_splits val.splits option.splits)
     (simp_all add: same_data_def)

lemma set_proto_of_keeps: "set_proto_of h ob v = Inr h' \<Longrightarrow> keeps h h'"
  by (simp add: keeps_def set_proto_of_same_data heap_ok_set_proto_of)

lemma get_prop_own:
  "a < length h \<Longrightarrow> map_of (own (h ! a)) k = Some v \<Longrightarrow> get_prop h a k = v"
  by (cases "length h") (simp_all add: get_prop_def)

lemma own_key_value:
  "k \<in> set (own_keys h a) \<Longrightarrow> \<exists>v. map_of (own (h ! a)) k = Some v \<and> a < length h"
  by (auto simp: own_keys_def split: if_splits dest: weak_map_of_SomeI)

lemma same_data_own_keys: "same_data h h' \<Longrightarrow> own_keys h' a = own_keys h a"
proof -
  assume sd: "same_data h h'"
  then have "a < length h \<Longrightarrow> own (h' ! a) = own (h ! a)"
    by (metis (no_types) nth_map same_data_def)
  with sd show ?thesis by (simp add: own_keys_def same_data_def)
qed

lemma same_data_own: "same_data h h' \<Longrightarrow> a < length h \<Longrightarrow> own (h' ! a) = own (h ! a)"
  by (metis (no_types) nth_map same_data_def)

lemma same_data_okind: "same_data h h' \<Longrightarrow> a < length h \<Longrightarrow> okind (h' ! a) = okind (h ! a)"
  by (metis (no_types) nth_map same_data_def)

lemma own_ranked_mapD:
  "own_ranked h rk \<Longrightarrow> a < length h \<Longrightarrow> map_of (own (h ! a)) k = Some (Ref b) \<Longrightarrow> rk b < rk a"
  unfolding own_ranked_def by (fastforce dest: map_of_SomeD)

lemma refs_ok_mapD:
  "refs_ok h \<Longrightarrow> a < length h \<Longrightarrow> map_of (own (h ! a)) k = Some (Ref b) \<Longrightarrow> b < length h"
  unfolding refs_ok_def by (fastforce dest: map_of_SomeD)

lemma own_ranked_same_data:
  assumes sd: "same_data h h'" and r: "own_ranked h rk"
  shows "own_ranked h' rk"
proof -
  have "a < length h' \<Longrightarrow> own (h' ! a) = own (h ! a)" for a
    using sd same_data_own [OF sd] by (simp add: same_data_def)
  with r sd show ?thesis by (simp add: own_ranked_def same_data_def)
qed

lemma lookup_fuel_refs_ok:
  "refs_ok h \<Longrightarrow> lookup_fuel n h a k = Ref b \<Longrightarrow> b < length h"
proof (induction n arbitrary: a)
  case 0 then show ?case by simp
next
  case (Suc n)
  then show ?case
    by (auto split: if_splits option.splits dest: refs_ok_mapD)
qed

lemma get_prop_refs_ok: "refs_ok h \<Longrightarrow> get_prop h a k = Ref b \<Longrightarrow> b < length h"
  unfolding get_prop_def by (rule lookup_fuel_refs_ok)

lemma set_proto_of_links:
  "set_proto_of h (Ref a) (Ref b) = Inr h' \<Longrightarrow> a < length h \<Longrightarrow> next_proto h' a = Some b"
  by (auto simp: set_proto_of_def set_proto_addr_def next_proto_def split: if_splits)

lemma set_proto_of_other:
  "set_proto_of h ob v = Inr h1 \<Longrightarrow> (\<And>b. ob = Ref b \<Longrightarrow> x \<noteq> b) \<Longrightarrow> next_proto h1 x = next_proto h x"
  by (auto simp: set_proto_of_def set_proto_addr_def next_proto_def nth_list_update
           split: if_splits val.splits option.splits)

lemma put_prop_nth_other: "x \<noteq> n \<Longrightarrow> put_prop h n k v ! x = h ! x"
  by (simp add: put_prop_def)

subsection \<open>Object.assign into a fresh object\<close>

lemma assign_keys_props:
  assumes "n < length h" "u < length h" "n \<noteq> u" "set ks \<subseteq> set (own_keys h u)"
  shows "length (assign_keys h n u ks) = length h \<and>
         (\<forall>x. x \<noteq> n \<longrightarrow> assign_keys h n u ks ! x = h ! x) \<and>
         proto (assign_keys h n u ks ! n) = proto (h ! n) \<and>
         okind (assign_keys h n u ks ! n) = okind (h ! n) \<and>
         (distinct (map fst (own (h ! n))) \<longrightarrow> distinct (map fst (own (assign_keys h n u ks ! n)))) \<and>
         (\<forall>k. map_of (own (assign_keys h n u ks ! n)) k =
               (if k \<in> set ks then map_of (own (h ! u)) k else map_of (own (h ! n)) k))"
  using assms
proof (induction ks arbitrary: h)
  case Nil then show ?case by simp
next
  case (Cons k ks)
  from Cons.prems obtain v where v: "map_of (own (h ! u)) k = Some v"
    using own_key_value by fastforce
  with Cons.prems(2) have gv: "get_prop h u k = v" by (rule get_prop_own)
  let ?h1 = "put_prop h n k v"
  have l1: "length ?h1 = length h" by simp
  have o1: "?h1 ! x = h ! x" if "x \<noteq> n" for x using that by (rule put_prop_nth_other)
  have n1: "?h1 ! n = (h ! n)\<lparr>own := AList.update k v (own (h ! n))\<rparr>"
    using Cons.prems(1) by (simp add: put_prop_def)
  have "set ks \<subseteq> set (own_keys ?h1 u)"
    using Cons.prems(2-4) o1 [of u] by (auto simp: own_keys_def)
  with Cons.prems(1-3) l1 have ih: "length (assign_keys ?h1 n u ks) = length ?h1 \<and>
         (\<forall>x. x \<noteq> n \<longrightarrow> assign_keys ?h1 n u ks ! x = ?h1 ! x) \<and>
         proto (assign_keys ?h1 n u ks ! n) = proto (?h1 ! n) \<and>
         okind (assign_keys ?h1 n u ks ! n) = okind (?h1 ! n) \<and>
         (distinct (map fst (own (?h1 ! n))) \<longrightarrow> distinct (map fst (own (assign_keys ?h1 n u ks ! n)))) \<and>
         (\<forall>k'. map_of (own (assign_keys ?h1 n u ks ! n)) k' =
               (if k' \<in> set ks then map_of (own (?h1 ! u)) k' else map_of (own (?h1 ! n)) k'))"
    by (intro Cons.IH) simp_all
  show ?case
    using ih o1 [of u] Cons.prems(3) n1 v by (auto simp: gv o1 distinct_update)
qed


end
