(* ===== verification/Axis.thy ===== *)
theory Axis
  imports JsObj
begin

text \<open>
  The axis resolver of \<open>src/src/core/core.config.js\<close> (lines 5--41): which axis
  (\<open>x\<close>, \<open>y\<close>, \<open>r\<close>) a scale measures, which axis a chart indexes its data along,
  and the translation between the placeholder scale ids \<open>_index_\<close>/\<open>_value_\<close>
  of the dataset defaults and concrete axes. Axis values are JavaScript values,
  since they are read from options: nothing forces them to be strings.
\<close>

text \<open>\<open>(x || {}).k\<close>: a falsy value is replaced by a fresh empty object, whose properties are all undefined.\<close>

definition get_or_empty :: "heap \<Rightarrow> val \<Rightarrow> string \<Rightarrow> val" where
  "get_or_empty h x k = (if truthy x then (case x of Ref a \<Rightarrow> get_prop h a k | _ \<Rightarrow> Undef) else Undef)"

text \<open>
  \<open>getIndexAxis(type, optionsWithDefaults)\<close>: \<open>dflt\<close> is the address of the
  \<open>defaults\<close> registry (\<open>core.defaults\<close>). The \<open>||\<close> chain reads the chart
  options' per-type dataset options, then the chart options, then the type's
  dataset defaults, then falls back to \<open>'x'\<close>.
\<close>

definition getIndexAxis :: "heap \<Rightarrow> addr \<Rightarrow> val \<Rightarrow> val \<Rightarrow> js_error + val" where
  "getIndexAxis h dflt type opts =
     (let typeDefaults = get_prop h dflt (to_str type);
          datasetDefaults = get_or_empty h typeDefaults ''datasets''
      in sbind (get_v h opts (to_str type)) (\<lambda>typeOptions.
           let datasetOptions = get_or_empty h typeOptions ''datasets''
           in sbind (get_v h opts ''indexAxis'') (\<lambda>chartIndexAxis.
                Inr (js_or (get_or_empty h datasetOptions ''indexAxis'')
                      (js_or chartIndexAxis
                        (js_or (get_or_empty h datasetDefaults ''indexAxis'') (Str ''x'')))))))"

definition getAxisFromDefaultScaleID :: "string \<Rightarrow> val \<Rightarrow> val" where
  "getAxisFromDefaultScaleID sid indexAxis =
     (if sid = ''_index_'' then indexAxis
      else if sid = ''_value_'' then (if indexAxis = Str ''x'' then Str ''y'' else Str ''x'')
      else Str sid)"

definition getDefaultScaleIDFromAxis :: "val \<Rightarrow> val \<Rightarrow> string" where
  "getDefaultScaleIDFromAxis axis indexAxis =
     (if axis = indexAxis then ''_index_'' else ''_value_'')"

definition axisFromPosition :: "val \<Rightarrow> val" where
  "axisFromPosition position =
     (if position = Str ''top'' \<or> position = Str ''bottom'' then Str ''x''
      else if position = Str ''left'' \<or> position = Str ''right'' then Str ''y''
      else Undef)"

text \<open>\<open>String.prototype.toLowerCase\<close> on the characters this model has (bytes): ASCII letters.\<close>

definition lower_char :: "char \<Rightarrow> char" where
  "lower_char c =
     (let n = (of_char c :: nat) in if 65 \<le> n \<and> n \<le> 90 then char_of (n + 32) else c)"

text \<open>
  \<open>determineAxis(id, scaleOptions)\<close>: the id itself when it is an axis name,
  else the scale's \<open>axis\<close> option, else the axis of its \<open>position\<close>, else the
  lower-cased first character of the id (\<open>charAt(0)\<close> of the empty string is empty).
\<close>

definition determineAxis :: "heap \<Rightarrow> string \<Rightarrow> val \<Rightarrow> js_error + val" where
  "determineAxis h sid scaleOptions =
     (if sid = ''x'' \<or> sid = ''y'' \<or> sid = ''r'' then Inr (Str sid)
      else sbind (get_v h scaleOptions ''axis'') (\<lambda>ax.
        if truthy ax then Inr ax
        else sbind (get_v h scaleOptions ''position'') (\<lambda>pos.
          if truthy (axisFromPosition pos) then Inr (axisFromPosition pos)
          else Inr (Str (map lower_char (take 1 sid))))))"

subsection \<open>Lemmas\<close>

lemma get_v_Ref [simp]: "get_v h (Ref a) k = Inr (get_prop h a k)"
  by (simp add: get_v_def)

lemma get_v_not_nullish:
  "v \<noteq> Undef \<Longrightarrow> v \<noteq> Null \<Longrightarrow> \<exists>x. get_v h v k = Inr x"
  by (cases v) (simp_all add: get_v_def)

lemma truthy_axisFromPosition:
  "truthy (axisFromPosition p) \<longleftrightarrow> p \<in> {Str ''top'', Str ''bottom'', Str ''left'', Str ''right''}"
  by (auto simp: axisFromPosition_def)

subsection \<open>Properties\<close>

text \<open>
  C17. Contrary to the specification's "no error path", \<open>determineAxis\<close> throws a
  \<open>TypeError\<close> when the scale's options are \<open>undefined\<close> or \<open>null\<close> (a user
  configuration \<open>scales: {foo: null}\<close>) and the id is not an axis name.
\<close>

theorem determineAxis_nullish:
  "\<not> (sid = ''x'' \<or> sid = ''y'' \<or> sid = ''r'') \<Longrightarrow> v = Undef \<or> v = Null \<Longrightarrow>
   \<exists>msg. determineAxis h sid v = Inl (TypeError msg)"
  by (auto simp: determineAxis_def get_v_def)

theorem determineAxis_nullish_witness:
  "\<not> (''foo'' = ''x'' \<or> ''foo'' = ''y'' \<or> ''foo'' = ''r'') \<and> (Null = Undef \<or> Null = Null) \<and>
   (\<exists>msg. determineAxis [] ''foo'' Null = Inl (TypeError msg))"
  using determineAxis_nullish [of "''foo''" Null "[]"] by simp

text \<open>
  C24. A placeholder id survives the trip to an axis and back, whatever the index
  axis: \<open>getDefaultScaleIDFromAxis(getAxisFromDefaultScaleID(p, ia), ia) = p\<close>.
\<close>

theorem placeholder_roundtrip:
  "p = ''_index_'' \<or> p = ''_value_'' \<Longrightarrow>
   getDefaultScaleIDFromAxis (getAxisFromDefaultScaleID p ia) ia = p"
  by (auto simp: getDefaultScaleIDFromAxis_def getAxisFromDefaultScaleID_def)

theorem placeholder_roundtrip_witness:
  "(''_value_'' = ''_index_'' \<or> ''_value_'' = ''_value_'') \<and>
   getDefaultScaleIDFromAxis (getAxisFromDefaultScaleID ''_value_'' (Str ''y'')) (Str ''y'') = ''_value_''"
  using placeholder_roundtrip [of "''_value_''" "Str ''y''"] by simp

text \<open>
  C25. For a Cartesian chart (index axis \<open>x\<close> or \<open>y\<close>), an axis \<open>x\<close> or \<open>y\<close>
  survives the trip to its placeholder and back.
\<close>

theorem axis_roundtrip:
  "ia \<in> {Str ''x'', Str ''y''} \<Longrightarrow> ax \<in> {Str ''x'', Str ''y''} \<Longrightarrow>
   getAxisFromDefaultScaleID (getDefaultScaleIDFromAxis ax ia) ia = ax"
  by (auto simp: getDefaultScaleIDFromAxis_def getAxisFromDefaultScaleID_def)

theorem axis_roundtrip_witness:
  "Str ''y'' \<in> {Str ''x'', Str ''y''} \<and> Str ''x'' \<in> {Str ''x'', Str ''y''} \<and>
   getAxisFromDefaultScaleID (getDefaultScaleIDFromAxis (Str ''x'') (Str ''y'')) (Str ''y'') = Str ''x''"
  using axis_roundtrip [of "Str ''y''" "Str ''x''"] by simp

end
