(* ===== verification/Fixture.thy ===== *)
theory Fixture
  imports JsObj
begin

text \<open>
  A concrete heap for the witnesses: the part of the \<open>defaults\<close> registry of
  \<open>core.defaults\<close> that the configuration engine reads for a line chart, and the
  configuration of the specification's end-to-end example (type \<open>'line'\<close>, one
  dataset, no scale options). Addresses: 0 the registry, 1--5 the \<open>line\<close>
  defaults with their dataset defaults and default scales (\<open>_index_\<close> a
  category scale, \<open>_value_\<close> a linear one), 6--8 the scale-type defaults,
  9--11 the generic scale defaults (\<open>defaults.scale\<close>) with nested \<open>ticks\<close>
  and \<open>gridLines\<close>, 12 the user's configuration, 13 its \<open>data\<close>, 14 and 15 the
  \<open>datasets\<close> and \<open>labels\<close> arrays, 16 the user's options, 17 the dataset.
\<close>

definition pobj :: "(string \<times> val) list \<Rightarrow> obj" where
  "pobj ps = \<lparr>okind = Plain, own = ps, proto = None\<rparr>"

definition aobj :: "val list \<Rightarrow> obj" where
  "aobj vs = \<lparr>okind = Array vs, own = [], proto = None\<rparr>"

definition line_heap :: heap where
  "line_heap = [
     pobj [(''line'', Ref 1), (''scales'', Ref 6), (''scale'', Ref 9)],
     pobj [(''datasets'', Ref 2), (''scales'', Ref 3), (''showLines'', Bool True)],
     pobj [(''spanGaps'', Bool False)],
     pobj [(''_index_'', Ref 4), (''_value_'', Ref 5)],
     pobj [(''type'', Str ''category'')],
     pobj [(''type'', Str ''linear'')],
     pobj [(''category'', Ref 7), (''linear'', Ref 8)],
     pobj [(''offset'', Bool False)],
     pobj [(''beginAtZero'', Bool False)],
     pobj [(''display'', Bool True), (''ticks'', Ref 10), (''gridLines'', Ref 11)],
     pobj [(''color'', Str ''#666'')],
     pobj [(''color'', Str ''rgba(0,0,0,0.1)'')],
     pobj [(''type'', Str ''line''), (''data'', Ref 13), (''options'', Ref 16)],
     pobj [(''datasets'', Ref 14), (''labels'', Ref 15)],
     aobj [Ref 17],
     aobj [],
     pobj [(''responsive'', Bool False)],
     pobj [(''label'', Str ''a'')]]"

text \<open>A rank of the own-property graph of \<open>line_heap\<close>: every own reference goes to a higher address.\<close>

definition line_rank :: "addr \<Rightarrow> nat" where
  "line_rank a = 20 - a"

text \<open>
  A scale whose own nested \<open>ticks\<close> is \<open>null\<close> while its prototype (address 1)
  nests a \<open>ticks\<close> object (address 2).
\<close>

definition null_heap :: heap where
  "null_heap = [\<lparr>okind = Plain, own = [(''ticks'', Null)], proto = Some 1\<rparr>,
                pobj [(''ticks'', Ref 2)], pobj [(''color'', Str ''red'')]]"

subsection \<open>The fixtures satisfy the heap invariants\<close>

lemma line_heap_ok: "heap_ok line_heap"
proof (rule heap_ok_by_depth [where d = 4])
  show "protos_ok line_heap" by code_simp
  show "list_all (chain_ends 4 line_heap) [0..<length line_heap]" by code_simp
qed

lemma line_heap_refs: "refs_ok line_heap"
  unfolding refs_ok_def all_less_list_all by code_simp

lemma line_heap_ranked: "own_ranked line_heap line_rank"
  unfolding own_ranked_def all_less_list_all by code_simp

end
