(* ===== verification/Inherit.thy ===== *)
theory Inherit
  imports Axis Fixture
begin

text \<open>
  The option inheritance engine of \<open>src/src/core/core.config.js\<close>: options are
  made to inherit from defaults by relinking prototypes, never by copying.
  \<open>recursiveSetPrototype\<close> (lines 142--155) links an object to a parent and
  recurses into the nested plain objects both define; \<open>includeDefaults\<close>
  (lines 157--173) copies the user's options into a fresh object and links it to
  the type's defaults, which it first links to the global defaults.

  The recursion of \<open>recursiveSetPrototype\<close> follows the own-property graph of
  the child, which may contain a cycle; in JavaScript it then never returns (it
  exhausts the stack). It is a \<^theory_text>\<open>partial_function (option)\<close>: \<open>None\<close>
  is "does not return", \<open>Some (Inl e)\<close> an exception, \<open>Some (Inr h)\<close> the heap
  after it. The \<open>forEach\<close> over the keys is the \<open>RSP_keys\<close> mode of the same
  function, so that the loop and the recursion are one fixpoint.
\<close>

text \<open>\<open>v[k]\<close> on a value known not to be \<open>undefined\<close> or \<open>null\<close>.\<close>

definition prop_of :: "heap \<Rightarrow> val \<Rightarrow> string \<Rightarrow> val" where
  "prop_of h v k = (case v of Ref a \<Rightarrow> get_prop h a k | _ \<Rightarrow> Undef)"

text \<open>\<open>Object.keys(v)\<close> on a value that is not \<open>undefined\<close> or \<open>null\<close>.\<close>

definition keys_of :: "heap \<Rightarrow> val \<Rightarrow> string list" where
  "keys_of h v = (case v of Ref a \<Rightarrow> own_keys h a | _ \<Rightarrow> [])"

datatype rsp_call = RSP val val | RSP_keys val val "string list"

partial_function (option) rsp :: "rsp_call \<Rightarrow> heap \<Rightarrow> (js_error + heap) option" where
  "rsp c h =
     (case c of
        RSP child parent \<Rightarrow>
          (if \<not> truthy child \<or> \<not> truthy parent \<or> child = parent then Some (Inr h)
           else (case set_proto_of h child parent of
                   Inl e \<Rightarrow> Some (Inl e)
                 | Inr h1 \<Rightarrow> rsp (RSP_keys child parent (keys_of h1 child)) h1))
      | RSP_keys child parent [] \<Rightarrow> Some (Inr h)
      | RSP_keys child parent (k # ks) \<Rightarrow>
          (if take 1 k = ''_'' then rsp (RSP_keys child parent ks) h
           else if is_object h (prop_of h child k) \<and> is_object h (prop_of h parent k)
           then Option.bind (rsp (RSP (prop_of h child k) (prop_of h parent k)) h)
                  (\<lambda>r. case r of Inl e \<Rightarrow> Some (Inl e)
                              | Inr h2 \<Rightarrow> rsp (RSP_keys child parent ks) h2)
           else rsp (RSP_keys child parent ks) h))"

definition recursiveSetPrototype :: "heap \<Rightarrow> val \<Rightarrow> val \<Rightarrow> (js_error + heap) option" where
  "recursiveSetPrototype h child parent = rsp (RSP child parent) h"

text \<open>
  The first half of \<open>includeDefaults(options, type)\<close> (lines 158--168): \<open>dflt\<close>
  is the \<open>defaults\<close> registry. When the type has defaults, its dataset defaults
  (when they are an object) are linked to the registry, and the type's defaults to
  them or to the registry. Returns the parent for the options: the type's defaults,
  or the registry.
\<close>

definition includeTypeDefaults :: "heap \<Rightarrow> addr \<Rightarrow> val \<Rightarrow> (js_error + (val \<times> heap)) option" where
  "includeTypeDefaults h dflt type =
     (let typeDefaults = get_prop h dflt (to_str type)
      in if truthy typeDefaults then
           (let ds = prop_of h typeDefaults ''datasets''
            in rbind
                (if is_object h ds
                 then Some (case set_proto_of h ds (Ref dflt) of
                              Inl e \<Rightarrow> Inl e | Inr h1 \<Rightarrow> Inr (ds, h1))
                 else Some (Inr (Ref dflt, h)))
                (\<lambda>(parent, h1). rbind (recursiveSetPrototype h1 typeDefaults parent)
                                   (\<lambda>h2. Some (Inr (typeDefaults, h2)))))
         else Some (Inr (Ref dflt, h)))"

text \<open>
  \<open>includeDefaults(options, type)\<close> (lines 157--173): a shallow copy of the
  options (\<open>Object.assign(Object.create(null), options)\<close>) linked to the parent
  computed above. Returns the address of the copy.
\<close>

definition includeDefaults ::
  "heap \<Rightarrow> addr \<Rightarrow> val \<Rightarrow> val \<Rightarrow> (js_error + (addr \<times> heap)) option" where
  "includeDefaults h dflt options type =
     rbind (includeTypeDefaults h dflt type)
       (\<lambda>(parent, h3).
          let (n, h4) = alloc_obj h3 [];
              h5 = object_assign h4 n [options]
          in rbind (recursiveSetPrototype h5 (Ref n) parent) (\<lambda>h6. Some (Inr (n, h6))))"

text \<open>
  Proof devices for the frame of \<open>recursiveSetPrototype\<close>: which objects a call may
  relink under a rank of the own-property graph, and the calls whose key list is a
  list of own keys of the child, as every call the code makes is.
\<close>

fun may_touch :: "(addr \<Rightarrow> nat) \<Rightarrow> rsp_call \<Rightarrow> addr \<Rightarrow> bool" where
  "may_touch rk (RSP (Ref b) p) x = (x = b \<or> rk x < rk b)"
| "may_touch rk (RSP_keys (Ref a) p ks) x = (rk x < rk a)"
| "may_touch rk c x = False"

fun call_ok :: "heap \<Rightarrow> rsp_call \<Rightarrow> bool" where
  "call_ok h (RSP c p) = True"
| "call_ok h (RSP_keys c p ks) = (set ks \<subseteq> set (keys_of h c))"

declare rsp.simps [code]

subsection \<open>Unfolding the recursion\<close>

lemma rsp_RSP:
  "rsp (RSP child parent) h =
     (if \<not> truthy child \<or> \<not> truthy parent \<or> child = parent then Some (Inr h)
      else (case set_proto_of h child parent of
              Inl e \<Rightarrow> Some (Inl e)
            | Inr h1 \<Rightarrow> rsp (RSP_keys child parent (keys_of h1 child)) h1))"
  by (subst rsp.simps) simp

lemma rsp_keys_Nil: "rsp (RSP_keys child parent []) h = Some (Inr h)"
  by (subst rsp.simps) simp

lemma rsp_keys_Cons:
  "rsp (RSP_keys child parent (k # ks)) h =
     (if take 1 k = ''_'' then rsp (RSP_keys child parent ks) h
      else if is_object h (prop_of h child k) \<and> is_object h (prop_of h parent k)
      then rbind (rsp (RSP (prop_of h child k) (prop_of h parent k)) h)
             (\<lambda>h2. rsp (RSP_keys child parent ks) h2)
      else rsp (RSP_keys child parent ks) h)"
  by (subst rsp.simps) (simp add: rbind_def split: option.splits sum.splits)

lemmas rsp_unfold = rsp_RSP rsp_keys_Nil rsp_keys_Cons


subsection \<open>recursiveSetPrototype changes prototype links only\<close>

lemma rsp_keeps:
  assumes "rsp c h = Some r"
  shows "\<forall>h'. r = Inr h' \<longrightarrow> keeps h h'"
  apply (rule rsp.raw_induct [where P = "\<lambda>c h r. \<forall>h'. r = Inr h' \<longrightarrow> keeps h h'", OF _ assms])
  subgoal premises prems for f c h r
  proof (cases c)
    case (RSP child parent)
    show ?thesis
    proof (cases "\<not> truthy child \<or> \<not> truthy parent \<or> child = parent")
      case True with prems(2) RSP show ?thesis by auto
    next
      case False
      show ?thesis
      proof (cases "set_proto_of h child parent")
        case (Inl e) with prems(2) RSP False show ?thesis by auto
      next
        case (Inr h1)
        with prems(2) RSP False have "f (RSP_keys child parent (keys_of h1 child)) h1 = Some r" by simp
        with prems(1) set_proto_of_keeps [OF Inr] show ?thesis by (blast intro: keeps_trans)
      qed
    qed
  next
    case (RSP_keys child parent ks)
    show ?thesis
    proof (cases ks)
      case Nil with prems(2) RSP_keys show ?thesis by auto
    next
      case (Cons k ks')
      show ?thesis
      proof (cases "take 1 k = ''_'' \<or> \<not> (is_object h (prop_of h child k) \<and> is_object h (prop_of h parent k))")
        case True
        with prems(2) RSP_keys Cons have "f (RSP_keys child parent ks') h = Some r"
          by (auto split: if_splits)
        with prems(1) show ?thesis by blast
      next
        case False
        with prems(2) RSP_keys Cons obtain r1 where
          r1: "f (RSP (prop_of h child k) (prop_of h parent k)) h = Some r1" and
          rest: "(case r1 of Inl e \<Rightarrow> Some (Inl e) | Inr h2 \<Rightarrow> f (RSP_keys child parent ks') h2) = Some r"
          by (auto split: if_splits bind_splits)
        show ?thesis
        proof (cases r1)
          case (Inl e) with rest show ?thesis by auto
        next
          case (Inr h2)
          with rest have "f (RSP_keys child parent ks') h2 = Some r" by simp
          with prems(1) r1 Inr show ?thesis by (blast intro: keeps_trans)
        qed
      qed
    qed
  qed
  done


subsection \<open>recursiveSetPrototype returns on acyclic options\<close>

lemma rsp_keeps_Inr: "rsp c h = Some (Inr h') \<Longrightarrow> keeps h h'"
  using rsp_keeps by blast

lemma rsp_RSP_returns:
  assumes "\<And>h1. same_data h h1 \<Longrightarrow> rsp (RSP_keys child parent (keys_of h1 child)) h1 \<noteq> None"
  shows "rsp (RSP child parent) h \<noteq> None"
  using assms set_proto_of_same_data by (auto simp: rsp_RSP split: sum.splits)

lemma rsp_keys_returns:
  assumes rk: "own_ranked h rk" and a: "a < length h" and ks: "set ks \<subseteq> set (own_keys h a)"
    and IH: "\<And>b h' p. rk b < rk a \<Longrightarrow> own_ranked h' rk \<Longrightarrow> rsp (RSP (Ref b) p) h' \<noteq> None"
  shows "rsp (RSP_keys (Ref a) parent ks) h \<noteq> None"
  using rk a ks
proof (induction ks arbitrary: h)
  case Nil then show ?case by (simp add: rsp_keys_Nil)
next
  case (Cons k ks)
  from Cons.prems have ks': "set ks \<subseteq> set (own_keys h a)" by simp
  show ?case
  proof (cases "take 1 k = ''_'' \<or> \<not> (is_object h (prop_of h (Ref a) k) \<and> is_object h (prop_of h parent k))")
    case True
    with Cons.IH [OF Cons.prems(1,2) ks'] show ?thesis by (auto simp: rsp_keys_Cons)
  next
    case False
    from Cons.prems obtain v where v: "map_of (own (h ! a)) k = Some v" using own_key_value by fastforce
    with Cons.prems(2) have pv: "prop_of h (Ref a) k = v" by (simp add: prop_of_def get_prop_own)
    with False obtain b where b: "v = Ref b" by (auto simp: is_object_def split: val.splits)
    with v Cons.prems(1,2) have "rk b < rk a" by (auto dest: own_ranked_mapD)
    then have ret: "rsp (RSP (Ref b) (prop_of h parent k)) h \<noteq> None" using IH Cons.prems(1) by blast
    have rest: "rsp (RSP_keys (Ref a) parent ks) h2 \<noteq> None"
      if "rsp (RSP (Ref b) (prop_of h parent k)) h = Some (Inr h2)" for h2
    proof -
      from that have sd: "same_data h h2" using rsp_keeps_Inr by (simp add: keeps_def)
      then have "own_ranked h2 rk" "a < length h2" "set ks \<subseteq> set (own_keys h2 a)"
        using own_ranked_same_data [OF sd Cons.prems(1)] Cons.prems(2) ks'
        by (simp_all add: same_data_own_keys) (simp add: same_data_def)
      then show ?thesis by (rule Cons.IH)
    qed
    from False pv b ret rest show ?thesis
      by (auto simp: rsp_keys_Cons rbind_def split: option.splits sum.splits)
  qed
qed

theorem rsp_terminates:
  "own_ranked h rk \<Longrightarrow> rsp (RSP child parent) h \<noteq> None"
proof (induction "case child of Ref a \<Rightarrow> rk a | _ \<Rightarrow> 0" arbitrary: child parent h rule: less_induct)
  case less
  show ?case
  proof (rule rsp_RSP_returns)
    fix h1 assume sd: "same_data h h1"
    from sd less.prems have rk1: "own_ranked h1 rk" by (rule own_ranked_same_data)
    show "rsp (RSP_keys child parent (keys_of h1 child)) h1 \<noteq> None"
    proof (cases "\<exists>a. child = Ref a \<and> a < length h1")
      case True
      then obtain a where a: "child = Ref a" "a < length h1" by blast
      have "\<And>b h' p. rk b < rk a \<Longrightarrow> own_ranked h' rk \<Longrightarrow> rsp (RSP (Ref b) p) h' \<noteq> None"
        using less.hyps a(1) by fastforce
      from rsp_keys_returns [OF rk1 a(2) _ this] a(1) show ?thesis by (simp add: keys_of_def)
    next
      case False
      then have "keys_of h1 child = []"
        by (auto simp: keys_of_def own_keys_def split: val.splits)
      then show ?thesis by (simp add: rsp_keys_Nil)
    qed
  qed
qed

lemma recursiveSetPrototype_terminates_aux:
  "own_ranked h rk \<Longrightarrow> recursiveSetPrototype h child parent \<noteq> None"
  unfolding recursiveSetPrototype_def by (rule rsp_terminates)

subsection \<open>The frame of recursiveSetPrototype\<close>

lemma rsp_frame:
  assumes "rsp c h = Some r"
  shows "\<forall>h'. r = Inr h' \<longrightarrow> own_ranked h rk \<longrightarrow> call_ok h c \<longrightarrow>
           same_data h h' \<and> (\<forall>x. \<not> may_touch rk c x \<longrightarrow> next_proto h' x = next_proto h x)"
  apply (rule rsp.raw_induct [where P = "\<lambda>c h r. \<forall>h'. r = Inr h' \<longrightarrow> own_ranked h rk \<longrightarrow> call_ok h c \<longrightarrow>
           same_data h h' \<and> (\<forall>x. \<not> may_touch rk c x \<longrightarrow> next_proto h' x = next_proto h x)", OF _ assms])
  subgoal premises prems for f c h r
  proof (intro allI impI)
    fix h' assume r: "r = Inr h'" and rk: "own_ranked h rk" and ok: "call_ok h c"
    show "same_data h h' \<and> (\<forall>x. \<not> may_touch rk c x \<longrightarrow> next_proto h' x = next_proto h x)"
    proof (cases c)
      case (RSP child parent)
      show ?thesis
      proof (cases "\<not> truthy child \<or> \<not> truthy parent \<or> child = parent")
        case True with prems(2) RSP r show ?thesis by (auto simp: same_data_def)
      next
        case False
        then obtain h1 where h1: "set_proto_of h child parent = Inr h1"
          and rec: "f (RSP_keys child parent (keys_of h1 child)) h1 = Some r"
          using prems(2) RSP r by (auto split: sum.splits)
        have sd1: "same_data h h1" using h1 by (rule set_proto_of_same_data)
        from sd1 rk have rk1: "own_ranked h1 rk" by (rule own_ranked_same_data)
        from prems(1) [OF rec] r rk1 have ih: "same_data h1 h'"
          "\<forall>x. \<not> may_touch rk (RSP_keys child parent (keys_of h1 child)) x \<longrightarrow> next_proto h' x = next_proto h1 x"
          by auto
        have "next_proto h' x = next_proto h x" if nt: "\<not> may_touch rk (RSP child parent) x" for x
        proof -
          from nt have a: "\<not> may_touch rk (RSP_keys child parent (keys_of h1 child)) x"
            and b: "\<And>b. child = Ref b \<Longrightarrow> x \<noteq> b" by (cases child; auto)+
          from ih(2) a set_proto_of_other [OF h1 b] show ?thesis by simp
        qed
        with sd1 ih(1) RSP show ?thesis by (auto simp: same_data_def)
      qed
    next
      case (RSP_keys child parent ks)
      show ?thesis
      proof (cases ks)
        case Nil with prems(2) RSP_keys r show ?thesis by (auto simp: same_data_def)
      next
        case (Cons k ks')
        from ok RSP_keys Cons have kin: "k \<in> set (keys_of h child)" and ks': "set ks' \<subseteq> set (keys_of h child)"
          by auto
        then obtain a where a: "child = Ref a" "k \<in> set (own_keys h a)"
          by (auto simp: keys_of_def split: val.splits)
        then obtain v where v: "map_of (own (h ! a)) k = Some v" and al: "a < length h"
          using own_key_value by blast
        then have pv: "prop_of h child k = v" by (simp add: a(1) prop_of_def get_prop_own)
        show ?thesis
        proof (cases "take 1 k = ''_'' \<or> \<not> (is_object h (prop_of h child k) \<and> is_object h (prop_of h parent k))")
          case True
          with prems(2) RSP_keys Cons have "f (RSP_keys child parent ks') h = Some r"
            by (auto split: if_splits)
          from prems(1) [OF this] r rk ks' have "same_data h h'"
            "\<forall>x. \<not> may_touch rk (RSP_keys child parent ks') x \<longrightarrow> next_proto h' x = next_proto h x"
            by auto
          with RSP_keys a(1) show ?thesis by simp
        next
          case False
          with pv obtain b where b: "v = Ref b" by (auto simp: is_object_def split: val.splits)
          with v al rk have rb: "rk b < rk a" by (auto dest: own_ranked_mapD)
          from False prems(2) RSP_keys Cons obtain r1 where
            r1: "f (RSP (prop_of h child k) (prop_of h parent k)) h = Some r1" and
            rest: "(case r1 of Inl e \<Rightarrow> Some (Inl e) | Inr h2 \<Rightarrow> f (RSP_keys child parent ks') h2) = Some r"
            by (auto split: if_splits bind_splits)
          from rest r obtain h2 where r1': "r1 = Inr h2" and r2: "f (RSP_keys child parent ks') h2 = Some r"
            by (cases r1) auto
          from prems(1) [OF r1] r1' rk have ih1: "same_data h h2"
            "\<forall>x. \<not> may_touch rk (RSP (Ref b) (prop_of h parent k)) x \<longrightarrow> next_proto h2 x = next_proto h x"
            using pv b by auto
          from ih1(1) rk have rk2: "own_ranked h2 rk" by (rule own_ranked_same_data)
          from ih1(1) ks' have ok2: "set ks' \<subseteq> set (keys_of h2 child)"
            by (simp add: a(1) keys_of_def same_data_own_keys)
          from prems(1) [OF r2] r rk2 ok2 have ih2: "same_data h2 h'"
            "\<forall>x. \<not> may_touch rk (RSP_keys child parent ks') x \<longrightarrow> next_proto h' x = next_proto h2 x"
            by auto
          have "next_proto h' x = next_proto h x" if "\<not> rk x < rk a" for x
            using that rb ih1(2) ih2(2) a(1) by auto
          with ih1(1) ih2(1) RSP_keys a(1) show ?thesis by (auto simp: same_data_def)
        qed
      qed
    qed
  qed
  done


lemma includeTypeDefaults_keeps:
  assumes "includeTypeDefaults h dflt type = Some (Inr (par, h3))"
  shows "keeps h h3 \<and> (par = Ref dflt \<or> par = get_prop h dflt (to_str type) \<and> truthy par)"
  using assms
  by (auto simp: includeTypeDefaults_def Let_def recursiveSetPrototype_def rbind_eq_Inr
           split: if_splits sum.splits
           intro: keeps_trans set_proto_of_keeps rsp_keeps_Inr)


lemma own_ranked_fresh:
  assumes rk: "own_ranked h rk" and refs: "refs_ok h" and n: "n = length h"
    and len: "length h' = Suc n"
    and old: "\<And>a. a < n \<Longrightarrow> own (h' ! a) = own (h ! a)"
    and new: "\<And>k b. map_of (own (h' ! n)) k = Some (Ref b) \<Longrightarrow> b < n"
    and dn: "distinct (map fst (own (h' ! n)))"
  shows "own_ranked h' (rk(n := Suc (sum rk {..<n})))"
  unfolding own_ranked_def
proof (intro allI impI ballI)
  fix a kv
  assume a: "a < length h'" and kv: "kv \<in> set (own (h' ! a))"
  let ?rk = "rk(n := Suc (sum rk {..<n}))"
  show "case snd kv of Ref b \<Rightarrow> ?rk b < ?rk a | _ \<Rightarrow> True"
  proof (cases "snd kv")
    case (Ref b)
    show ?thesis
  proof (cases "a = n")
    case True
    with kv dn have "map_of (own (h' ! a)) (fst kv) = Some (snd kv)" by (simp add: map_of_is_SomeI)
    with True Ref new have b: "b < n" by simp
    then have "rk b \<le> sum rk {..<n}" by (intro member_le_sum) auto
    with True b Ref show ?thesis by simp
  next
    case False
    with a len have an: "a < n" by simp
    with kv old have kv': "kv \<in> set (own (h ! a))" by simp
    with refs an n Ref have "b < n" by (force simp: refs_ok_def)
    with kv' rk an n False Ref show ?thesis by (force simp: own_ranked_def)
  qed
  qed simp_all
qed

text \<open>
  The copy \<open>Object.assign(Object.create(null), options)\<close> of an options object
  \<open>u\<close>: a fresh object at the end of the heap with exactly the own properties of
  \<open>u\<close>, no prototype, the older objects unchanged, and a rank extending the old
  one to it.
\<close>

lemma options_copy:
  assumes refs: "refs_ok h" and rk: "own_ranked h rk" and sd3: "same_data h h3"
    and u: "u < length h"
    and h5: "h5 = object_assign (snd (alloc_obj h3 [])) (length h3) [Ref u]"
  shows "length h3 = length h \<and> length h5 = Suc (length h) \<and> (heap_ok h3 \<longrightarrow> heap_ok h5) \<and>
         (\<forall>a < length h. h5 ! a = h3 ! a) \<and> proto (h5 ! length h) = None \<and>
         (\<forall>k. map_of (own (h5 ! length h)) k = map_of (own (h ! u)) k) \<and>
         own_ranked h5 (rk(length h := Suc (sum rk {..<length h})))"
proof -
  let ?n = "length h"
  have len3: "length h3 = ?n" using sd3 by (simp add: same_data_def)
  define h4 where "h4 = h3 @ [\<lparr>okind = Plain, own = [], proto = None\<rparr>]"
  have h5': "h5 = assign_keys h4 ?n u (own_keys h4 u)"
    using h5 len3 by (simp add: alloc_obj_def assign_from_def h4_def)
  have l4: "length h4 = Suc ?n" and n4: "?n < length h4" and u4: "u < length h4" and nu: "?n \<noteq> u"
    using len3 u by (simp_all add: h4_def)
  have h4_old: "h4 ! a = h3 ! a" if "a < ?n" for a
    using that len3 by (simp add: h4_def nth_append)
  have h4n: "h4 ! ?n = \<lparr>okind = Plain, own = [], proto = None\<rparr>"
    using len3 by (simp add: h4_def nth_append)
  from assign_keys_props [OF n4 u4 nu order_refl] have
    p5: "length h5 = length h4" "\<And>x. x \<noteq> ?n \<Longrightarrow> h5 ! x = h4 ! x"
        "proto (h5 ! ?n) = proto (h4 ! ?n)"
        "\<And>k. map_of (own (h5 ! ?n)) k = (if k \<in> set (own_keys h4 u) then map_of (own (h4 ! u)) k
                                          else map_of (own (h4 ! ?n)) k)"
        "distinct (map fst (own (h4 ! ?n))) \<Longrightarrow> distinct (map fst (own (h5 ! ?n)))"
    unfolding h5' by auto
  have own_u: "own (h4 ! u) = own (h ! u)"
    using h4_old [of u] u same_data_own [OF sd3 u] by simp
  have m5: "map_of (own (h5 ! ?n)) k = map_of (own (h ! u)) k" for k
  proof (cases "k \<in> set (own_keys h4 u)")
    case True with p5(4) own_u show ?thesis by simp
  next
    case False
    then have "k \<notin> fst ` set (own (h ! u))" using u4 own_u by (simp add: own_keys_def)
    then have "map_of (own (h ! u)) k = None" by (simp add: map_of_eq_None_iff)
    with False p5(4) h4n show ?thesis by simp
  qed
  have ok5: "heap_ok h3 \<longrightarrow> heap_ok h5"
    using heap_ok_append [of h3] by (simp add: h5' h4_def heap_ok_assign_keys)
  have rk5: "own_ranked h5 (rk(?n := Suc (sum rk {..<?n})))"
  proof (rule own_ranked_fresh [OF rk refs refl])
    show "length h5 = Suc ?n" using p5(1) l4 by simp
    show "own (h5 ! a) = own (h ! a)" if "a < ?n" for a
      using that p5(2) [of a] h4_old same_data_own [OF sd3] by simp
    show "b < ?n" if "map_of (own (h5 ! ?n)) k = Some (Ref b)" for k b
      using that m5 refs u by (auto dest: refs_ok_mapD)
    show "distinct (map fst (own (h5 ! ?n)))" using p5(5) h4n by simp
  qed
  show ?thesis
    using len3 p5(1,2,3) l4 h4_old h4n m5 ok5 rk5 by simp
qed

lemma includeTypeDefaults_terminates:
  assumes rk: "own_ranked h rk"
  shows "includeTypeDefaults h dflt type \<noteq> None"
proof -
  let ?t = "get_prop h dflt (to_str type)"
  let ?ds = "prop_of h ?t ''datasets''"
  have ret: "rbind (recursiveSetPrototype h1 ?t p) (\<lambda>h2. Some (Inr (?t, h2))) \<noteq> None"
    if "same_data h h1" for p h1
  proof (rule rbind_not_None)
    show "recursiveSetPrototype h1 ?t p \<noteq> None"
      using own_ranked_same_data [OF that rk] by (rule recursiveSetPrototype_terminates_aux)
  qed simp
  have sd: "same_data h h" by (simp add: same_data_def)
  show ?thesis
  proof (cases "truthy ?t \<and> is_object h ?ds")
    case True
    show ?thesis
    proof (cases "set_proto_of h ?ds (Ref dflt)")
      case (Inl e) with True show ?thesis by (simp add: includeTypeDefaults_def)
    next
      case (Inr h1)
      with True ret [OF set_proto_of_same_data [OF Inr]] show ?thesis
        by (simp add: includeTypeDefaults_def Let_def)
    qed
  next
    case False
    then consider "\<not> truthy ?t" | "truthy ?t" "\<not> is_object h ?ds" by blast
    then show ?thesis
    proof cases
      case 1 then show ?thesis by (simp add: includeTypeDefaults_def)
    next
      case 2 with ret [OF sd, of "Ref dflt"] show ?thesis
        by (simp add: includeTypeDefaults_def Let_def del: not_None_eq)
    qed
  qed
qed

subsection \<open>Properties\<close>

text \<open>
  C1. The effective lookup of the options \<open>includeDefaults(options, type)\<close>
  returns (specification section 8): the new object is fresh, and for every key
  it answers the user's own value if the user's options define the key, and
  otherwise the lookup of the key on the parent, which is the type's defaults or
  the registry.
\<close>

theorem includeDefaults_lookup:
  assumes ok: "heap_ok h" and refs: "refs_ok h" and rk: "own_ranked h rk"
    and dflt: "dflt < length h" and u: "u < length h"
    and r: "includeDefaults h dflt (Ref u) type = Some (Inr (n, h'))"
  shows "n = length h \<and>
         (\<exists>p < length h. (p = dflt \<or> Ref p = get_prop h dflt (to_str type)) \<and>
            (\<forall>k. get_prop h' n k =
                   (case map_of (own (h ! u)) k of Some v \<Rightarrow> v | None \<Rightarrow> get_prop h' p k)))"
proof -
  from r obtain par h3 where t: "includeTypeDefaults h dflt type = Some (Inr (par, h3))"
    and r2: "rbind (recursiveSetPrototype (object_assign (snd (alloc_obj h3 [])) (length h3) [Ref u])
                  (Ref (length h3)) par) (\<lambda>h6. Some (Inr (length h3, h6))) = Some (Inr (n, h'))"
    by (auto simp: includeDefaults_def rbind_eq_Inr alloc_obj_def Let_def)
  from includeTypeDefaults_keeps [OF t] have k3: "keeps h h3"
    and par: "par = Ref dflt \<or> par = get_prop h dflt (to_str type) \<and> truthy par" by auto
  from k3 have sd3: "same_data h h3" and ok3: "heap_ok h3" using ok by (auto simp: keeps_def)
  define h5 where "h5 = object_assign (snd (alloc_obj h3 [])) (length h3) [Ref u]"
  let ?rk = "rk(length h := Suc (sum rk {..<length h}))"
  from options_copy [OF refs rk sd3 u h5_def] ok3 have len3: "length h3 = length h"
    and l5: "length h5 = Suc (length h)" and ok5: "heap_ok h5"
    and m5: "\<And>k. map_of (own (h5 ! length h)) k = map_of (own (h ! u)) k"
    and rk5: "own_ranked h5 ?rk" by auto
  have nl: "n = length h" and r3: "rsp (RSP (Ref n) par) h5 = Some (Inr h')"
    using r2 len3 by (auto simp: rbind_eq_Inr recursiveSetPrototype_def h5_def)
  have n4: "n < length h5" using nl l5 by simp
  have pt: "par = Ref dflt \<or> truthy par" using par by blast
  have refs_par: "\<exists>p. par = Ref p \<and> p < length h"
  proof (cases par)
    case (Ref b)
    with par dflt get_prop_refs_ok [OF refs, of dflt "to_str type" b] show ?thesis by auto
  next
    case Undef with pt show ?thesis by simp
  next
    case Null with pt show ?thesis by simp
  next
    case (Bool bb)
    with pt have "truthy par" by simp
    with r3 Bool show ?thesis by (simp add: rsp_RSP set_proto_of_def is_obj_ref_def)
  next
    case (Num i)
    with pt have "truthy par" by simp
    with r3 Num show ?thesis by (simp add: rsp_RSP set_proto_of_def is_obj_ref_def)
  next
    case (Str str)
    with pt have "truthy par" by simp
    with r3 Str show ?thesis by (simp add: rsp_RSP set_proto_of_def is_obj_ref_def)
  qed
  then obtain p where p: "par = Ref p" "p < length h" by blast
  with nl have pn: "p \<noteq> n" by simp
  from r3 p pn obtain h5' where s5: "set_proto_of h5 (Ref n) (Ref p) = Inr h5'"
    and r4: "rsp (RSP_keys (Ref n) (Ref p) (keys_of h5' (Ref n))) h5' = Some (Inr h')"
    by (auto simp: rsp_RSP split: sum.splits)
  have link: "next_proto h5' n = Some p"
    using set_proto_of_links [OF s5] n4 by simp
  have sd5: "same_data h5 h5'" using s5 by (rule set_proto_of_same_data)
  have rk5': "own_ranked h5' ?rk" using sd5 rk5 by (rule own_ranked_same_data)
  from rsp_frame [OF r4] rk5' have fr: "same_data h5' h'"
    "\<forall>x. \<not> may_touch ?rk (RSP_keys (Ref n) (Ref p) (keys_of h5' (Ref n))) x \<longrightarrow> next_proto h' x = next_proto h5' x"
    by auto
  have link': "next_proto h' n = Some p" using fr(2) link by auto
  have ok': "heap_ok h'"
    using ok5 heap_ok_set_proto_of [OF ok5 s5] rsp_keeps_Inr [OF r4] by (simp add: keeps_def)
  have own': "own (h' ! n) = own (h5 ! n)"
    using same_data_own [OF sd5] same_data_own [OF fr(1)] n4 sd5 by (simp add: same_data_def)
  have nh': "n < length h'" using fr(1) sd5 n4 by (simp add: same_data_def)
  have "get_prop h' n k = (case map_of (own (h ! u)) k of Some v \<Rightarrow> v | None \<Rightarrow> get_prop h' p k)" for k
    using get_prop_unfold [OF ok' nh', of k] link' nh' own' m5 nl
    by (simp add: next_proto_def split: option.split)
  with nl p par show ?thesis by auto
qed

theorem includeDefaults_lookup_witness:
  "heap_ok line_heap \<and> refs_ok line_heap \<and> own_ranked line_heap line_rank \<and>
   0 < length line_heap \<and> 16 < length line_heap \<and>
   (\<exists>h'. includeDefaults line_heap 0 (Ref 16) (Str ''line'') = Some (Inr (18, h')) \<and>
     18 = length line_heap \<and>
     (\<exists>p < length line_heap. (p = 0 \<or> Ref p = get_prop line_heap 0 (to_str (Str ''line''))) \<and>
        (\<forall>k. get_prop h' 18 k =
               (case map_of (own (line_heap ! 16)) k of Some v \<Rightarrow> v | None \<Rightarrow> get_prop h' p k))))"
proof -
  have l: "0 < length line_heap" "16 < length line_heap" by (simp_all add: line_heap_def)
  have "case includeDefaults line_heap 0 (Ref 16) (Str ''line'') of
          Some (Inr (n, h')) \<Rightarrow> n = 18 | _ \<Rightarrow> False"
    by code_simp
  then obtain h' where r: "includeDefaults line_heap 0 (Ref 16) (Str ''line'') = Some (Inr (18, h'))"
    by (auto split: option.splits sum.splits)
  show ?thesis
    using includeDefaults_lookup [OF line_heap_ok line_heap_refs line_heap_ranked l r]
      line_heap_ok line_heap_refs line_heap_ranked l r by blast
qed

text \<open>
  C2. \<open>includeDefaults\<close> returns on every heap whose own-property graph is
  acyclic and whose references are to allocated objects: the recursion of
  \<open>recursiveSetPrototype\<close> over the copy and over the type's defaults ends.
\<close>

theorem includeDefaults_terminates:
  assumes refs: "refs_ok h" and rk: "own_ranked h rk" and u: "u < length h"
  shows "includeDefaults h dflt (Ref u) type \<noteq> None"
proof -
  have rest: "rsp (RSP (Ref (length h3)) par) (object_assign (snd (alloc_obj h3 [])) (length h3) [Ref u]) \<noteq> None"
    if "includeTypeDefaults h dflt type = Some (Inr (par, h3))" for par h3
  proof -
    from includeTypeDefaults_keeps [OF that] have "same_data h h3" by (simp add: keeps_def)
    from options_copy [OF refs rk this u refl]
    have "own_ranked (object_assign (snd (alloc_obj h3 [])) (length h3) [Ref u])
            (rk(length h := Suc (sum rk {..<length h})))" by (elim conjE)
    then show ?thesis by (rule rsp_terminates)
  qed
  show ?thesis
    unfolding includeDefaults_def
  proof (rule rbind_not_None [OF includeTypeDefaults_terminates [OF rk]])
    fix x assume t: "includeTypeDefaults h dflt type = Some (Inr x)"
    obtain par h3 where x: "x = (par, h3)" by (cases x)
    show "(case x of (parent, h3) \<Rightarrow>
            let (n, h4) = alloc_obj h3 []; h5 = object_assign h4 n [Ref u]
            in rbind (recursiveSetPrototype h5 (Ref n) parent) (\<lambda>h6. Some (Inr (n, h6)))) \<noteq> None"
      using rest [of par h3] t x
      by (simp add: Let_def alloc_obj_def recursiveSetPrototype_def rbind_not_None del: not_None_eq)
  qed
qed

theorem includeDefaults_terminates_witness:
  "refs_ok line_heap \<and> own_ranked line_heap line_rank \<and> 16 < length line_heap \<and>
   includeDefaults line_heap 0 (Ref 16) (Str ''line'') \<noteq> None"
  using includeDefaults_terminates [OF line_heap_refs line_heap_ranked, of 16 0 "Str ''line''"]
    line_heap_refs line_heap_ranked by (simp add: line_heap_def)

text \<open>
  C9. \<open>recursiveSetPrototype(child, parent)\<close> returns whenever the own-property
  graph of the heap has a rank (it is acyclic): the recursion descends along own
  references of the child, which lower the rank.
\<close>

theorem recursiveSetPrototype_terminates:
  "own_ranked h rk \<Longrightarrow> recursiveSetPrototype h child parent \<noteq> None"
  unfolding recursiveSetPrototype_def by (rule rsp_terminates)

theorem recursiveSetPrototype_terminates_witness:
  "own_ranked line_heap line_rank \<and> recursiveSetPrototype line_heap (Ref 1) (Ref 0) \<noteq> None"
  using recursiveSetPrototype_terminates [OF line_heap_ranked] line_heap_ranked by simp

text \<open>
  C8. \<open>recursiveSetPrototype(child, parent)\<close> on two distinct objects, when it
  returns normally, links the child to the parent, changes no own property or
  kind of any object, and relinks no object other than the child that is not
  below the child in the own-property graph (the nested objects it recurses into).
\<close>

theorem recursiveSetPrototype_links:
  assumes rk: "own_ranked h rk" and r: "recursiveSetPrototype h (Ref c) (Ref p) = Some (Inr h')"
    and cp: "c \<noteq> p" and c: "c < length h"
  shows "next_proto h' c = Some p \<and> same_data h h' \<and>
         (\<forall>x. x \<noteq> c \<and> \<not> rk x < rk c \<longrightarrow> next_proto h' x = next_proto h x)"
proof -
  have r': "rsp (RSP (Ref c) (Ref p)) h = Some (Inr h')" using r by (simp add: recursiveSetPrototype_def)
  from rsp_frame [OF r'] rk have frame: "same_data h h'"
    "\<forall>x. x \<noteq> c \<and> \<not> rk x < rk c \<longrightarrow> next_proto h' x = next_proto h x" by auto
  from r' cp obtain h1 where h1: "set_proto_of h (Ref c) (Ref p) = Inr h1"
    and rec: "rsp (RSP_keys (Ref c) (Ref p) (keys_of h1 (Ref c))) h1 = Some (Inr h')"
    by (auto simp: rsp_RSP split: sum.splits)
  have rk1: "own_ranked h1 rk" using set_proto_of_same_data [OF h1] rk by (rule own_ranked_same_data)
  from rsp_frame [OF rec] rk1 have "next_proto h' c = next_proto h1 c" by auto
  with set_proto_of_links [OF h1 c] frame show ?thesis by simp
qed

theorem recursiveSetPrototype_links_witness:
  "\<exists>h'. recursiveSetPrototype line_heap (Ref 1) (Ref 0) = Some (Inr h') \<and> own_ranked line_heap line_rank \<and>
        (1::nat) \<noteq> 0 \<and> 1 < length line_heap \<and>
        next_proto h' 1 = Some 0 \<and> same_data line_heap h' \<and>
        (\<forall>x. x \<noteq> 1 \<and> \<not> line_rank x < line_rank 1 \<longrightarrow> next_proto h' x = next_proto line_heap x)"
proof -
  have "case recursiveSetPrototype line_heap (Ref 1) (Ref 0) of Some (Inr h') \<Rightarrow> True | _ \<Rightarrow> False"
    by code_simp
  then obtain h' where r: "recursiveSetPrototype line_heap (Ref 1) (Ref 0) = Some (Inr h')"
    by (auto split: option.splits sum.splits)
  have l: "(1::nat) < length line_heap" by (simp add: line_heap_def)
  from recursiveSetPrototype_links [OF line_heap_ranked r _ l] r line_heap_ranked l show ?thesis by auto
qed

end
