(* ===== verification/Scales.thy ===== *)
theory Scales
  imports Inherit
begin

text \<open>
  The scale part of the option inheritance engine, \<open>src/src/core/core.config.js\<close>
  lines 43--140: \<open>directPropertyOrDefault\<close>, \<open>recursiveChildObjects\<close> (the
  nested objects along an object's prototype chain, by key) and
  \<open>recursiveSetChildPrototypes\<close> (give an object, level by level, own nested
  objects that inherit from those of its chain). The JavaScript \<open>Map\<close> of
  \<open>recursiveChildObjects\<close> is an association list in insertion order.

  The \<open>while (obj)\<close> walk up the prototype chain runs on fuel \<open>length h\<close>,
  enough on a well-formed heap (\<open>chain_ends_length\<close>); \<open>None\<close> is the fuel
  running out. The built-in prototypes of primitives are not in the heap: they have
  no enumerable own properties, so a walk from a primitive finds nothing, which is
  what the model returns. \<open>recursiveSetChildPrototypes\<close> recurses into nested
  objects it may have just created, so it is a \<^theory_text>\<open>partial_function (option)\<close>
  like \<open>recursiveSetPrototype\<close>, its \<open>forEach\<close> loop a second call mode.
\<close>

text \<open>
  \<open>directPropertyOrDefault(obj, prop, def)\<close>: \<open>hasOwnProperty.call\<close> converts
  \<open>obj\<close> to an object, which throws for \<open>undefined\<close> and \<open>null\<close>; a primitive
  has no own property among the option keys.
\<close>

definition directPropertyOrDefault :: "heap \<Rightarrow> val \<Rightarrow> string \<Rightarrow> val \<Rightarrow> js_error + val" where
  "directPropertyOrDefault h obj prop def =
     (case obj of
        Undef \<Rightarrow> Inl (TypeError ''Cannot convert undefined or null to object'')
      | Null \<Rightarrow> Inl (TypeError ''Cannot convert undefined or null to object'')
      | Ref a \<Rightarrow> Inr (if has_own h a prop then get_prop h a prop else def)
      | _ \<Rightarrow> Inr def)"

type_synonym child_map = "(string \<times> val list) list"

text \<open>\<open>props.has(key) ? props.get(key).push(v) : props.set(key, [v])\<close>.\<close>

definition map_push :: "child_map \<Rightarrow> string \<Rightarrow> val \<Rightarrow> child_map" where
  "map_push props key v =
     AList.update key ((case map_of props key of Some vs \<Rightarrow> vs | None \<Rightarrow> []) @ [v]) props"

text \<open>The inner \<open>for\<close> loop of \<open>recursiveChildObjects\<close>, over the own keys of one object.\<close>

fun rco_keys :: "heap \<Rightarrow> addr \<Rightarrow> string list \<Rightarrow> child_map \<Rightarrow> child_map" where
  "rco_keys h obj [] props = props"
| "rco_keys h obj (key # keys) props =
     (let v = get_prop h obj key
      in rco_keys h obj keys (if is_object h v then map_push props key v else props))"

text \<open>The \<open>while (obj)\<close> loop, on fuel.\<close>

fun rco_walk :: "nat \<Rightarrow> heap \<Rightarrow> addr option \<Rightarrow> child_map \<Rightarrow> child_map option" where
  "rco_walk n h None props = Some props"
| "rco_walk 0 h (Some a) props = None"
| "rco_walk (Suc n) h (Some a) props = rco_walk n h (next_proto h a) (rco_keys h a (own_keys h a) props)"

definition recursiveChildObjects :: "heap \<Rightarrow> val \<Rightarrow> (js_error + child_map) option" where
  "recursiveChildObjects h target =
     (case target of
        Undef \<Rightarrow> Some (Inl (TypeError ''Cannot convert undefined or null to object''))
      | Null \<Rightarrow> Some (Inl (TypeError ''Cannot convert undefined or null to object''))
      | Ref a \<Rightarrow> map_option Inr (rco_walk (length h) h (next_proto h a) [])
      | _ \<Rightarrow> Some (Inr []))"

text \<open>\<open>chain.forEach(parent => { Object.setPrototypeOf(child, parent); child = parent; })\<close>.\<close>

fun link_chain :: "heap \<Rightarrow> val \<Rightarrow> val list \<Rightarrow> js_error + heap" where
  "link_chain h child [] = Inr h"
| "link_chain h child (parent # ps) = sbind (set_proto_of h child parent) (\<lambda>h'. link_chain h' parent ps)"

datatype rscp_call = RSCP val | RSCP_entries val child_map

text \<open>
  \<open>recursiveSetChildPrototypes(target)\<close> and its \<open>map.forEach\<close>. For each key:
  the default argument \<open>Object.create(null)\<close> is allocated (arguments are
  evaluated before the call), the own value or that object is the child, stored
  when it is not the current value, linked along the chain, and the recursion
  descends into \<open>target[key]\<close>.
\<close>

partial_function (option) rscp :: "rscp_call \<Rightarrow> heap \<Rightarrow> (js_error + heap) option" where
  "rscp c h =
     (case c of
        RSCP target \<Rightarrow>
          Option.bind (recursiveChildObjects h target)
            (\<lambda>r. case r of Inl e \<Rightarrow> Some (Inl e) | Inr m \<Rightarrow> rscp (RSCP_entries target m) h)
      | RSCP_entries target [] \<Rightarrow> Some (Inr h)
      | RSCP_entries target ((key, chain) # rest) \<Rightarrow>
          (let (n, h1) = alloc_obj h []
           in case sbind (directPropertyOrDefault h1 target key (Ref n)) (\<lambda>child.
                     sbind (get_v h1 target key) (\<lambda>cur.
                       sbind (if cur \<noteq> child then put_v h1 target key child else Inr h1) (\<lambda>h2.
                         sbind (link_chain h2 child chain) (\<lambda>h3.
                           sbind (get_v h3 target key) (\<lambda>t'. Inr (t', h3)))))) of
                Inl e \<Rightarrow> Some (Inl e)
              | Inr (t', h3) \<Rightarrow>
                  Option.bind (rscp (RSCP t') h3)
                    (\<lambda>r. case r of Inl e \<Rightarrow> Some (Inl e) | Inr h4 \<Rightarrow> rscp (RSCP_entries target rest) h4)))"

definition recursiveSetChildPrototypes :: "heap \<Rightarrow> val \<Rightarrow> (js_error + heap) option" where
  "recursiveSetChildPrototypes h target = rscp (RSCP target) h"

declare rscp.simps [code]

subsection \<open>includeScaleDefaults\<close>

text \<open>
  \<open>Object.keys(v)\<close>, which throws for \<open>undefined\<close> and \<open>null\<close>; a string
  primitive has its index keys, booleans and numbers none.
\<close>

definition keys_v :: "heap \<Rightarrow> val \<Rightarrow> js_error + string list" where
  "keys_v h v =
     (case v of
        Undef \<Rightarrow> Inl (TypeError ''Cannot convert undefined or null to object'')
      | Null \<Rightarrow> Inl (TypeError ''Cannot convert undefined or null to object'')
      | Ref a \<Rightarrow> Inr (own_keys h a)
      | Str s \<Rightarrow> Inr (str_keys s)
      | _ \<Rightarrow> Inr [])"

text \<open>The elements of an array \<open>v\<close> on which \<open>v.forEach\<close> is called.\<close>

definition get_array :: "heap \<Rightarrow> val \<Rightarrow> js_error + val list" where
  "get_array h v =
     (case v of
        Undef \<Rightarrow> Inl (TypeError ''Cannot read properties of undefined'')
      | Null \<Rightarrow> Inl (TypeError ''Cannot read properties of null'')
      | Ref a \<Rightarrow> (if a < length h then (case okind (h ! a) of Array vs \<Rightarrow> Inr vs
                                      | Plain \<Rightarrow> Inl (TypeError ''forEach is not a function''))
                  else Inl (TypeError ''forEach is not a function''))
      | _ \<Rightarrow> Inl (TypeError ''forEach is not a function''))"

text \<open>\<open>v || <fresh object>\<close>: the value when truthy, else a new object from \<open>alloc\<close>.\<close>

definition or_alloc :: "heap \<Rightarrow> val \<Rightarrow> (heap \<Rightarrow> addr \<times> heap) \<Rightarrow> val \<times> heap" where
  "or_alloc h v alloc = (if truthy v then (v, h) else (let (a, h') = alloc h in (Ref a, h')))"

text \<open>
  The object \<open>Object.assign\<close> writes to (ToObject of its target): the object
  itself, or a fresh wrapper for a primitive.
\<close>

definition to_object :: "heap \<Rightarrow> val \<Rightarrow> addr \<times> heap" where
  "to_object h v = (case v of Ref a \<Rightarrow> (a, h) | _ \<Rightarrow> alloc_obj h [])"

text \<open>
  The body of the first loop (lines 56--71), for the scale \<open>id\<close> of the
  configuration's \<open>scales\<close>: its axis, the scale it inherits from when the
  placeholder of its axis is configured, its \<open>_parent\<close>, the first id of its
  axis (\<open>firstIDs\<close> at \<open>fi\<close>) and its entry in \<open>scales\<close> (at \<open>sc\<close>).
\<close>

definition first_scale_step :: "heap \<Rightarrow> addr \<Rightarrow> addr \<Rightarrow> val \<Rightarrow> val \<Rightarrow> string \<Rightarrow> js_error + heap" where
  "first_scale_step h fi sc configScales chartIndexAxis sid =
     (if sid = ''_index_'' \<or> sid = ''_value_'' then Inr h
      else sbind (get_v h configScales sid) (\<lambda>scaleConf.
           sbind (determineAxis h sid scaleConf) (\<lambda>axis.
             let defaultId = getDefaultScaleIDFromAxis axis chartIndexAxis
             in sbind (get_v h configScales defaultId) (\<lambda>dc.
                sbind (if is_object h dc then sbind (set_proto_of h scaleConf dc) (\<lambda>h1. Inr (dc, h1))
                       else Inr (scaleConf, h)) (\<lambda>(parent, h1).
                sbind (put_v h1 scaleConf ''_parent'' parent) (\<lambda>h2.
                  let h3 = put_prop h2 fi (to_str axis) (js_or (get_prop h2 fi (to_str axis)) (Str sid))
                  in Inr (put_prop h3 sc sid scaleConf)))))))"

fun first_scales :: "heap \<Rightarrow> addr \<Rightarrow> addr \<Rightarrow> val \<Rightarrow> val \<Rightarrow> string list \<Rightarrow> js_error + heap" where
  "first_scales h fi sc configScales chartIndexAxis [] = Inr h"
| "first_scales h fi sc configScales chartIndexAxis (sid # ids) =
     sbind (first_scale_step h fi sc configScales chartIndexAxis sid)
       (\<lambda>h'. first_scales h' fi sc configScales chartIndexAxis ids)"

text \<open>
  The body of the inner loop of the second loop (lines 79--88), for the
  placeholder \<open>defaultID\<close> of the dataset's type defaults: the concrete scale id,
  the scale object made or extended with \<open>Object.assign\<close>, and the link of the
  scale (or its \<open>_parent\<close>) to the placeholder's defaults. An
  \<open>Object.assign\<close> target that is a primitive is converted to a fresh wrapper
  object, which is what the scale then is.
\<close>

definition dataset_scale_step ::
  "heap \<Rightarrow> addr \<Rightarrow> addr \<Rightarrow> val \<Rightarrow> val \<Rightarrow> val \<Rightarrow> val \<Rightarrow> string \<Rightarrow> (js_error + heap) option" where
  "dataset_scale_step h fi sc configScales dataset indexAxis defaultScaleOptions defaultID =
     (let axis = getAxisFromDefaultScaleID defaultID indexAxis
      in rbind (Some (get_v h dataset (to_str axis @ ''AxisID''))) (\<lambda>did.
         let sid = js_or (js_or did (get_prop h fi (to_str axis))) axis;
             k = to_str sid;
             cur = get_prop h sc k;
             (target0, h0) = or_alloc h cur (\<lambda>h. alloc_obj h []);
             (t, h1) = to_object h0 target0;
             (lit, h2) = alloc_obj h1 [(''axis'', axis)]
         in rbind (Some (get_v h2 configScales k)) (\<lambda>src.
            let h3 = object_assign h2 t [Ref lit, src];
                h4 = put_prop h3 sc k (Ref t)
            in rbind (Some (get_v h4 defaultScaleOptions defaultID)) (\<lambda>dso.
               if is_object h4 dso \<and> dso \<noteq> get_prop h4 t ''_parent''
               then rbind (recursiveSetPrototype h4 (js_or (get_prop h4 t ''_parent'') (Ref t)) dso)
                      (\<lambda>h5. Some (Inr (put_prop h5 t ''_parent'' dso)))
               else Some (Inr h4)))))"

fun dataset_scales ::
  "heap \<Rightarrow> addr \<Rightarrow> addr \<Rightarrow> val \<Rightarrow> val \<Rightarrow> val \<Rightarrow> val \<Rightarrow> string list \<Rightarrow> (js_error + heap) option" where
  "dataset_scales h fi sc configScales dataset indexAxis dso [] = Some (Inr h)"
| "dataset_scales h fi sc configScales dataset indexAxis dso (d # ds) =
     rbind (dataset_scale_step h fi sc configScales dataset indexAxis dso d)
       (\<lambda>h'. dataset_scales h' fi sc configScales dataset indexAxis dso ds)"

text \<open>
  The body of the second loop (lines 74--89), for one dataset: its type and
  index axis, its type's default scales (\<open>{}\<close> literals are allocated where the
  code evaluates them), and the inner loop over them.
\<close>

definition dataset_step ::
  "heap \<Rightarrow> addr \<Rightarrow> addr \<Rightarrow> addr \<Rightarrow> addr \<Rightarrow> val \<Rightarrow> val \<Rightarrow> val \<Rightarrow> (js_error + heap) option" where
  "dataset_step h dflt config fi sc configScales optionsWithDefaults dataset =
     rbind (Some (get_v h dataset ''type'')) (\<lambda>dtype.
       let type = js_or dtype (get_prop h config ''type'')
       in rbind (Some (get_v h dataset ''indexAxis'')) (\<lambda>dia.
          rbind (Some (if truthy dia then Inr dia else getIndexAxis h dflt type optionsWithDefaults)) (\<lambda>indexAxis.
            let td = get_prop h dflt (to_str type);
                (datasetDefaults, h1) = or_alloc h td (\<lambda>h. alloc_obj h []);
                (e2, h2) = alloc_obj h1 []
            in rbind (Some (directPropertyOrDefault h2 datasetDefaults ''scales'' (Ref e2))) (\<lambda>dso.
               rbind (Some (keys_v h2 dso)) (\<lambda>ids.
                 dataset_scales h2 fi sc configScales dataset indexAxis dso ids)))))"

fun datasets_loop ::
  "heap \<Rightarrow> addr \<Rightarrow> addr \<Rightarrow> addr \<Rightarrow> addr \<Rightarrow> val \<Rightarrow> val \<Rightarrow> val list \<Rightarrow> (js_error + heap) option" where
  "datasets_loop h dflt config fi sc configScales opts [] = Some (Inr h)"
| "datasets_loop h dflt config fi sc configScales opts (d # ds) =
     rbind (dataset_step h dflt config fi sc configScales opts d)
       (\<lambda>h'. datasets_loop h' dflt config fi sc configScales opts ds)"

text \<open>
  The body of the third loop (lines 92--101), for the scale under \<open>key\<close>: the
  \<open>_parent\<close> bookkeeping is removed, a scale with a known \<open>type\<close> inherits from
  the scale-type defaults (themselves linked to \<open>defaults.scale\<close>), and its
  nested objects are given their inherited counterparts. Every read of
  \<open>defaults.scales[scale.type]\<close> is made where the code makes it.
\<close>

definition scale_type_defaults :: "heap \<Rightarrow> addr \<Rightarrow> val \<Rightarrow> js_error + val" where
  "scale_type_defaults h dflt scale =
     sbind (get_v h scale ''type'') (\<lambda>ty. get_v h (get_prop h dflt ''scales'') (to_str ty))"

definition finalize_step :: "heap \<Rightarrow> addr \<Rightarrow> addr \<Rightarrow> string \<Rightarrow> (js_error + heap) option" where
  "finalize_step h dflt sc key =
     (let scale = get_prop h sc key
      in rbind (Some (get_v h scale ''_parent'')) (\<lambda>p.
         let target = js_or p scale;
             h1 = (case scale of Ref a \<Rightarrow> delete_prop h a ''_parent'' | _ \<Rightarrow> h)
         in rbind (Some (sbind (get_v h1 scale ''type'') (\<lambda>ty.
                           if truthy ty then sbind (scale_type_defaults h1 dflt scale) (\<lambda>d. Inr (truthy d))
                           else Inr False))) (\<lambda>known.
            rbind (if known
                   then rbind (Some (scale_type_defaults h1 dflt scale)) (\<lambda>d1.
                          rbind (recursiveSetPrototype h1 d1 (get_prop h1 dflt ''scale'')) (\<lambda>h2.
                            rbind (Some (scale_type_defaults h2 dflt scale)) (\<lambda>d2.
                              recursiveSetPrototype h2 target d2)))
                   else Some (Inr h1))
              (\<lambda>h3. recursiveSetChildPrototypes h3 scale))))"

fun finalize_loop :: "heap \<Rightarrow> addr \<Rightarrow> addr \<Rightarrow> string list \<Rightarrow> (js_error + heap) option" where
  "finalize_loop h dflt sc [] = Some (Inr h)"
| "finalize_loop h dflt sc (k # ks) = rbind (finalize_step h dflt sc k) (\<lambda>h'. finalize_loop h' dflt sc ks)"

text \<open>
  \<open>includeScaleDefaults(config)\<close> (lines 48--105), for the configuration object
  at \<open>config\<close> and the registry at \<open>dflt\<close>: returns the address of the
  \<open>scales\<close> object it builds.
\<close>

definition includeScaleDefaults :: "heap \<Rightarrow> addr \<Rightarrow> addr \<Rightarrow> (js_error + (addr \<times> heap)) option" where
  "includeScaleDefaults h dflt config =
     rbind (Some (get_v h (Ref config) ''options'')) (\<lambda>optionsWithDefaults.
       let (e0, h0) = alloc_obj h []
       in rbind (Some (directPropertyOrDefault h0 optionsWithDefaults ''scales'' (Ref e0))) (\<lambda>configScales.
          rbind (Some (getIndexAxis h0 dflt (get_prop h0 config ''type'') optionsWithDefaults)) (\<lambda>chartIndexAxis.
            let (fi, h1) = alloc_obj h0 [];
                (sc, h2) = alloc_obj h1 []
            in rbind (Some (sbind (keys_v h2 configScales) (\<lambda>ids.
                               first_scales h2 fi sc configScales chartIndexAxis ids))) (\<lambda>h3.
               rbind (Some (sbind (get_v h3 (Ref config) ''data'') (\<lambda>d.
                              sbind (get_v h3 d ''datasets'') (\<lambda>ds. get_array h3 ds)))) (\<lambda>datasets.
                 rbind (datasets_loop h3 dflt config fi sc configScales optionsWithDefaults datasets) (\<lambda>h4.
                   rbind (finalize_loop h4 dflt sc (own_keys h4 sc)) (\<lambda>h5. Some (Inr (sc, h5)))))))))"

subsection \<open>The abstract specification of \<open>recursiveChildObjects\<close>\<close>

text \<open>
  What the \<open>Map\<close> of \<open>recursiveChildObjects(target)\<close> promises, stated without
  it: for each key, the objects nested under that key in the objects of the
  prototype chain of \<open>target\<close>, nearest first (\<open>proto_chain\<close> lists the chain,
  on the same fuel as the walk). \<open>cm_get\<close> reads the \<open>Map\<close> the way its
  caller does (\<open>props.get(key)\<close>, no entry an empty chain), and
  \<open>child_map_ok\<close> is the type of the \<open>Map\<close>: each key once, each chain a
  non-empty list of objects.
\<close>

definition cm_get :: "child_map \<Rightarrow> string \<Rightarrow> val list" where
  "cm_get m k = (case map_of m k of Some vs \<Rightarrow> vs | None \<Rightarrow> [])"

fun proto_chain :: "nat \<Rightarrow> heap \<Rightarrow> addr option \<Rightarrow> addr list" where
  "proto_chain n h None = []"
| "proto_chain 0 h (Some a) = []"
| "proto_chain (Suc n) h (Some a) = a # proto_chain n h (next_proto h a)"

definition nested_objs :: "heap \<Rightarrow> addr \<Rightarrow> string \<Rightarrow> val list" where
  "nested_objs h b k = filter (is_object h) (map (get_prop h b) (filter ((=) k) (own_keys h b)))"

definition child_chain :: "heap \<Rightarrow> addr \<Rightarrow> string \<Rightarrow> val list" where
  "child_chain h a k = concat (map (\<lambda>b. nested_objs h b k) (proto_chain (length h) h (next_proto h a)))"

definition child_map_ok :: "heap \<Rightarrow> child_map \<Rightarrow> bool" where
  "child_map_ok h m \<longleftrightarrow> distinct (map fst m) \<and> (\<forall>(k, vs) \<in> set m. vs \<noteq> [] \<and> list_all (is_object h) vs)"

subsection \<open>Lemmas\<close>


lemma rco_walk_ends: "chain_ends n h p \<Longrightarrow> rco_walk n h (Some p) props \<noteq> None"
proof (induction n arbitrary: p props)
  case 0 then show ?case by simp
next
  case (Suc n)
  show ?case
  proof (cases "next_proto h p")
    case None then show ?thesis by simp
  next
    case (Some q)
    with Suc.prems have "chain_ends n h q" by simp
    with Suc.IH Some show ?thesis by simp
  qed
qed

lemma cm_get_map_push: "cm_get (map_push props key v) k = cm_get props k @ (if k = key then [v] else [])"
  by (simp add: cm_get_def map_push_def update_conv' split: option.split)

lemma rco_keys_get:
  "cm_get (rco_keys h obj keys props) k =
   cm_get props k @ filter (is_object h) (map (get_prop h obj) (filter ((=) k) keys))"
  by (induction keys arbitrary: props) (auto simp: Let_def cm_get_map_push)

lemma rco_walk_get:
  "rco_walk n h p props = Some m \<Longrightarrow>
   cm_get m k = cm_get props k @ concat (map (\<lambda>b. nested_objs h b k) (proto_chain n h p))"
  by (induction n h p props rule: rco_walk.induct) (simp_all add: rco_keys_get nested_objs_def)

lemma child_map_ok_push:
  "child_map_ok h props \<Longrightarrow> is_object h v \<Longrightarrow> child_map_ok h (map_push props key v)"
  unfolding child_map_ok_def map_push_def
  by (auto simp: distinct_update dest!: set_update_subset [THEN subsetD] split: option.splits
           dest: map_of_SomeD)

lemma rco_keys_ok: "child_map_ok h props \<Longrightarrow> child_map_ok h (rco_keys h obj keys props)"
  by (induction keys arbitrary: props) (simp_all add: Let_def child_map_ok_push)

lemma rco_walk_ok: "rco_walk n h p props = Some m \<Longrightarrow> child_map_ok h props \<Longrightarrow> child_map_ok h m"
  by (induction n h p props rule: rco_walk.induct) (simp_all add: rco_keys_ok)

lemma own_value_alloc:
  assumes "has_own h a k"
  shows "has_own (snd (alloc_obj h ps)) a k \<and> get_prop (snd (alloc_obj h ps)) a k = get_prop h a k"
proof -
  from assms obtain v where a: "a < length h" and v: "map_of (own (h ! a)) k = Some v"
    by (auto simp: has_own_def)
  have "(snd (alloc_obj h ps)) ! a = h ! a" using a by (simp add: alloc_obj_def nth_append)
  with a v show ?thesis
    by (auto simp: has_own_def alloc_obj_def intro!: get_prop_own [of _ "snd (alloc_obj h ps)", simplified alloc_obj_def, simplified] get_prop_own [symmetric])
qed

subsection \<open>Properties\<close>

text \<open>
  C14. \<open>recursiveChildObjects\<close> implements its abstract specification: the
  \<open>Map\<close> it builds with \<open>props.get(key).push\<close> and \<open>props.set\<close> gives, for
  every key, exactly the objects nested under that key along the prototype
  chain of the target, nearest first.
\<close>

theorem recursiveChildObjects_refines:
  "recursiveChildObjects h (Ref a) = Some (Inr m) \<Longrightarrow> cm_get m k = child_chain h a k"
  by (auto simp: recursiveChildObjects_def child_chain_def cm_get_def [of "[]"] dest: rco_walk_get)

theorem recursiveChildObjects_refines_witness:
  "recursiveChildObjects null_heap (Ref 0) = Some (Inr [(''ticks'', [Ref 2])]) \<and>
   cm_get [(''ticks'', [Ref 2])] ''ticks'' = child_chain null_heap 0 ''ticks''"
proof -
  have r: "recursiveChildObjects null_heap (Ref 0) = Some (Inr [(''ticks'', [Ref 2])])" by code_simp
  show ?thesis using recursiveChildObjects_refines [OF r] r by blast
qed

text \<open>
  C26. The \<open>Map\<close> \<open>recursiveChildObjects\<close> returns is well typed: each key
  occurs once, and each holds a non-empty chain of objects, which is what
  \<open>recursiveSetChildPrototypes\<close> relies on when it links them.
\<close>

theorem recursiveChildObjects_map_type:
  "recursiveChildObjects h v = Some (Inr m) \<Longrightarrow> child_map_ok h m"
proof -
  have "child_map_ok h []" by (simp add: child_map_ok_def)
  then show "recursiveChildObjects h v = Some (Inr m) \<Longrightarrow> child_map_ok h m"
    by (auto simp: recursiveChildObjects_def split: val.splits dest: rco_walk_ok)
qed

theorem recursiveChildObjects_map_type_witness:
  "recursiveChildObjects null_heap (Ref 0) = Some (Inr [(''ticks'', [Ref 2])]) \<and>
   child_map_ok null_heap [(''ticks'', [Ref 2])]"
proof -
  have r: "recursiveChildObjects null_heap (Ref 0) = Some (Inr [(''ticks'', [Ref 2])])" by code_simp
  show ?thesis using recursiveChildObjects_map_type [OF r] r by blast
qed

text \<open>
  C31. The walk of \<open>recursiveChildObjects\<close> up the prototype chain returns on
  every well-formed heap: the fuel \<open>length h\<close> is never exhausted.
\<close>

theorem recursiveChildObjects_terminates:
  "heap_ok h \<Longrightarrow> recursiveChildObjects h v \<noteq> None"
proof (cases v)
  case (Ref a)
  assume ok: "heap_ok h"
  show ?thesis
  proof (cases "next_proto h a")
    case None with Ref show ?thesis by (simp add: recursiveChildObjects_def)
  next
    case (Some p)
    from ok have "protos_ok h" by (simp add: heap_ok_def)
    with Some have "p < length h" by (simp add: protos_ok_next)
    with ok have "chain_ends (length h) h p" by (simp add: heap_ok_def)
    from rco_walk_ends [OF this] Ref Some show ?thesis by (simp add: recursiveChildObjects_def)
  qed
qed (simp_all add: recursiveChildObjects_def)

theorem recursiveChildObjects_terminates_witness:
  "heap_ok line_heap \<and> recursiveChildObjects line_heap (Ref 9) \<noteq> None"
  using recursiveChildObjects_terminates [OF line_heap_ok] line_heap_ok by blast

text \<open>
  C32. \<open>recursiveSetChildPrototypes\<close> throws a \<open>TypeError\<close> when the first
  key of the target's inherited nested objects is an own property of the target
  whose value is \<open>null\<close> (a configuration \<open>ticks: null\<close>): the own value is
  taken as the child, and \<open>Object.setPrototypeOf(null, parent)\<close> throws.
\<close>

theorem recursiveSetChildPrototypes_null:
  assumes m: "recursiveChildObjects h (Ref a) = Some (Inr ((k, p # ps) # rest))"
    and own: "has_own h a k" and null: "get_prop h a k = Null"
  shows "recursiveSetChildPrototypes h (Ref a) =
           Some (Inl (TypeError ''Object.setPrototypeOf called on null or undefined''))"
proof -
  obtain n h1 where al: "alloc_obj h [] = (n, h1)" by fastforce
  from own_value_alloc [OF own, of "[]"] al null
  have "has_own h1 a k" "get_prop h1 a k = Null" by simp_all
  then show ?thesis
    using m al
    by (simp add: recursiveSetChildPrototypes_def rscp.simps [of "RSCP _"] rscp.simps [of "RSCP_entries _ _"]
                  directPropertyOrDefault_def set_proto_of_def)
qed

theorem recursiveSetChildPrototypes_null_witness:
  "recursiveChildObjects null_heap (Ref 0) = Some (Inr [(''ticks'', [Ref 2])]) \<and>
   has_own null_heap 0 ''ticks'' \<and> get_prop null_heap 0 ''ticks'' = Null \<and>
   recursiveSetChildPrototypes null_heap (Ref 0) =
     Some (Inl (TypeError ''Object.setPrototypeOf called on null or undefined''))"
proof -
  have r: "recursiveChildObjects null_heap (Ref 0) = Some (Inr [(''ticks'', [Ref 2])])" by code_simp
  have o: "has_own null_heap 0 ''ticks''" by (simp add: has_own_def null_heap_def)
  have g: "get_prop null_heap 0 ''ticks'' = Null" by code_simp
  show ?thesis using recursiveSetChildPrototypes_null [OF r o g] r o g by blast
qed

end
