(* ===== verification/Config.thy ===== *)
theory Config
  imports Scales
begin

text \<open>
  The configuration facade of \<open>src/src/core/core.config.js\<close> (lines 175--224):
  \<open>initConfig\<close>, which completes a user configuration in place, and the
  \<open>Config\<close> class, whose one field \<open>_config\<close> is a record field here, with
  its accessors and \<open>update\<close>. The registry \<open>defaults\<close> is at address
  \<open>dflt\<close>; every operation takes and returns the heap.
\<close>

text \<open>
  \<open>initConfig(config)\<close>: a missing configuration becomes \<open>{}\<close>, a missing
  \<open>data\<close> becomes \<open>{datasets: [], labels: []}\<close> (its arrays allocated first),
  missing \<open>datasets\<close> and \<open>labels\<close> become \<open>[]\<close>; every one of these
  assignments is made, also when it stores the value already there. Then the
  options are threaded with \<open>includeDefaults\<close> and \<open>includeScaleDefaults\<close> is
  run, its result unused. Returns the configuration.
\<close>

definition initConfig :: "heap \<Rightarrow> addr \<Rightarrow> val \<Rightarrow> (js_error + (val \<times> heap)) option" where
  "initConfig h dflt config0 =
     (let (config, h1) = or_alloc h config0 (\<lambda>h. alloc_obj h [])
      in rbind (Some (get_v h1 config ''data'')) (\<lambda>d0.
         let (data, h2) = or_alloc h1 d0 (\<lambda>h. let (a1, h') = alloc_array h [];
                                                   (a2, h'') = alloc_array h' []
                                               in alloc_obj h'' [(''datasets'', Ref a1), (''labels'', Ref a2)])
         in rbind (Some (put_v h2 config ''data'' data)) (\<lambda>h3.
            rbind (Some (get_v h3 data ''datasets'')) (\<lambda>ds0.
              let (ds, h4) = or_alloc h3 ds0 (\<lambda>h. alloc_array h [])
              in rbind (Some (put_v h4 data ''datasets'' ds)) (\<lambda>h5.
                 rbind (Some (get_v h5 data ''labels'')) (\<lambda>ls0.
                   let (ls, h6) = or_alloc h5 ls0 (\<lambda>h. alloc_array h [])
                   in rbind (Some (put_v h6 data ''labels'' ls)) (\<lambda>h7.
                      rbind (Some (get_v h7 config ''options'')) (\<lambda>options.
                        rbind (Some (get_v h7 config ''type'')) (\<lambda>type.
                          rbind (includeDefaults h7 dflt options type) (\<lambda>(n, h8).
                            rbind (Some (put_v h8 config ''options'' (Ref n))) (\<lambda>h9.
                              case config of
                                Ref c \<Rightarrow> rbind (includeScaleDefaults h9 dflt c) (\<lambda>(sc, h10). Some (Inr (config, h10)))
                              | _ \<Rightarrow> Some (Inr (config, h9)))))))))))))"

record config_obj =
  cfg_config :: val

text \<open>\<open>new Config(config)\<close>.\<close>

definition Config :: "heap \<Rightarrow> addr \<Rightarrow> val \<Rightarrow> (js_error + (config_obj \<times> heap)) option" where
  "Config h dflt config =
     rbind (initConfig h dflt config) (\<lambda>(c, h'). Some (Inr (\<lparr>cfg_config = c\<rparr>, h')))"

text \<open>The accessors \<open>type\<close>, \<open>data\<close> (get and set), \<open>options\<close> and \<open>plugins\<close>.\<close>

definition get_type :: "heap \<Rightarrow> config_obj \<Rightarrow> js_error + val" where
  "get_type h me = get_v h (cfg_config me) ''type''"

definition get_data :: "heap \<Rightarrow> config_obj \<Rightarrow> js_error + val" where
  "get_data h me = get_v h (cfg_config me) ''data''"

definition set_data :: "heap \<Rightarrow> config_obj \<Rightarrow> val \<Rightarrow> js_error + heap" where
  "set_data h me data = put_v h (cfg_config me) ''data'' data"

definition get_options :: "heap \<Rightarrow> config_obj \<Rightarrow> js_error + val" where
  "get_options h me = get_v h (cfg_config me) ''options''"

definition get_plugins :: "heap \<Rightarrow> config_obj \<Rightarrow> js_error + val" where
  "get_plugins h me = get_v h (cfg_config me) ''plugins''"

text \<open>
  \<open>update(options)\<close>: the scales are rebuilt from the current configuration,
  then the new options are threaded with the type defaults and given the scales,
  and replace the configuration's options.
\<close>

definition update :: "heap \<Rightarrow> addr \<Rightarrow> config_obj \<Rightarrow> val \<Rightarrow> (js_error + heap) option" where
  "update h dflt me options =
     (case cfg_config me of
        Ref c \<Rightarrow>
          rbind (includeScaleDefaults h dflt c) (\<lambda>(scaleConfig, h1).
            rbind (includeDefaults h1 dflt options (get_prop h1 c ''type'')) (\<lambda>(n, h2).
              Some (Inr (put_prop (put_prop h2 n ''scales'' (Ref scaleConfig)) c ''options'' (Ref n)))))
      | _ \<Rightarrow> Some (Inl (TypeError ''Cannot read properties of the configuration'')))"

subsection \<open>Properties\<close>

text \<open>
  C33. A configuration that is a truthy primitive (a number, string or
  \<open>true\<close>) makes the constructor throw a \<open>TypeError\<close>: \<open>config.data || ...\<close>
  reads \<open>undefined\<close> and the assignment \<open>config.data = ...\<close> of module (strict)
  code fails on a primitive.
\<close>

theorem Config_primitive:
  "truthy v \<Longrightarrow> \<forall>a. v \<noteq> Ref a \<Longrightarrow>
   Config h dflt v = Some (Inl (TypeError ''Cannot create property on primitive''))"
  by (cases v) (simp_all add: Config_def initConfig_def or_alloc_def get_v_def put_v_def split_def)

theorem Config_primitive_witness:
  "Config line_heap 0 (Num 5) = Some (Inl (TypeError ''Cannot create property on primitive''))"
  using Config_primitive [of "Num 5"] by simp


end
