(* ===== verification/Canvas.thy ===== *)
theory Canvas
  imports Complex_Main Prelude
begin

text \<open>
  The drawing surface and the numeric helpers the label code calls. None of them
  is under \<open>src/\<close>: the canvas is external (specification section 6), and
  \<open>helpers.longestText\<close>, \<open>toRadians\<close> and \<open>toDegrees\<close> come from the helpers
  package. They are modelled from the specification and the helpers' published
  code.

  A context is observed through the commands it receives: a drawing routine
  returns the list of canvas commands it issues, in order. Text measurement
  (\<open>ctx.measureText(s).width\<close> under the font \<open>f\<close>) is a function
  \<open>mt f s\<close> the context provides; the code only ever reads widths from it.
  JavaScript numbers are reals: the geometry is exact, \<open>NaN\<close> and infinities
  are not modelled except where a property is about them.
\<close>

datatype canvas_cmd =
    Save | Restore | Translate real real | Rotate real
  | SetFont string | SetFillStyle string | SetTextBaseline string | SetTextAlign string
  | SetShadowBlur real | SetShadowColor string
  | FillText string real real

type_synonym measure = "string \<Rightarrow> string \<Rightarrow> real"

text \<open>A font descriptor: its CSS string form and its line height.\<close>

record font =
  fstring :: string
  lineHeight :: real

text \<open>The text argument of a label: a string or an array of lines.\<close>

datatype text_arg = TextStr string | TextArr "string list"

definition lines_of :: "text_arg \<Rightarrow> string list" where
  "lines_of t = (case t of TextStr s \<Rightarrow> [s] | TextArr ls \<Rightarrow> ls)"

subsection \<open>JavaScript number helpers\<close>

text \<open>\<open>Math.trunc\<close> and the remainder operator \<open>%\<close>, whose result has the sign of the dividend.\<close>

definition js_trunc :: "real \<Rightarrow> real" where
  "js_trunc r = (if 0 \<le> r then of_int \<lfloor>r\<rfloor> else - of_int \<lfloor>- r\<rfloor>)"

definition js_fmod :: "real \<Rightarrow> real \<Rightarrow> real" where
  "js_fmod x y = x - y * js_trunc (x / y)"

text \<open>
  \<open>Math.max(a, b)\<close> on two numbers, \<open>None\<close> standing for \<open>NaN\<close>: a \<open>NaN\<close>
  argument makes the result \<open>NaN\<close>.
\<close>

definition js_max :: "real option \<Rightarrow> real option \<Rightarrow> real option" where
  "js_max a b = (case (a, b) of (Some x, Some y) \<Rightarrow> Some (max x y) | _ \<Rightarrow> None)"

definition toRadians :: "real \<Rightarrow> real" where
  "toRadians deg = deg * (pi / 180)"

definition toDegrees :: "real \<Rightarrow> real" where
  "toDegrees rad = rad * (180 / pi)"

subsection \<open>Reading a plain object used as a dictionary\<close>

text \<open>
  The width caches of both label modules are object literals \<open>{}\<close>: a read
  \<open>cache[s]\<close> finds an own entry, else the member of \<open>Object.prototype\<close> named
  \<open>s\<close>, else \<open>undefined\<close>. These are the names an object literal inherits
  (ECMAScript 20.1.3, and the annex B accessors); every one of them is a function,
  or, for \<open>__proto__\<close>, \<open>Object.prototype\<close> itself: a truthy value that is not
  a number.
\<close>

definition object_proto_keys :: "string list" where
  "object_proto_keys =
     [''constructor'', ''hasOwnProperty'', ''isPrototypeOf'', ''propertyIsEnumerable'',
      ''toLocaleString'', ''toString'', ''valueOf'', ''__proto__'', ''__defineGetter__'',
      ''__defineSetter__'', ''__lookupGetter__'', ''__lookupSetter__'']"

definition inherited :: "string \<Rightarrow> bool" where
  "inherited s \<longleftrightarrow> s \<in> set object_proto_keys"

subsection \<open>The text-width cache of \<open>helpers.longestText\<close>\<close>

text \<open>
  \<open>core.tickLabel.js\<close> loads the CommonJS helpers (\<open>require('../helpers/index')\<close>),
  whose \<open>helpers.longestText\<close> and \<open>helpers.measureText\<close> are those of the
  Chart.js 2 core helpers. The cache object \<open>{font, data, garbageCollect}\<close>
  holds the widths measured under \<open>font\<close> (\<open>data\<close>, an object literal: its own
  entries, keyed by string) and the strings in the order they were measured.
\<close>

record text_cache =
  tc_font :: string
  tc_data :: "(string \<times> real) list"
  tc_gc :: "string list"

definition empty_cache :: "string \<Rightarrow> text_cache" where
  "empty_cache f = \<lparr>tc_font = f, tc_data = [], tc_gc = []\<rparr>"

text \<open>
  \<open>measureText(ctx, data, gc, longest, string)\<close>: \<open>data[string]\<close> is read;
  when falsy (\<open>undefined\<close>, or a cached \<open>0\<close>) the string is measured, stored
  and recorded in \<open>gc\<close>; \<open>longest\<close> becomes the width when the width is
  greater. An inherited member is truthy, so it is not measured, and comparing a
  function with a number is false, so it leaves \<open>longest\<close> as it is.
\<close>

definition measure_text ::
  "measure \<Rightarrow> string \<Rightarrow> text_cache \<times> real \<Rightarrow> string \<Rightarrow> text_cache \<times> real" where
  "measure_text mt f cl s =
     (let (c, longest) = cl;
          store = (let w' = mt f s in
                   (c\<lparr>tc_data := AList.update s w' (tc_data c), tc_gc := tc_gc c @ [s]\<rparr>, max w' longest))
      in case map_of (tc_data c) s of
           Some w \<Rightarrow> if w \<noteq> 0 then (c, max w longest) else store
         | None \<Rightarrow> if inherited s then (c, longest) else store)"

text \<open>
  \<open>longestText(ctx, font, arrayOfThings, cache)\<close> on an array of strings: a
  cache of another font is reset; the context is given the font
  (\<open>ctx.font = font\<close>, which is not undone); afterwards, when more than twice as
  many strings were recorded as were measured now, the oldest half are evicted:
  \<open>delete data[gc[i]]\<close> for \<open>i < gc.length / 2\<close> (rounded up) and
  \<open>gc.splice(0, gc.length / 2)\<close> (rounded down). Returns the longest width,
  the cache and the commands issued.
\<close>

definition longestText ::
  "measure \<Rightarrow> string \<Rightarrow> string list \<Rightarrow> text_cache \<Rightarrow> real \<times> text_cache \<times> canvas_cmd list" where
  "longestText mt f things c0 =
     (let c1 = (if tc_font c0 \<noteq> f then empty_cache f else c0);
          (c2, longest) = foldl (measure_text mt f) (c1, 0) things;
          n = length (tc_gc c2);
          c3 = (if 2 * length things < n
                then c2\<lparr>tc_data := foldl (\<lambda>d k. AList.delete k d) (tc_data c2) (take ((n + 1) div 2) (tc_gc c2)),
                        tc_gc := drop (n div 2) (tc_gc c2)\<rparr>
                else c2)
      in (longest, c3, [SetFont f]))"

text \<open>The commands that paint text, as opposed to those that set up the context.\<close>

fun is_fill :: "canvas_cmd \<Rightarrow> bool" where
  "is_fill (FillText t x y) = True"
| "is_fill c = False"

text \<open>
  A cache agrees with the context when every width it holds is the measured one,
  under a name the object does not inherit (the code never stores under one).
\<close>

definition cache_ok :: "measure \<Rightarrow> string \<Rightarrow> text_cache \<Rightarrow> bool" where
  "cache_ok mt f c \<longleftrightarrow> (\<forall>(s, w) \<in> set (tc_data c). w = mt f s \<and> \<not> inherited s)"

subsection \<open>Lemmas\<close>

lemma js_trunc_int: "\<exists>k::int. js_trunc r = of_int k"
proof (cases "0 \<le> r")
  case True then show ?thesis by (intro exI [of _ "\<lfloor>r\<rfloor>"]) (simp add: js_trunc_def)
next
  case False then show ?thesis by (intro exI [of _ "- \<lfloor>- r\<rfloor>"]) (simp add: js_trunc_def)
qed

lemma js_trunc_bounds:
  "0 \<le> r \<Longrightarrow> js_trunc r \<le> r \<and> r < js_trunc r + 1"
  "r < 0 \<Longrightarrow> js_trunc r - 1 < r \<and> r \<le> js_trunc r"
  by (simp_all add: js_trunc_def) linarith+

lemma cache_ok_empty [simp]: "cache_ok mt f (empty_cache f)"
  by (simp add: cache_ok_def empty_cache_def)

lemma cache_ok_update:
  "cache_ok mt f c \<Longrightarrow> \<not> inherited s \<Longrightarrow>
   cache_ok mt f (c\<lparr>tc_data := AList.update s (mt f s) (tc_data c), tc_gc := g\<rparr>)"
  using set_update_subset [of s "mt f s" "tc_data c"] by (auto simp: cache_ok_def)

lemma cache_ok_lookup:
  "cache_ok mt f c \<Longrightarrow> map_of (tc_data c) s = Some w \<Longrightarrow> w = mt f s \<and> \<not> inherited s"
  by (auto simp: cache_ok_def dest: map_of_SomeD)

lemma cache_ok_delete_all:
  "cache_ok mt f c \<Longrightarrow> cache_ok mt f (c\<lparr>tc_data := foldl (\<lambda>d k. AList.delete k d) (tc_data c) ks, tc_gc := g\<rparr>)"
proof (induction ks arbitrary: c)
  case Nil then show ?case by (simp add: cache_ok_def)
next
  case (Cons k ks)
  have "cache_ok mt f (c\<lparr>tc_data := AList.delete k (tc_data c)\<rparr>)"
    using Cons.prems by (auto simp: cache_ok_def AList.delete_eq)
  from Cons.IH [OF this] show ?case by simp
qed

text \<open>One string: a string the cache does not inherit counts with its measured width, an inherited one not at all.\<close>

lemma measure_text_ok:
  assumes ok: "cache_ok mt f c" and r: "measure_text mt f (c, l) s = (c', l')"
  shows "cache_ok mt f c' \<and> tc_font c' = tc_font c \<and> l' = (if inherited s then l else max (mt f s) l)"
proof -
  let ?c = "c\<lparr>tc_data := AList.update s (mt f s) (tc_data c), tc_gc := tc_gc c @ [s]\<rparr>"
  show ?thesis
  proof (cases "map_of (tc_data c) s")
    case None
    show ?thesis
    proof (cases "inherited s")
      case True with None r show ?thesis using ok by (simp add: measure_text_def)
    next
      case False
      with None r have "c' = ?c" "l' = max (mt f s) l" by (simp_all add: measure_text_def Let_def)
      with cache_ok_update [OF ok False] False show ?thesis by simp
    qed
  next
    case (Some w)
    from cache_ok_lookup [OF ok Some] have w: "w = mt f s" and ni: "\<not> inherited s" by simp_all
    show ?thesis
    proof (cases "w = 0")
      case True
      with Some r have "c' = ?c" "l' = max (mt f s) l" by (simp_all add: measure_text_def Let_def)
      with cache_ok_update [OF ok ni] ni show ?thesis by simp
    next
      case False
      with Some r have "c' = c" "l' = max w l" by (simp_all add: measure_text_def)
      with ok w ni show ?thesis by simp
    qed
  qed
qed

lemma foldl_measure_text:
  "cache_ok mt f c \<Longrightarrow> foldl (measure_text mt f) (c, l) ss = (c', l') \<Longrightarrow>
   cache_ok mt f c' \<and> tc_font c' = tc_font c \<and> l' = foldl max l (map (mt f) [s \<leftarrow> ss. \<not> inherited s])"
proof (induction ss arbitrary: c l)
  case Nil then show ?case by simp
next
  case (Cons s ss)
  obtain c1 l1 where m: "measure_text mt f (c, l) s = (c1, l1)" by fastforce
  from measure_text_ok [OF Cons.prems(1) m] have ok1: "cache_ok mt f c1"
    and f1: "tc_font c1 = tc_font c" and l1: "l1 = (if inherited s then l else max l (mt f s))"
    by (auto simp: max.commute)
  from Cons.prems(2) m have "foldl (measure_text mt f) (c1, l1) ss = (c', l')" by simp
  from Cons.IH [OF ok1 this] l1 f1 show ?case by simp
qed

lemma cache_ok_evict:
  "cache_ok mt f c \<Longrightarrow> cache_ok mt f (if b then c\<lparr>tc_data := foldl (\<lambda>d k. AList.delete k d) (tc_data c) ks,
                                                  tc_gc := g\<rparr> else c)"
  using cache_ok_delete_all by simp

lemma longestText_correct:
  assumes c0: "tc_font c0 = f \<longrightarrow> cache_ok mt f c0"
    and r: "longestText mt f things c0 = (l, c, cmds)"
  shows "l = foldl max 0 (map (mt f) [s \<leftarrow> things. \<not> inherited s]) \<and> cache_ok mt f c \<and> tc_font c = f \<and>
         cmds = [SetFont f]"
proof -
  define c1 where "c1 = (if tc_font c0 \<noteq> f then empty_cache f else c0)"
  have ok1: "cache_ok mt f c1" and f1: "tc_font c1 = f"
    using c0 by (auto simp: c1_def empty_cache_def cache_ok_def)
  obtain c2 l2 where m: "foldl (measure_text mt f) (c1, 0) things = (c2, l2)" by fastforce
  from foldl_measure_text [OF ok1 m] f1 have ok2: "cache_ok mt f c2" "tc_font c2 = f"
    and l2: "l2 = foldl max 0 (map (mt f) [s \<leftarrow> things. \<not> inherited s])" by auto
  from r m have "l = l2" and c: "c = (if 2 * length things < length (tc_gc c2)
        then c2\<lparr>tc_data := foldl (\<lambda>d k. AList.delete k d) (tc_data c2)
                               (take ((length (tc_gc c2) + 1) div 2) (tc_gc c2)),
                tc_gc := drop (length (tc_gc c2) div 2) (tc_gc c2)\<rparr>
        else c2)" and "cmds = [SetFont f]"
    by (simp_all add: longestText_def c1_def Let_def)
  with l2 ok2 cache_ok_evict [OF ok2(1)] show ?thesis by simp
qed

end
