(* ===== verification/TickLabel.thy ===== *)
theory TickLabel
  imports Canvas "HOL-Library.Sublist"
begin

text \<open>
  The tick label of \<open>src/src/core/core.tickLabel.js\<close>: a block of text lines
  measured once at construction (through a module-wide width cache keyed by font),
  its rotated bounding box, the offset of its centre from an anchor point, the
  padding it needs around the anchor, and the canvas commands that paint it.
  The object's fields are a record; the module's \<open>cache\<close> object is an
  association list from font strings to \<open>helpers.longestText\<close> caches, threaded
  through the operations that use it.
\<close>

definition halfPI :: real where
  "halfPI = pi / 2"

definition quarterPI :: real where
  "quarterPI = halfPI / 2"

type_synonym font_caches = "(string \<times> text_cache) list"

text \<open>
  \<open>measureWidth(ctx, font, text)\<close>: the font's cache, created when absent, and
  the longest line. The module \<open>cache\<close> is an object literal too, read with
  \<open>cache[fontString]\<close>; a font string is a CSS font descriptor
  (\<open>'10px sans-serif'\<close>), never the name of an \<open>Object.prototype\<close> member, so
  this read finds an own entry or nothing.
\<close>

definition measureWidth ::
  "measure \<Rightarrow> font_caches \<Rightarrow> font \<Rightarrow> string list \<Rightarrow> real \<times> font_caches \<times> canvas_cmd list" where
  "measureWidth mt cache font text =
     (let fontString = fstring font;
          fontCache = (case map_of cache fontString of Some c \<Rightarrow> c | None \<Rightarrow> empty_cache fontString);
          (w, fontCache', cmds) = longestText mt fontString text fontCache
      in (w, AList.update fontString fontCache' cache, cmds))"

text \<open>\<open>contains(a, b)\<close>: \<open>a.indexOf(b) > -1\<close>, \<open>b\<close> occurs in \<open>a\<close> as a substring.\<close>

definition contains :: "string \<Rightarrow> string \<Rightarrow> bool" where
  "contains a b = sublist b a"

record tick_label =
  tl_font :: font
  tl_color :: string
  tl_text :: "string list"
  tl_w :: real
  tl_h :: real
  tl_d :: real
  tl_r :: real

text \<open>\<open>initialize()\<close>: width of the longest line, height of the lines, diagonal and half diagonal.\<close>

definition initialize ::
  "measure \<Rightarrow> font_caches \<Rightarrow> tick_label \<Rightarrow> tick_label \<times> font_caches \<times> canvas_cmd list" where
  "initialize mt cache me =
     (let font = tl_font me;
          text = tl_text me;
          (w, cache', cmds) = measureWidth mt cache font text;
          h = real (length text) * lineHeight font;
          d = sqrt (w * w + h * h)
      in (me\<lparr>tl_w := w, tl_h := h, tl_d := d, tl_r := d / 2\<rparr>, cache', cmds))"

text \<open>
  The constructor \<open>TickLabel(ctx, font, color, text)\<close>: a string is made a
  one-line array, then \<open>initialize\<close> runs. The numeric fields are set by
  \<open>initialize\<close> before anything reads them; they start at \<open>0\<close> here.
\<close>

definition TickLabel ::
  "measure \<Rightarrow> font_caches \<Rightarrow> font \<Rightarrow> string \<Rightarrow> text_arg \<Rightarrow> tick_label \<times> font_caches \<times> canvas_cmd list" where
  "TickLabel mt cache font color text =
     initialize mt cache
       \<lparr>tl_font = font, tl_color = color, tl_text = lines_of text, tl_w = 0, tl_h = 0, tl_d = 0, tl_r = 0\<rparr>"

record bbox =
  sz_d :: real
  sz_r :: real
  sz_h :: real
  sz_w :: real

text \<open>\<open>size(rad)\<close>: the axis-aligned bounding box of the rotated label.\<close>

definition size_tl :: "tick_label \<Rightarrow> real \<Rightarrow> bbox" where
  "size_tl me rad =
     (let cos = \<bar>cos rad\<bar>; sin = \<bar>sin rad\<bar>; w = tl_w me; h = tl_h me; d = sqrt (w * w + h * h)
      in \<lparr>sz_d = d, sz_r = d / 2, sz_h = h * cos + w * sin, sz_w = h * sin + w * cos\<rparr>)"

record center =
  cx :: real
  cy :: real

text \<open>
  \<open>_getCenter(rad, anchor, size)\<close>: the flags \<open>l\<close>, \<open>r\<close>, \<open>t\<close>, \<open>b\<close> of the
  anchor in the order the code tests them; \<open>R\<close> with \<open>t\<close> reduces \<open>rad\<close> modulo
  \<open>\<pi>/2\<close> (and the reduced angle is what a following \<open>b\<close> test sees). A missing
  \<open>size\<close> argument is \<open>None\<close>.
\<close>

definition getCenter :: "tick_label \<Rightarrow> real \<Rightarrow> string \<Rightarrow> bbox option \<Rightarrow> center" where
  "getCenter me rad0 anchor size0 =
     (let size = (case size0 of Some s \<Rightarrow> s | None \<Rightarrow> size_tl me rad0);
          halfWidth = sz_w size / 2;
          halfHeight = sz_h size / 2;
          x1 = (if contains anchor ''l'' then halfWidth else 0);
          x2 = (if contains anchor ''r'' then - halfWidth else x1);
          (rad1, x3, y1) =
            (if contains anchor ''t'' then
               (if contains anchor ''R'' then
                  (let rad = js_fmod rad0 halfPI
                   in (rad, sin (if rad > - quarterPI then rad else rad - halfPI) * halfHeight, halfHeight))
                else (rad0, x2, halfHeight))
             else (rad0, x2, 0));
          (x4, y2) =
            (if contains anchor ''b'' then
               (if contains anchor ''R'' then sin (if rad1 > - quarterPI then - rad1 else rad1 + halfPI) * halfHeight
                else x3, - halfHeight)
             else (x3, y1))
      in \<lparr>cx = x4, cy = y2\<rparr>)"

record pad =
  pleft :: real
  pright :: real
  ptop :: real
  pbottom :: real

text \<open>\<open>padding(rad, anchor)\<close>.\<close>

definition padding :: "tick_label \<Rightarrow> real \<Rightarrow> string \<Rightarrow> pad" where
  "padding me rad anchor =
     (let size = size_tl me rad;
          center = getCenter me rad anchor (Some size)
      in \<lparr>pleft = sz_w size / 2 - cx center, pright = cx center + sz_w size / 2,
          ptop = sz_h size / 2 - cy center, pbottom = cy center + sz_h size / 2\<rparr>)"

text \<open>The loop of \<open>draw\<close>: lines from the last to the first, \<open>y\<close> decreasing by the line height.\<close>

fun fill_lines :: "real \<Rightarrow> real \<Rightarrow> real \<Rightarrow> string list \<Rightarrow> canvas_cmd list" where
  "fill_lines x y lh [] = []"
| "fill_lines x y lh (t # ts) = FillText t x y # fill_lines x (y - lh) lh ts"

text \<open>
  \<open>draw(anchorX, anchorY, rad, align, anchor)\<close>: the commands it issues. An
  \<open>anchor\<close> that is \<open>undefined\<close> is \<open>''''\<close>, which is what \<open>anchor || ''''\<close> makes of it.
\<close>

definition draw_tl :: "tick_label \<Rightarrow> real \<Rightarrow> real \<Rightarrow> real \<Rightarrow> string \<Rightarrow> string \<Rightarrow> canvas_cmd list" where
  "draw_tl me anchorX anchorY rad align anchor =
     (let font = tl_font me;
          lineHeight = lineHeight font;
          y = tl_h me / 2;
          text = tl_text me;
          x = (if align = ''left'' then tl_w me / -2 else if align = ''right'' then tl_w me / 2 else 0);
          center = getCenter me rad anchor None
      in [Save, Translate (anchorX + cx center) (anchorY + cy center), Rotate rad,
          SetFont (fstring font), SetFillStyle (tl_color me), SetTextBaseline ''middle'', SetTextAlign align]
         @ fill_lines x (y - lineHeight / 2) lineHeight (rev text) @ [Restore])"

text \<open>Every font cache of the module agrees with the context and is filed under its own font.\<close>

definition caches_ok :: "measure \<Rightarrow> font_caches \<Rightarrow> bool" where
  "caches_ok mt cache \<longleftrightarrow> (\<forall>(f, c) \<in> set cache. tc_font c = f \<and> cache_ok mt f c)"

subsection \<open>Lemmas\<close>

lemma contains_char [simp]: "contains a [c] \<longleftrightarrow> c \<in> set a"
  by (auto simp: contains_def sublist_def dest: split_list)

lemma caches_ok_lookup:
  "caches_ok mt cache \<Longrightarrow> map_of cache f = Some c \<Longrightarrow> tc_font c = f \<and> cache_ok mt f c"
  by (auto simp: caches_ok_def dest: map_of_SomeD)

lemma caches_ok_update:
  "caches_ok mt cache \<Longrightarrow> tc_font c = f \<Longrightarrow> cache_ok mt f c \<Longrightarrow> caches_ok mt (AList.update f c cache)"
  using set_update_subset [of f c cache] by (auto simp: caches_ok_def)

lemma measureWidth_correct:
  assumes ok: "caches_ok mt cache" and r: "measureWidth mt cache font text = (w, cache', cmds)"
  shows "w = foldl max 0 (map (mt (fstring font)) [s \<leftarrow> text. \<not> inherited s]) \<and> caches_ok mt cache' \<and>
         cmds = [SetFont (fstring font)]"
proof -
  let ?f = "fstring font"
  define c where "c = (case map_of cache ?f of Some c \<Rightarrow> c | None \<Rightarrow> empty_cache ?f)"
  have c: "tc_font c = ?f \<longrightarrow> cache_ok mt ?f c"
    using caches_ok_lookup [OF ok] by (auto simp: c_def split: option.splits)
  obtain l c' cs where lt: "longestText mt ?f text c = (l, c', cs)" by (cases "longestText mt ?f text c")
  from longestText_correct [OF c lt] have l: "l = foldl max 0 (map (mt ?f) [s \<leftarrow> text. \<not> inherited s])"
    and ok': "cache_ok mt ?f c'" and f': "tc_font c' = ?f" and cs: "cs = [SetFont ?f]"
    by auto
  from r lt have "w = l" "cache' = AList.update ?f c' cache" "cmds = cs"
    by (simp_all add: measureWidth_def c_def Let_def)
  with l cs caches_ok_update [OF ok f' ok'] show ?thesis by simp
qed

lemma abs_sin_cos_ge_one: "1 \<le> \<bar>sin t\<bar> + \<bar>cos (t::real)\<bar>"
proof -
  let ?s = "\<bar>sin t\<bar>" and ?c = "\<bar>cos t\<bar>"
  have sc: "?s * ?s + ?c * ?c = 1" using sin_cos_squared_add [of t] by (simp add: power2_eq_square)
  have "(?s + ?c) * (?s + ?c) = 1 + 2 * (?s * ?c)" using sc by (simp add: algebra_simps)
  then have "1\<^sup>2 \<le> (?s + ?c)\<^sup>2" by (simp add: power2_eq_square)
  then show ?thesis by (rule power2_le_imp_le) simp
qed

text \<open>The rotated box of a \<open>w \<times> h\<close> rectangle lies between the shorter side and the diagonal.\<close>

lemma rotated_side_bounds:
  fixes a b t :: real
  assumes a: "0 \<le> a" and b: "0 \<le> b"
  shows "min a b \<le> a * \<bar>sin t\<bar> + b * \<bar>cos t\<bar> \<and> a * \<bar>sin t\<bar> + b * \<bar>cos t\<bar> \<le> sqrt (a * a + b * b)"
proof
  let ?s = "\<bar>sin t\<bar>" and ?c = "\<bar>cos t\<bar>"
  have one: "1 \<le> ?s + ?c" by (rule abs_sin_cos_ge_one)
  have "min a b * 1 \<le> min a b * (?s + ?c)" using one a b by (intro mult_left_mono) simp_all
  then have "min a b \<le> min a b * (?s + ?c)" by simp
  also have "\<dots> \<le> a * ?s + b * ?c"
    by (simp add: distrib_left mult_right_mono add_mono)
  finally show "min a b \<le> a * ?s + b * ?c" .
  have sc: "?s * ?s + ?c * ?c = 1" using sin_cos_squared_add [of t] by (simp add: power2_eq_square)
  obtain s c where s: "s = ?s" and c: "c = ?c" by blast
  have "(a * s + b * c)\<^sup>2 + (a * c - b * s)\<^sup>2 = (a * a + b * b) * (s * s + c * c)"
    by (simp add: power2_eq_square algebra_simps)
  with sc s c have "(a * s + b * c)\<^sup>2 + (a * c - b * s)\<^sup>2 = a * a + b * b" by simp
  moreover have "0 \<le> (a * c - b * s)\<^sup>2" by simp
  ultimately have "(a * s + b * c)\<^sup>2 \<le> a * a + b * b" by linarith
  with s c show "a * ?s + b * ?c \<le> sqrt (a * a + b * b)" by (simp add: real_le_rsqrt)
qed

lemma js_fmod_bounds:
  assumes y: "0 < y"
  shows "- y < js_fmod x y \<and> js_fmod x y < y \<and> (\<exists>k::int. x = js_fmod x y + of_int k * y)"
proof -
  obtain k :: int where k: "js_trunc (x / y) = of_int k" using js_trunc_int by blast
  have eq: "x = js_fmod x y + of_int k * y" using k by (simp add: js_fmod_def)
  define d where "d = x / y - js_trunc (x / y)"
  have "- 1 < d \<and> d < 1"
    using js_trunc_bounds [of "x / y"] unfolding d_def by (cases "0 \<le> x / y") auto
  then have "y * (- 1) < y * d" "y * d < y * 1"
    using mult_strict_left_mono y by blast+
  moreover have "js_fmod x y = y * d" using y by (simp add: js_fmod_def d_def right_diff_distrib)
  ultimately show ?thesis using eq by simp
qed

lemma js_fmod_sign:
  assumes y: "0 < y"
  shows "(0 \<le> x \<longrightarrow> 0 \<le> js_fmod x y) \<and> (x \<le> 0 \<longrightarrow> js_fmod x y \<le> 0)"
proof -
  define d where "d = x / y - js_trunc (x / y)"
  have m: "js_fmod x y = y * d" using y by (simp add: js_fmod_def d_def right_diff_distrib)
  have "0 \<le> x \<longrightarrow> 0 \<le> d"
    using js_trunc_bounds(1) [of "x / y"] y by (auto simp: d_def)
  moreover have "x \<le> 0 \<longrightarrow> d \<le> 0"
  proof
    assume x: "x \<le> 0"
    show "d \<le> 0"
    proof (cases "x = 0")
      case True then show ?thesis by (simp add: d_def js_trunc_def)
    next
      case False
      with x y have "x / y < 0" by (simp add: divide_neg_pos)
      from js_trunc_bounds(2) [OF this] show ?thesis by (simp add: d_def)
    qed
  qed
  ultimately show ?thesis using m y by (simp add: mult_nonneg_nonneg mult_nonneg_nonpos)
qed

lemma fill_lines_map:
  "fill_lines x y lh ts = map (\<lambda>j. FillText (ts ! j) x (y - real j * lh)) [0..<length ts]"
proof (induction ts arbitrary: y)
  case Nil then show ?case by simp
next
  case (Cons t ts)
  have "[0..<length (t # ts)] = 0 # map Suc [0..<length ts]" by (simp del: upt_Suc add: upt_conv_Cons map_Suc_upt)
  with Cons.IH [of "y - lh"] show ?case by (simp add: algebra_simps)
qed

lemma fill_lines_no_save: "Save \<notin> set (fill_lines x y lh ts) \<and> Restore \<notin> set (fill_lines x y lh ts)"
  by (induction ts arbitrary: y) auto

lemma fill_lines_fills: "filter is_fill (fill_lines x y lh ts) = fill_lines x y lh ts"
  by (induction ts arbitrary: y) auto

lemma count_list_absent: "c \<notin> set xs \<Longrightarrow> count_list xs c = 0"
  by (induction xs) auto

lemma rev_lines_centered:
  assumes "h = real (length ts) * lh"
  shows "map (\<lambda>j. FillText (rev ts ! j) x (h / 2 - lh / 2 - real j * lh)) [0..<length ts] =
         map (\<lambda>i. FillText (ts ! i) x ((real i + 1 / 2) * lh - h / 2)) (rev [0..<length ts])"
proof (rule nth_equalityI)
  fix j assume "j < length (map (\<lambda>j. FillText (rev ts ! j) x (h / 2 - lh / 2 - real j * lh)) [0..<length ts])"
  then have j: "j < length ts" by simp
  then have r: "rev [0..<length ts] ! j = length ts - Suc j" by (simp add: rev_nth)
  have "real (length ts - Suc j) = real (length ts) - 1 - real j" using j by (simp add: of_nat_diff)
  with j r assms show "map (\<lambda>j. FillText (rev ts ! j) x (h / 2 - lh / 2 - real j * lh)) [0..<length ts] ! j =
        map (\<lambda>i. FillText (ts ! i) x ((real i + 1 / 2) * lh - h / 2)) (rev [0..<length ts]) ! j"
    by (simp add: rev_nth algebra_simps)
qed simp

text \<open>The remainders and sines the examples below need.\<close>

lemma js_fmod_third_pi: "js_fmod (pi / 3) halfPI = pi / 3"
  by (simp add: js_fmod_def js_trunc_def halfPI_def)
lemma js_fmod_two_thirds_pi: "js_fmod (2 * pi / 3) halfPI = pi / 6"
proof -
  have "2 * pi / 3 / (pi / 2) = (4 / 3 :: real)" by simp
  moreover have "\<lfloor>4 / 3 :: real\<rfloor> = 1" by (simp add: floor_eq_iff)
  ultimately show ?thesis by (simp add: js_fmod_def js_trunc_def halfPI_def)
qed
lemma sin_two_thirds_pi: "sin (2 * pi / 3) = sqrt 3 / 2"
proof -
  have "2 * pi / 3 = pi - pi / 3" by simp
  then have "sin (2 * pi / 3) = sin (pi - pi / 3)" by (rule arg_cong)
  also have "\<dots> = sin (pi / 3)" by (rule sin_pi_minus)
  also have "\<dots> = sqrt 3 / 2" by (rule sin_60)
  finally show ?thesis .
qed
subsection \<open>Properties\<close>



text \<open>
  C4. The constructor \<open>TickLabel(ctx, font, color, text)\<close> makes a string a
  one-line array and sets \<open>w\<close> to the width \<open>measureWidth\<close> gives (the
  longest line the cache does not inherit), \<open>h\<close> to the number of lines times
  the line height, \<open>d\<close> to the diagonal and \<open>r\<close> to half of it. Its only
  command to the context is \<open>ctx.font = font\<close>, which it leaves set: the
  borrowed context's font is changed by constructing a label.
\<close>

theorem TickLabel_init:
  assumes "caches_ok mt cache" and "TickLabel mt cache font color text = (me, cache', cmds)"
  shows "tl_text me = lines_of text \<and> tl_color me = color \<and>
         tl_w me = foldl max 0 (map (mt (fstring font)) [s \<leftarrow> lines_of text. \<not> inherited s]) \<and>
         tl_h me = real (length (lines_of text)) * lineHeight font \<and>
         tl_d me = sqrt (tl_w me * tl_w me + tl_h me * tl_h me) \<and> tl_r me = tl_d me / 2 \<and>
         caches_ok mt cache' \<and> cmds = [SetFont (fstring font)]"
proof -
  obtain w c cs where m: "measureWidth mt cache font (lines_of text) = (w, c, cs)"
    by (cases "measureWidth mt cache font (lines_of text)")
  from measureWidth_correct [OF assms(1) m] assms(2) m show ?thesis
    by (auto simp: TickLabel_def initialize_def Let_def)
qed

theorem TickLabel_init_witness:
  "caches_ok (\<lambda>f s. 4 * real (length s)) [] \<and>
   (\<exists>me c' cmds. TickLabel (\<lambda>f s. 4 * real (length s)) [] \<lparr>fstring = ''10px sans-serif'', lineHeight = 12\<rparr>
       ''#fff'' (TextStr ''test label'') = (me, c', cmds) \<and> tl_w me = 40 \<and> tl_h me = 12 \<and>
       cmds = [SetFont ''10px sans-serif''])"
proof -
  let ?mt = "\<lambda>f s. 4 * real (length s) :: real"
  let ?f = "\<lparr>fstring = ''10px sans-serif'', lineHeight = 12\<rparr>"
  have ok: "caches_ok ?mt []" by (simp add: caches_ok_def)
  obtain me c' cmds where r: "TickLabel ?mt [] ?f ''#fff'' (TextStr ''test label'') = (me, c', cmds)"
    by (cases "TickLabel ?mt [] ?f ''#fff'' (TextStr ''test label'')")
  from TickLabel_init [OF ok r] have "tl_w me = 40" "tl_h me = 12" "cmds = [SetFont ''10px sans-serif'']"
    by (simp_all add: lines_of_def inherited_def object_proto_keys_def)
  with ok r show ?thesis by blast
qed

text \<open>
  C11. The bounding box at quarter turns (specification section 8): unchanged at
  \<open>0\<close> and \<open>\<pi>\<close>, width and height swapped at \<open>\<pi>/2\<close> and \<open>-\<pi>/2\<close>; the
  diagonal does not depend on the angle.
\<close>

theorem size_tl_quarter_turns:
  "sz_w (size_tl me 0) = tl_w me \<and> sz_h (size_tl me 0) = tl_h me \<and>
   sz_w (size_tl me pi) = tl_w me \<and> sz_h (size_tl me pi) = tl_h me \<and>
   sz_w (size_tl me (pi / 2)) = tl_h me \<and> sz_h (size_tl me (pi / 2)) = tl_w me \<and>
   sz_w (size_tl me (- (pi / 2))) = tl_h me \<and> sz_h (size_tl me (- (pi / 2))) = tl_w me \<and>
   sz_d (size_tl me rad) = sz_d (size_tl me 0)"
  by (simp add: size_tl_def Let_def)

text \<open>
  C12. For a label of non-negative width and height, each side of the rotated box
  lies between the shorter side of the label and its diagonal.
\<close>

theorem size_tl_bounds:
  assumes "0 \<le> tl_w me" and "0 \<le> tl_h me"
  shows "min (tl_w me) (tl_h me) \<le> sz_w (size_tl me rad) \<and> sz_w (size_tl me rad) \<le> sz_d (size_tl me rad) \<and>
         min (tl_w me) (tl_h me) \<le> sz_h (size_tl me rad) \<and> sz_h (size_tl me rad) \<le> sz_d (size_tl me rad)"
  using rotated_side_bounds [OF assms(2,1), of rad] rotated_side_bounds [OF assms(1,2), of rad]
  by (simp add: size_tl_def Let_def min.commute add.commute)

theorem size_tl_bounds_witness:
  "0 \<le> tl_w \<lparr>tl_font = \<lparr>fstring = ''f'', lineHeight = 12\<rparr>, tl_color = ''c'', tl_text = [''a''],
             tl_w = 40, tl_h = 12, tl_d = 0, tl_r = 0\<rparr> \<and>
   0 \<le> tl_h \<lparr>tl_font = \<lparr>fstring = ''f'', lineHeight = 12\<rparr>, tl_color = ''c'', tl_text = [''a''],
             tl_w = 40, tl_h = 12, tl_d = 0, tl_r = 0\<rparr> \<and>
   12 \<le> sz_w (size_tl \<lparr>tl_font = \<lparr>fstring = ''f'', lineHeight = 12\<rparr>, tl_color = ''c'', tl_text = [''a''],
             tl_w = 40, tl_h = 12, tl_d = 0, tl_r = 0\<rparr> 1)"
  using size_tl_bounds [of "\<lparr>tl_font = \<lparr>fstring = ''f'', lineHeight = 12\<rparr>, tl_color = ''c'', tl_text = [''a''],
             tl_w = 40, tl_h = 12, tl_d = 0, tl_r = 0\<rparr>" 1] by simp

text \<open>
  C13. \<open>padding(rad, anchor)\<close> splits the rotated box for every anchor and angle
  (specification section 8): \<open>left + right\<close> is its width and \<open>top + bottom\<close>
  its height.
\<close>

theorem padding_sums:
  "pleft (padding me rad anchor) + pright (padding me rad anchor) = sz_w (size_tl me rad) \<and>
   ptop (padding me rad anchor) + pbottom (padding me rad anchor) = sz_h (size_tl me rad)"
  by (simp add: padding_def Let_def)

text \<open>
  C23. An anchor with none of the flags \<open>l\<close>, \<open>r\<close>, \<open>t\<close>, \<open>b\<close> leaves the centre
  at the anchor point.
\<close>

theorem getCenter_no_flags:
  assumes "\<not> contains anchor ''l''" "\<not> contains anchor ''r''"
    "\<not> contains anchor ''t''" "\<not> contains anchor ''b''"
  shows "getCenter me rad anchor sz = \<lparr>cx = 0, cy = 0\<rparr>"
  using assms by (simp add: getCenter_def Let_def)

theorem getCenter_no_flags_witness:
  "\<not> contains ''c'' ''l'' \<and> \<not> contains ''c'' ''r'' \<and> \<not> contains ''c'' ''t'' \<and> \<not> contains ''c'' ''b'' \<and>
   getCenter \<lparr>tl_font = \<lparr>fstring = ''f'', lineHeight = 12\<rparr>, tl_color = ''c'', tl_text = [''a''],
              tl_w = 40, tl_h = 12, tl_d = 0, tl_r = 0\<rparr> 1 ''c'' None = \<lparr>cx = 0, cy = 0\<rparr>"
  using getCenter_no_flags [of "''c''"] by simp

text \<open>
  C18. With the flags \<open>t\<close> and \<open>R\<close> (and not \<open>b\<close>) the centre is half the box
  height below the anchor and slides sideways by \<open>sin \<theta>'\<close> times that, where
  \<open>\<theta> = rad % (\<pi>/2)\<close> is the JavaScript remainder: it has the sign of
  \<open>rad\<close>, lies in \<open>(-\<pi>/2, \<pi>/2)\<close> and differs from \<open>rad\<close> by a multiple of
  \<open>\<pi>/2\<close>, which determine it. \<open>\<theta>'\<close> is \<open>\<theta>\<close> above \<open>-\<pi>/4\<close> and
  \<open>\<theta> - \<pi>/2\<close> otherwise.
\<close>

theorem getCenter_top_rotated:
  assumes "contains anchor ''t''" "contains anchor ''R''" "\<not> contains anchor ''b''"
  shows "\<exists>\<theta>. - (pi / 2) < \<theta> \<and> \<theta> < pi / 2 \<and> (0 \<le> rad \<longrightarrow> 0 \<le> \<theta>) \<and> (rad \<le> 0 \<longrightarrow> \<theta> \<le> 0) \<and>
           (\<exists>k::int. rad = \<theta> + of_int k * (pi / 2)) \<and>
           getCenter me rad anchor (Some s) =
             \<lparr>cx = sin (if \<theta> > - (pi / 4) then \<theta> else \<theta> - pi / 2) * (sz_h s / 2), cy = sz_h s / 2\<rparr>"
proof -
  have "0 < pi / (2::real)" by simp
  from js_fmod_bounds [OF this, of rad] js_fmod_sign [OF this, of rad] assms show ?thesis
    by (intro exI [of _ "js_fmod rad (pi / 2)"]) (simp add: getCenter_def Let_def halfPI_def quarterPI_def)
qed

theorem getCenter_top_rotated_witness:
  "contains ''tR'' ''t'' \<and> contains ''tR'' ''R'' \<and> \<not> contains ''tR'' ''b'' \<and>
   (\<exists>\<theta>. - (pi / 2) < \<theta> \<and> \<theta> < pi / 2 \<and> (0 \<le> pi / 3 \<longrightarrow> 0 \<le> \<theta>) \<and> (pi / 3 \<le> 0 \<longrightarrow> \<theta> \<le> 0) \<and>
      (\<exists>k::int. pi / 3 = \<theta> + of_int k * (pi / 2)) \<and>
      getCenter \<lparr>tl_font = \<lparr>fstring = ''f'', lineHeight = 12\<rparr>, tl_color = ''c'', tl_text = [''a''],
                 tl_w = 40, tl_h = 12, tl_d = 0, tl_r = 0\<rparr> (pi / 3) ''tR'' (Some \<lparr>sz_d = 0, sz_r = 0, sz_h = 12, sz_w = 40\<rparr>) =
        \<lparr>cx = sin (if \<theta> > - (pi / 4) then \<theta> else \<theta> - pi / 2) * (12 / 2), cy = 12 / 2\<rparr>)"
  using getCenter_top_rotated [where anchor = "''tR''" and rad = "pi / 3" and s = "\<lparr>sz_d = 0, sz_r = 0, sz_h = 12, sz_w = 40\<rparr>"
      and me = "\<lparr>tl_font = \<lparr>fstring = ''f'', lineHeight = 12\<rparr>, tl_color = ''c'',
      tl_text = [''a''], tl_w = 40, tl_h = 12, tl_d = 0, tl_r = 0\<rparr>"]
  by simp

text \<open>
  C19. Contrary to the specification (section 4.4), the \<open>R\<close> modifier with
  \<open>t\<close> does not use the angle normalised into \<open>(-\<pi>/4, \<pi>/4]\<close> about the
  nearest right angle: at \<open>rad = \<pi>/3\<close> the nearest right angle is \<open>\<pi>/2\<close>
  (normalised angle \<open>-\<pi>/6\<close>, offset \<open>-h/4\<close>), but the code keeps \<open>\<pi>/3\<close>
  and slides the centre by \<open>sin(\<pi>/3) \<cdot> h/2\<close>.
\<close>

theorem getCenter_top_rotated_not_nearest:
  "getCenter me (pi / 3) ''tR'' (Some s) = \<lparr>cx = sqrt 3 / 4 * sz_h s, cy = sz_h s / 2\<rparr>"
proof -
  have "- quarterPI < pi / 3" using pi_gt_zero unfolding quarterPI_def halfPI_def by linarith
  then show ?thesis by (simp add: getCenter_def Let_def js_fmod_third_pi sin_60)
qed
text \<open>
  C20. The \<open>b\<close> branch of the \<open>R\<close> modifier omits the reduction
  \<open>rad % (\<pi>/2)\<close> of the \<open>t\<close> branch, so beyond a quarter turn the bottom
  anchor is not the mirror of the top one: at \<open>rad = 2\<pi>/3\<close> the top anchor
  slides by \<open>h/4\<close>, the bottom anchor by \<open>-\<surd>3 h/4\<close> instead of \<open>-h/4\<close>.
\<close>

theorem getCenter_bottom_rotated_asymmetric:
  "cx (getCenter me (2 * pi / 3) ''tR'' (Some s)) = sz_h s / 4 \<and>
   cx (getCenter me (2 * pi / 3) ''bR'' (Some s)) = - (sqrt 3 / 4 * sz_h s)"
proof -
  have "- quarterPI < pi / 6" "- quarterPI < 2 * pi / 3"
    using pi_gt_zero unfolding quarterPI_def halfPI_def by linarith+
  then show ?thesis by (simp add: getCenter_def Let_def js_fmod_two_thirds_pi sin_two_thirds_pi sin_30)
qed
text \<open>
  C21. \<open>draw\<close> scopes its changes to the context (specification section 5): its
  first command is \<open>save()\<close>, its last \<open>restore()\<close>, and it issues each once.
\<close>

theorem draw_balanced:
  "hd (draw_tl me ax ay rad align anchor) = Save \<and> last (draw_tl me ax ay rad align anchor) = Restore \<and>
   count_list (draw_tl me ax ay rad align anchor) Save = 1 \<and>
   count_list (draw_tl me ax ay rad align anchor) Restore = 1"
  using fill_lines_no_save by (simp add: draw_tl_def Let_def count_list_absent)

text \<open>
  C22. \<open>draw\<close> paints the lines from the last to the first, each at the
  alignment's \<open>x\<close>, line \<open>i\<close> at \<open>y = (i + 1/2) \<cdot> lineHeight - h/2\<close>: when the
  height is that of the lines, the block is centred on the rotated anchor.
\<close>

theorem draw_lines_centered:
  assumes "tl_h me = real (length (tl_text me)) * lineHeight (tl_font me)"
  shows "filter is_fill (draw_tl me ax ay rad align anchor) =
         map (\<lambda>i. FillText (tl_text me ! i)
                    (if align = ''left'' then tl_w me / -2 else if align = ''right'' then tl_w me / 2 else 0)
                    ((real i + 1 / 2) * lineHeight (tl_font me) - tl_h me / 2))
             (rev [0..<length (tl_text me)])"
  using rev_lines_centered [OF assms]
  by (simp add: draw_tl_def Let_def fill_lines_fills fill_lines_map)

theorem draw_lines_centered_witness:
  "tl_h \<lparr>tl_font = \<lparr>fstring = ''f'', lineHeight = 12\<rparr>, tl_color = ''c'', tl_text = [''a'', ''b''],
         tl_w = 40, tl_h = 24, tl_d = 0, tl_r = 0\<rparr> =
     real (length (tl_text \<lparr>tl_font = \<lparr>fstring = ''f'', lineHeight = 12\<rparr>, tl_color = ''c'', tl_text = [''a'', ''b''],
         tl_w = 40, tl_h = 24, tl_d = 0, tl_r = 0\<rparr>)) *
       lineHeight (tl_font \<lparr>tl_font = \<lparr>fstring = ''f'', lineHeight = 12\<rparr>, tl_color = ''c'', tl_text = [''a'', ''b''],
         tl_w = 40, tl_h = 24, tl_d = 0, tl_r = 0\<rparr>) \<and>
   filter is_fill (draw_tl \<lparr>tl_font = \<lparr>fstring = ''f'', lineHeight = 12\<rparr>, tl_color = ''c'', tl_text = [''a'', ''b''],
         tl_w = 40, tl_h = 24, tl_d = 0, tl_r = 0\<rparr> 0 0 0 ''left'' '''') =
     [FillText ''b'' (-20) 6, FillText ''a'' (-20) (-6)]"
  using draw_lines_centered [where me = "\<lparr>tl_font = \<lparr>fstring = ''f'', lineHeight = 12\<rparr>, tl_color = ''c'',
      tl_text = [''a'', ''b''], tl_w = 40, tl_h = 24, tl_d = 0, tl_r = 0\<rparr>" and ax = 0 and ay = 0 and rad = 0
      and align = "''left''" and anchor = "''''"]
  by (simp add: upt_rec)
end
