(* ===== verification/Label.thy ===== *)
theory Label
  imports TickLabel JsObj
begin

text \<open>
  The persistent label element of \<open>src/src/elements/element.label.js\<close>. Its
  state is the record \<open>label\<close>: the position \<open>x\<close>, \<open>y\<close> inherited from
  \<open>Element\<close> (\<open>None\<close> while \<open>undefined\<close>), the rotation \<open>_rotation\<close> in
  radians, the lines \<open>_text\<close>, the cached size \<open>_size\<close> and the options the
  label draws with. The module's \<open>textWidthCache\<close> maps a font string to the
  widths of the lines measured under it; operations that use it take and return it.

  \<open>_size\<close> is \<open>undefined\<close> after construction, \<open>0\<close> after a text change, or
  whatever object a configuration passed to the constructor supplies
  (\<open>Object.assign(this, cfg)\<close> copies any key). A configuration is the list of
  its entries, in key order, over the keys the class reads; the accessors
  \<open>text\<close> and \<open>rotation\<close> are setters on the prototype, so \<open>Object.assign\<close>
  runs them.
\<close>

datatype size_val = SizeUndef | SizeNum real | SizeBox real real

text \<open>
  The options the label reads; keys the user leaves out are \<open>undefined\<close>: a
  missing \<open>font\<close> is \<open>None\<close>, missing strings are \<open>''''\<close> and a missing
  shadow blur is \<open>0\<close> (the canvas ignores assignments of \<open>undefined\<close>).
\<close>

record label_opts =
  lo_align :: string
  lo_font :: "font option"
  lo_color :: string
  lo_textShadowBlur :: real
  lo_textShadowColor :: string

definition empty_opts :: label_opts where
  "empty_opts = \<lparr>lo_align = '''', lo_font = None, lo_color = '''', lo_textShadowBlur = 0, lo_textShadowColor = ''''\<rparr>"

record label =
  l_x :: "real option"
  l_y :: "real option"
  l_rotation :: real
  l_text :: "string list"
  l_size :: size_val
  l_options :: label_opts

type_synonym width_cache = "(string \<times> (string \<times> real) list) list"

text \<open>\<open>Label.id\<close>, \<open>Label.defaults\<close> and \<open>Label.defaultRoutes\<close>, as property tables.\<close>

definition label_id :: string where
  "label_id = ''label''"

definition label_defaults :: "(string \<times> val) list" where
  "label_defaults = [(''align'', Str ''center''), (''anchor'', Str ''center''), (''display'', Bool True)]"

definition label_defaultRoutes :: "(string \<times> val) list" where
  "label_defaultRoutes = [(''backgroundColor'', Str ''color''), (''borderColor'', Str ''color'')]"

text \<open>\<open>set rotation(deg)\<close> and \<open>get rotation()\<close>.\<close>

definition set_rotation :: "label \<Rightarrow> real \<Rightarrow> label" where
  "set_rotation me deg = me\<lparr>l_rotation := toRadians deg\<rparr>"

definition get_rotation :: "label \<Rightarrow> real" where
  "get_rotation me = toDegrees (l_rotation me)"

text \<open>
  The loop of \<open>linesChanged(a, b)\<close> over arrays of equal length: some index
  where the lines differ.
\<close>

fun lines_differ :: "string list \<Rightarrow> string list \<Rightarrow> bool" where
  "lines_differ (x # xs) (y # ys) = (x \<noteq> y \<or> lines_differ xs ys)"
| "lines_differ xs ys = False"

definition linesChanged :: "string list \<Rightarrow> string list \<Rightarrow> bool" where
  "linesChanged a b = (length a \<noteq> length b \<or> lines_differ a b)"

text \<open>\<open>set text(value)\<close> and \<open>get text()\<close>.\<close>

definition set_text :: "label \<Rightarrow> text_arg \<Rightarrow> label" where
  "set_text me value =
     (let old = l_text me; a = lines_of value;
          me1 = (if linesChanged old a then me\<lparr>l_size := SizeNum 0\<rparr> else me)
      in me1\<lparr>l_text := a\<rparr>)"

definition get_text :: "label \<Rightarrow> text_arg" where
  "get_text me = (let a = l_text me in if length a = 1 then TextStr (a ! 0) else TextArr a)"

text \<open>A configuration entry of the constructor, and its assignment by \<open>Object.assign\<close>.\<close>

datatype cfg_entry =
    CfgX real | CfgY real | CfgText text_arg | CfgRotation real
  | CfgOptions label_opts | CfgSize real real

fun assign_entry :: "label \<Rightarrow> cfg_entry \<Rightarrow> label" where
  "assign_entry me (CfgX x) = me\<lparr>l_x := Some x\<rparr>"
| "assign_entry me (CfgY y) = me\<lparr>l_y := Some y\<rparr>"
| "assign_entry me (CfgText v) = set_text me v"
| "assign_entry me (CfgRotation d) = set_rotation me d"
| "assign_entry me (CfgOptions opts) = me\<lparr>l_options := opts\<rparr>"
| "assign_entry me (CfgSize w h) = me\<lparr>l_size := SizeBox w h\<rparr>"

text \<open>\<open>new Label(cfg)\<close>: a missing configuration is \<open>None\<close>.\<close>

definition Label :: "cfg_entry list option \<Rightarrow> label" where
  "Label cfg =
     (let me = \<lparr>l_x = None, l_y = None, l_rotation = 0, l_text = [], l_size = SizeUndef, l_options = empty_opts\<rparr>
      in case cfg of None \<Rightarrow> me | Some entries \<Rightarrow> foldl assign_entry me entries)"

text \<open>
  \<open>rotatedSize(size, rotation)\<close>: \<open>undefined.width\<close> throws; the number
  \<open>0\<close> has no \<open>width\<close>, so both results are \<open>NaN\<close> (\<open>None\<close>).
\<close>

definition rotatedSize :: "size_val \<Rightarrow> real \<Rightarrow> js_error + (real \<times> real) option" where
  "rotatedSize sz rotation =
     (case sz of
        SizeUndef \<Rightarrow> Inl (TypeError ''Cannot read property width of undefined'')
      | SizeNum n \<Rightarrow> Inr None
      | SizeBox width height \<Rightarrow>
          (let sin = sin rotation; cos = cos rotation; halfWidth = width / 2; halfHeight = height / 2
           in Inr (Some (sin * halfHeight + cos * halfWidth, cos * halfHeight + sin * halfWidth))))"

text \<open>
  \<open>getCenterPoint(useFinalPosition)\<close>: \<open>getProps\<close> of \<open>Element\<close> reads
  \<open>x\<close>, \<open>y\<close> and the \<open>rotation\<close> accessor (no animation is running in this
  model, so the final position is the current one).
\<close>

definition getCenterPoint :: "label \<Rightarrow> js_error + (real option \<times> real option \<times> (real \<times> real) option)" where
  "getCenterPoint me =
     (let x = l_x me; y = l_y me; rotation = get_rotation me
      in sbind (rotatedSize (l_size me) rotation) (\<lambda>sz. Inr (x, y, sz)))"

text \<open>
  \<open>_measure(ctx)\<close>: the width cache of the font (created when absent), a width
  per line, and the widest line and the height of the lines. The cache is an
  object literal: \<open>cache[line]\<close> is an own width, else the inherited
  \<open>Object.prototype\<close> member of that name (\<open>inherited\<close>), else \<open>undefined\<close>.
  A falsy width (\<open>undefined\<close>, or a cached \<open>0\<close>) is measured and stored; an
  inherited member is truthy, so it is neither measured nor stored, and
  \<open>Math.max\<close> of it is \<open>NaN\<close>. The width is \<open>None\<close> for \<open>NaN\<close>. A missing
  font throws. A font string is a CSS font descriptor, never the name of an
  \<open>Object.prototype\<close> member, so \<open>textWidthCache[fontString]\<close> finds an own
  cache or nothing.
\<close>

definition measure_line ::
  "measure \<Rightarrow> string \<Rightarrow> (string \<times> real) list \<times> real option \<Rightarrow> string \<Rightarrow> (string \<times> real) list \<times> real option" where
  "measure_line mt f cw line =
     (let (cache, width) = cw;
          store = (AList.update line (mt f line) cache, Some (mt f line));
          (cache', lineWidth) = (case map_of cache line of
                                   Some w \<Rightarrow> if w \<noteq> 0 then (cache, Some w) else store
                                 | None \<Rightarrow> if inherited line then (cache, None) else store)
      in (cache', js_max lineWidth width))"

definition measure_label ::
  "measure \<Rightarrow> width_cache \<Rightarrow> label \<Rightarrow> js_error + ((real option \<times> real) \<times> width_cache)" where
  "measure_label mt wc me =
     (case lo_font (l_options me) of
        None \<Rightarrow> Inl (TypeError ''Cannot read property string of undefined'')
      | Some font \<Rightarrow>
          (let fontString = fstring font;
               cache = (case map_of wc fontString of Some c \<Rightarrow> c | None \<Rightarrow> []);
               lines = l_text me;
               height = real (length lines) * lineHeight font;
               (cache', width) = foldl (measure_line mt fontString) (cache, Some 0) lines
           in Inr ((width, height), AList.update fontString cache' wc)))"

text \<open>\<open>setStyle(ctx, options)\<close>: the commands it issues, once the font is known.\<close>

definition setStyle :: "label_opts \<Rightarrow> font \<Rightarrow> canvas_cmd list" where
  "setStyle options font =
     [SetFont (fstring font), SetFillStyle (lo_color options), SetTextBaseline ''middle'',
      SetTextAlign (lo_align options), SetShadowBlur (lo_textShadowBlur options),
      SetShadowColor (lo_textShadowColor options)]"

text \<open>
  \<open>draw(ctx)\<close>: the commands it issues and the width cache after it. Reading
  \<open>options.font.lineHeight\<close> throws when there is no font. The size is
  \<open>_size\<close> when that is an object, else measured. The canvas ignores
  \<open>translate\<close> and \<open>fillText\<close> calls with a coordinate that is \<open>undefined\<close> or
  \<open>NaN\<close> (they return without effect), so those calls are no commands: no
  \<open>translate\<close> while the position is unset, and no \<open>fillText\<close> when the
  alignment offset \<open>size.width / \<plusminus>2\<close> is \<open>NaN\<close>.
\<close>

definition draw :: "measure \<Rightarrow> width_cache \<Rightarrow> label \<Rightarrow> js_error + (canvas_cmd list \<times> width_cache)" where
  "draw mt wc me =
     (let options = l_options me; align = lo_align options
      in case lo_font options of
           None \<Rightarrow> Inl (TypeError ''Cannot read property lineHeight of undefined'')
         | Some font \<Rightarrow>
             (let lineHeight = lineHeight font;
                  rotation = l_rotation me;
                  lines = l_text me;
                  start = [Save] @ (case (l_x me, l_y me) of (Some x, Some y) \<Rightarrow> [Translate x y] | _ \<Rightarrow> [])
                          @ [Rotate rotation] @ setStyle options font
              in sbind (case l_size me of
                          SizeBox w h \<Rightarrow> Inr ((Some w, h), wc)
                        | _ \<Rightarrow> measure_label mt wc me)
                   (\<lambda>((width, height), wc').
                      let x = (if align = ''left'' then map_option (\<lambda>w. w / -2) width
                               else if align = ''right'' then map_option (\<lambda>w. w / 2) width else Some 0)
                      in Inr (start @ (case x of Some x \<Rightarrow> fill_lines x (height - lineHeight) lineHeight (rev lines)
                                                | None \<Rightarrow> []), wc'))))"

text \<open>
  The width caches agree with the context, under names the cache objects do not
  inherit (the code never stores under one).
\<close>

definition wcache_ok :: "measure \<Rightarrow> width_cache \<Rightarrow> bool" where
  "wcache_ok mt wc \<longleftrightarrow> (\<forall>(f, c) \<in> set wc. \<forall>(s, w) \<in> set c. w = mt f s \<and> \<not> inherited s)"

text \<open>
  The labels a program can make without supplying \<open>_size\<close> in the
  configuration: construction, then any sequence of setter calls and position
  changes. Drawing and querying do not change the label.
\<close>

fun no_size_cfg :: "cfg_entry \<Rightarrow> bool" where
  "no_size_cfg (CfgSize w h) = False"
| "no_size_cfg e = True"

inductive label_reach :: "label \<Rightarrow> bool" where
  create: "list_all no_size_cfg cfg \<Longrightarrow> label_reach (Label (Some cfg))"
| create_none: "label_reach (Label None)"
| set_txt: "label_reach me \<Longrightarrow> label_reach (set_text me v)"
| set_rot: "label_reach me \<Longrightarrow> label_reach (set_rotation me d)"
| move: "label_reach me \<Longrightarrow> label_reach (me\<lparr>l_x := x, l_y := y\<rparr>)"
| set_opts: "label_reach me \<Longrightarrow> label_reach (me\<lparr>l_options := opts\<rparr>)"

text \<open>The widths of one font's cache agree with the context.\<close>

definition widths_ok :: "measure \<Rightarrow> string \<Rightarrow> (string \<times> real) list \<Rightarrow> bool" where
  "widths_ok mt f c \<longleftrightarrow> (\<forall>(s, w) \<in> set c. w = mt f s \<and> \<not> inherited s)"


subsection \<open>Lemmas\<close>

lemma lines_differ_iff: "length a = length b \<Longrightarrow> lines_differ a b \<longleftrightarrow> a \<noteq> b"
  by (induction a b rule: lines_differ.induct) auto

lemma linesChanged_iff: "linesChanged a b \<longleftrightarrow> a \<noteq> b"
  using lines_differ_iff by (auto simp: linesChanged_def)

lemma js_max_Some [simp]: "js_max (Some x) l = map_option (max x) l"
  by (cases l) (simp_all add: js_max_def)

lemma js_max_None [simp]: "js_max None l = None"
  by (simp add: js_max_def)

lemma widths_ok_not_inherited: "widths_ok mt f c \<Longrightarrow> map_of c s = Some w \<Longrightarrow> w = mt f s \<and> \<not> inherited s"
  by (auto simp: widths_ok_def dest: map_of_SomeD)

lemma measure_line_ok:
  assumes ok: "widths_ok mt f c" and r: "measure_line mt f (c, l) s = (c', l')"
  shows "widths_ok mt f c' \<and> l' = (if inherited s then None else map_option (max (mt f s)) l)"
proof -
  have up: "\<not> inherited s \<Longrightarrow> widths_ok mt f (AList.update s (mt f s) c)"
    using ok set_update_subset [of s "mt f s" c] by (auto simp: widths_ok_def)
  show ?thesis
  proof (cases "map_of c s")
    case None
    with r up ok show ?thesis by (cases "inherited s") (auto simp: measure_line_def)
  next
    case (Some w)
    with widths_ok_not_inherited [OF ok] have w: "w = mt f s" "\<not> inherited s" by auto
    with Some r up ok show ?thesis by (cases "w = 0") (auto simp: measure_line_def)
  qed
qed

lemma foldl_measure_line:
  "widths_ok mt f c \<Longrightarrow> foldl (measure_line mt f) (c, l) ss = (c', l') \<Longrightarrow>
   widths_ok mt f c' \<and> l' = (if list_ex inherited ss then None else map_option (\<lambda>x. foldl max x (map (mt f) ss)) l)"
proof (induction ss arbitrary: c l)
  case Nil then show ?case by (simp add: option.map_ident)
next
  case (Cons s ss)
  obtain c1 l1 where m: "measure_line mt f (c, l) s = (c1, l1)" by fastforce
  from measure_line_ok [OF Cons.prems(1) m] have ok1: "widths_ok mt f c1"
    and l1: "l1 = (if inherited s then None else map_option (max (mt f s)) l)" by auto
  from Cons.prems(2) m have "foldl (measure_line mt f) (c1, l1) ss = (c', l')" by simp
  from Cons.IH [OF ok1 this] l1 show ?case by (cases l) (auto simp: max.commute)
qed

lemma wcache_ok_update:
  assumes "wcache_ok mt wc" and "widths_ok mt f c"
  shows "wcache_ok mt (AList.update f c wc)"
proof -
  have all: "\<forall>(a, b) \<in> insert (f, c) (set wc). \<forall>(s, w) \<in> set b. w = mt a s \<and> \<not> inherited s"
    using assms by (auto simp: wcache_ok_def widths_ok_def)
  show ?thesis unfolding wcache_ok_def
  proof
    fix p assume "p \<in> set (AList.update f c wc)"
    with set_update_subset [of f c wc] have "p \<in> insert (f, c) (set wc)" by blast
    with all show "case p of (f, c) \<Rightarrow> \<forall>(s, w) \<in> set c. w = mt f s \<and> \<not> inherited s" by blast
  qed
qed

lemma update_present: "map_of xs k = Some v \<Longrightarrow> AList.update k v xs = xs"
  by (induction xs) (auto split: if_splits)

lemma measure_line_caches:
  assumes ok: "widths_ok mt f c" and r: "measure_line mt f (c, l) s = (c', l')"
  shows "(\<not> inherited s \<longrightarrow> map_of c' s = Some (mt f s)) \<and>
         (\<forall>t. map_of c t = Some (mt f t) \<longrightarrow> map_of c' t = Some (mt f t))"
proof (cases "map_of c s")
  case None
  then show ?thesis using r by (cases "inherited s") (auto simp: measure_line_def update_conv')
next
  case (Some w)
  with widths_ok_not_inherited [OF ok] have "w = mt f s" by blast
  with Some r show ?thesis by (cases "w = 0") (auto simp: measure_line_def update_conv')
qed

lemma foldl_measure_line_caches:
  "widths_ok mt f c \<Longrightarrow> foldl (measure_line mt f) (c, l) ss = (c', l') \<Longrightarrow>
   (\<forall>s \<in> set ss. \<not> inherited s \<longrightarrow> map_of c' s = Some (mt f s)) \<and>
   (\<forall>t. map_of c t = Some (mt f t) \<longrightarrow> map_of c' t = Some (mt f t))"
proof (induction ss arbitrary: c l)
  case Nil then show ?case by simp
next
  case (Cons s ss)
  obtain c1 l1 where m: "measure_line mt f (c, l) s = (c1, l1)" by fastforce
  from measure_line_ok [OF Cons.prems(1) m] have ok1: "widths_ok mt f c1" by simp
  from measure_line_caches [OF Cons.prems(1) m]
  have c1: "\<not> inherited s \<longrightarrow> map_of c1 s = Some (mt f s)"
    "\<forall>t. map_of c t = Some (mt f t) \<longrightarrow> map_of c1 t = Some (mt f t)" by auto
  from Cons.prems(2) m have "foldl (measure_line mt f) (c1, l1) ss = (c', l')" by simp
  from Cons.IH [OF ok1 this] c1 show ?case by auto
qed

text \<open>A cache holding every line it may hold is left as it is.\<close>

lemma measure_line_keeps:
  assumes ok: "widths_ok mt f c" and has: "\<not> inherited s \<longrightarrow> map_of c s = Some (mt f s)"
  shows "fst (measure_line mt f (c, l) s) = c"
proof (cases "inherited s")
  case True
  then have "map_of c s = None" using widths_ok_not_inherited [OF ok] by (cases "map_of c s") auto
  with True show ?thesis by (simp add: measure_line_def)
next
  case False
  with has show ?thesis by (simp add: measure_line_def update_present)
qed

lemma foldl_measure_line_fixed:
  "widths_ok mt f c \<Longrightarrow> \<forall>s \<in> set ss. \<not> inherited s \<longrightarrow> map_of c s = Some (mt f s) \<Longrightarrow>
   fst (foldl (measure_line mt f) (c, l) ss) = c"
proof (induction ss arbitrary: l)
  case Nil then show ?case by simp
next
  case (Cons s ss)
  obtain l1 where "measure_line mt f (c, l) s = (c, l1)"
    using measure_line_keeps [OF Cons.prems(1), of s l] Cons.prems(2) by (metis list.set_intros(1) prod.collapse)
  with Cons show ?case by simp
qed

lemma wcache_ok_font:
  assumes ok: "wcache_ok mt wc"
  shows "widths_ok mt f (case map_of wc f of Some c \<Rightarrow> c | None \<Rightarrow> [])"
proof (cases "map_of wc f")
  case None then show ?thesis by (simp add: widths_ok_def)
next
  case (Some c0)
  then have "(f, c0) \<in> set wc" by (rule map_of_SomeD)
  with ok Some show ?thesis by (auto simp: widths_ok_def wcache_ok_def)
qed

lemma measure_label_correct:
  assumes ok: "wcache_ok mt wc" and font: "lo_font (l_options me) = Some font"
  shows "\<exists>wc'. measure_label mt wc me =
           Inr ((if list_ex inherited (l_text me) then None else Some (foldl max 0 (map (mt (fstring font)) (l_text me))),
                 real (length (l_text me)) * lineHeight font), wc')
         \<and> wcache_ok mt wc'"
proof -
  let ?f = "fstring font"
  define c where "c = (case map_of wc ?f of Some c \<Rightarrow> c | None \<Rightarrow> [])"
  have c: "widths_ok mt ?f c" unfolding c_def using ok by (rule wcache_ok_font)
  obtain c' l where m: "foldl (measure_line mt ?f) (c, Some 0) (l_text me) = (c', l)" by fastforce
  from foldl_measure_line [OF c m] have c': "widths_ok mt ?f c'"
    and l: "l = (if list_ex inherited (l_text me) then None else Some (foldl max 0 (map (mt ?f) (l_text me))))"
    by auto
  have "wcache_ok mt (AList.update ?f c' wc)" using ok c' by (rule wcache_ok_update)
  with m l font ok show ?thesis by (auto simp: measure_label_def c_def Let_def split: option.split)
qed

lemma measure_label_returns:
  "lo_font (l_options me) = Some font \<Longrightarrow> \<exists>r. measure_label mt wc me = Inr r"
  by (simp add: measure_label_def Let_def split: prod.split)

lemma assign_entry_size:
  "no_size_cfg e \<Longrightarrow> l_size me = SizeUndef \<or> l_size me = SizeNum 0 \<Longrightarrow>
   l_size (assign_entry me e) = SizeUndef \<or> l_size (assign_entry me e) = SizeNum 0"
  by (cases e) (auto simp: set_text_def set_rotation_def Let_def)

lemma foldl_assign_size:
  "list_all no_size_cfg cfg \<Longrightarrow> l_size me = SizeUndef \<or> l_size me = SizeNum 0 \<Longrightarrow>
   l_size (foldl assign_entry me cfg) = SizeUndef \<or> l_size (foldl assign_entry me cfg) = SizeNum 0"
  by (induction cfg arbitrary: me) (simp_all add: assign_entry_size)

lemma label_reach_size:
  "label_reach me \<Longrightarrow> l_size me = SizeUndef \<or> l_size me = SizeNum 0"
proof (induction rule: label_reach.induct)
  case (create cfg) then show ?case by (simp add: Label_def foldl_assign_size)
next
  case create_none then show ?case by (simp add: Label_def)
next
  case (set_txt me v) then show ?case by (auto simp: set_text_def Let_def)
next
  case (set_rot me d) then show ?case by (simp add: set_rotation_def)
next
  case (move me x y) then show ?case by simp
next
  case (set_opts me opts) then show ?case by simp
qed

lemma start_no_restore:
  "Restore \<notin> set ([Save] @ (case xy of (Some x, Some y) \<Rightarrow> [Translate x y] | _ \<Rightarrow> []) @ [Rotate r] @ setStyle o' f)"
  by (auto simp: setStyle_def split: option.splits prod.splits)



subsection \<open>Properties\<close>

text \<open>
  C5. Setting \<open>text\<close> (specification section 8): the lines become the new
  value, a string as one line; the cached size is kept when the lines are equal in
  number and content and is marked stale (\<open>0\<close>) otherwise.
\<close>

theorem set_text_size:
  "l_text (set_text me v) = lines_of v \<and>
   l_size (set_text me v) = (if l_text me = lines_of v then l_size me else SizeNum 0)"
  by (simp add: set_text_def Let_def linesChanged_iff)

text \<open>
  C16. Reading \<open>text\<close> after setting it gives the value back, except for a
  one-line array, which reads back as its string.
\<close>

theorem text_roundtrip:
  "(\<forall>s. v \<noteq> TextArr [s]) \<Longrightarrow> get_text (set_text me v) = v"
  by (cases v) (auto simp: get_text_def set_text_def Let_def lines_of_def length_Suc_conv)

theorem text_roundtrip_witness:
  "(\<forall>s. TextArr [''a'', ''b''] \<noteq> TextArr [s]) \<and> get_text (set_text (Label None) (TextArr [''a'', ''b''])) = TextArr [''a'', ''b'']"
  using text_roundtrip [of "TextArr [''a'', ''b'']" "Label None"] by simp

text \<open>
  C15. The cached \<open>_measure\<close> is the uncached one, with the flaw of its cache
  object: with a width cache that agrees with the context, it returns the widest
  measured line and the height of the lines, and the cache still agrees
  afterwards; but a line named like an \<open>Object.prototype\<close> member
  (\<open>''constructor''\<close>, \<open>''toString''\<close>, ...) reads the inherited function from
  the cache and makes the width \<open>NaN\<close>.
\<close>

theorem measure_label_equiv:
  assumes "wcache_ok mt wc" and "lo_font (l_options me) = Some font"
    and "measure_label mt wc me = Inr ((w, h), wc')"
  shows "w = (if list_ex inherited (l_text me) then None
              else Some (foldl max 0 (map (mt (fstring font)) (l_text me)))) \<and>
         h = real (length (l_text me)) * lineHeight font \<and> wcache_ok mt wc'"
  using measure_label_correct [OF assms(1,2)] assms(3) by auto

text \<open>
  C6. Contrary to the specification (section 5), the label's \<open>draw\<close> saves the
  context and never restores it: every successful draw leaves one more saved
  state, with the translation, rotation and style still applied.
\<close>

theorem draw_no_restore:
  assumes "lo_font (l_options me) = Some font"
  shows "\<exists>cmds wc'. draw mt wc me = Inr (cmds, wc') \<and> hd cmds = Save \<and>
           count_list cmds Save = 1 \<and> count_list cmds Restore = 0"
proof -
  let ?start = "[Save] @ (case (l_x me, l_y me) of (Some x, Some y) \<Rightarrow> [Translate x y] | _ \<Rightarrow> [])
                @ [Rotate (l_rotation me)] @ setStyle (l_options me) font"
  have s: "count_list ?start Save = 1" "Restore \<notin> set ?start"
    using start_no_restore [of "(l_x me, l_y me)" "l_rotation me" "l_options me" font]
    by (auto simp: setStyle_def count_list_absent split: option.splits)
  obtain wh wc' where m: "(case l_size me of SizeBox w h \<Rightarrow> Inr ((Some w, h), wc) | _ \<Rightarrow> measure_label mt wc me) = Inr (wh, wc')"
    using measure_label_returns [OF assms, of mt wc] by (cases "l_size me") auto
  show ?thesis
    using m s fill_lines_no_save assms
    by (auto simp: draw_def Let_def count_list_absent split: prod.splits option.split)
qed

theorem measure_label_equiv_witness:
  "wcache_ok (\<lambda>f s. 4 * real (length s)) [] \<and>
   lo_font (l_options (Label (Some [CfgOptions (empty_opts\<lparr>lo_font := Some \<lparr>fstring = ''12px a'', lineHeight = 12\<rparr>\<rparr>),
                                     CfgText (TextArr [''ab'', ''abcd''])]))) = Some \<lparr>fstring = ''12px a'', lineHeight = 12\<rparr> \<and>
   (\<exists>wc'. measure_label (\<lambda>f s. 4 * real (length s)) []
            (Label (Some [CfgOptions (empty_opts\<lparr>lo_font := Some \<lparr>fstring = ''12px a'', lineHeight = 12\<rparr>\<rparr>),
                          CfgText (TextArr [''ab'', ''abcd''])])) = Inr ((Some 16, 24), wc') \<and>
          wcache_ok (\<lambda>f s. 4 * real (length s)) wc')"
proof -
  let ?mt = "\<lambda>f s. 4 * real (length s) :: real"
  let ?font = "\<lparr>fstring = ''12px a'', lineHeight = 12\<rparr>"
  let ?me = "Label (Some [CfgOptions (empty_opts\<lparr>lo_font := Some ?font\<rparr>), CfgText (TextArr [''ab'', ''abcd''])])"
  have ok: "wcache_ok ?mt []" by (simp add: wcache_ok_def)
  have f: "lo_font (l_options ?me) = Some ?font" by (simp add: Label_def set_text_def Let_def)
  have t: "l_text ?me = [''ab'', ''abcd'']" by (simp add: Label_def set_text_def Let_def lines_of_def)
  obtain w h wc' where r: "measure_label ?mt [] ?me = Inr ((w, h), wc')"
    using measure_label_returns [OF f, of ?mt "[]"] by auto
  from measure_label_equiv [OF ok f r] t have "w = Some 16" "h = 24" "wcache_ok ?mt wc'"
    by (simp_all add: inherited_def object_proto_keys_def)
  with ok f r show ?thesis by blast
qed

theorem draw_no_restore_witness:
  "lo_font (l_options (Label (Some [CfgOptions (empty_opts\<lparr>lo_font := Some \<lparr>fstring = ''12px a'', lineHeight = 12\<rparr>\<rparr>)]))) =
     Some \<lparr>fstring = ''12px a'', lineHeight = 12\<rparr> \<and>
   (\<exists>cmds wc'. draw (\<lambda>f s. 4 * real (length s)) []
        (Label (Some [CfgOptions (empty_opts\<lparr>lo_font := Some \<lparr>fstring = ''12px a'', lineHeight = 12\<rparr>\<rparr>)])) = Inr (cmds, wc') \<and>
      hd cmds = Save \<and> count_list cmds Save = 1 \<and> count_list cmds Restore = 0)"
proof -
  have f: "lo_font (l_options (Label (Some [CfgOptions (empty_opts\<lparr>lo_font := Some \<lparr>fstring = ''12px a'', lineHeight = 12\<rparr>\<rparr>)]))) =
     Some \<lparr>fstring = ''12px a'', lineHeight = 12\<rparr>" by (simp add: Label_def)
  from draw_no_restore [OF f, of "\<lambda>f s. 4 * real (length s)" "[]"] f show ?thesis by blast
qed

text \<open>
  C27. \<open>draw\<close> throws a \<open>TypeError\<close> when the options have no font, as those of a
  label fresh from \<open>new Label()\<close> (\<open>options = {}\<close>) do.
\<close>

theorem draw_no_font:
  "lo_font (l_options me) = None \<Longrightarrow> \<exists>m. draw mt wc me = Inl (TypeError m)"
  by (simp add: draw_def Let_def)

theorem draw_no_font_witness:
  "lo_font (l_options (Label None)) = None \<and> (\<exists>m. draw (\<lambda>f s. 0) [] (Label None) = Inl (TypeError m))"
  using draw_no_font [of "Label None" "\<lambda>f s. 0" "[]"] by (simp add: Label_def empty_opts_def)

text \<open>
  C7. The size \<open>getCenterPoint\<close> returns is never a size: \<open>_size\<close> is only ever
  \<open>undefined\<close> or \<open>0\<close> on a label made without a \<open>_size\<close> in its
  configuration, since no operation stores the measured size; so the query throws
  (\<open>undefined.width\<close>) or returns a \<open>NaN\<close> size.
\<close>

theorem getCenterPoint_never_sized:
  "label_reach me \<Longrightarrow>
   (\<exists>m. getCenterPoint me = Inl (TypeError m)) \<or> getCenterPoint me = Inr (l_x me, l_y me, None)"
  using label_reach_size [of me] by (auto simp: getCenterPoint_def rotatedSize_def Let_def)

theorem getCenterPoint_never_sized_witness:
  "label_reach (Label (Some [CfgText (TextStr ''a''), CfgX 1, CfgY 2])) \<and>
   ((\<exists>m. getCenterPoint (Label (Some [CfgText (TextStr ''a''), CfgX 1, CfgY 2])) = Inl (TypeError m)) \<or>
    getCenterPoint (Label (Some [CfgText (TextStr ''a''), CfgX 1, CfgY 2])) =
      Inr (l_x (Label (Some [CfgText (TextStr ''a''), CfgX 1, CfgY 2])),
           l_y (Label (Some [CfgText (TextStr ''a''), CfgX 1, CfgY 2])), None))"
proof -
  have r: "label_reach (Label (Some [CfgText (TextStr ''a''), CfgX 1, CfgY 2]))"
    by (rule label_reach.create) simp
  from getCenterPoint_never_sized [OF r] r show ?thesis by blast
qed



text \<open>
  C29. \<open>rotatedSize\<close> drops the absolute values and halves the box: a box turned
  by \<open>\<pi>\<close> comes out with negative half width and half height, where the rotated
  bounding box (specification section 4.4) is the box itself.
\<close>

theorem rotatedSize_half_negative:
  "rotatedSize (SizeBox w h) pi = Inr (Some (- (w / 2), - (h / 2)))"
  by (simp add: rotatedSize_def)

text \<open>
  C30. The width cache of \<open>_measure\<close> settles after one call: afterwards the
  cache of the label's font holds every line of its text with its measured
  width (but the lines named like \<open>Object.prototype\<close> members, which are never
  stored), and measuring again gives the same size and leaves the cache as it is.
\<close>

theorem measure_label_settles:
  assumes ok: "wcache_ok mt wc" and font: "lo_font (l_options me) = Some font"
    and r: "measure_label mt wc me = Inr (sz, wc')"
  shows "(\<exists>c. map_of wc' (fstring font) = Some c \<and>
              (\<forall>s \<in> set (l_text me). \<not> inherited s \<longrightarrow> map_of c s = Some (mt (fstring font) s))) \<and>
         measure_label mt wc' me = Inr (sz, wc')"
proof -
  let ?f = "fstring font"
  define c where "c = (case map_of wc ?f of Some c \<Rightarrow> c | None \<Rightarrow> [])"
  have c: "widths_ok mt ?f c" unfolding c_def using ok by (rule wcache_ok_font)
  obtain c' l where m: "foldl (measure_line mt ?f) (c, Some 0) (l_text me) = (c', l)" by fastforce
  from foldl_measure_line [OF c m] have c': "widths_ok mt ?f c'"
    and l: "l = (if list_ex inherited (l_text me) then None else Some (foldl max 0 (map (mt ?f) (l_text me))))"
    by auto
  from foldl_measure_line_caches [OF c m]
  have all: "\<forall>s \<in> set (l_text me). \<not> inherited s \<longrightarrow> map_of c' s = Some (mt ?f s)" by simp
  from r m font have sz: "sz = (l, real (length (l_text me)) * lineHeight font)"
    and wc': "wc' = AList.update ?f c' wc" by (auto simp: measure_label_def c_def Let_def)
  have look: "map_of wc' ?f = Some c'" by (simp add: wc' update_conv')
  obtain c2 l2 where m2: "foldl (measure_line mt ?f) (c', Some 0) (l_text me) = (c2, l2)" by fastforce
  from foldl_measure_line [OF c' m2] l have "l2 = l" by simp
  moreover from foldl_measure_line_fixed [OF c' all, of "Some 0"] m2 have "c2 = c'" by simp
  ultimately have "measure_label mt wc' me = Inr (sz, AList.update ?f c' wc')"
    using m2 by (simp add: measure_label_def font look sz Let_def)
  with look all show ?thesis by (simp add: update_present)
qed

theorem measure_label_settles_witness:
  "wcache_ok (\<lambda>f s. 4 * real (length s)) [] \<and>
   lo_font (l_options (Label (Some [CfgOptions (empty_opts\<lparr>lo_font := Some \<lparr>fstring = ''12px a'', lineHeight = 12\<rparr>\<rparr>),
                                     CfgText (TextArr [''ab'', ''toString''])]))) = Some \<lparr>fstring = ''12px a'', lineHeight = 12\<rparr> \<and>
   measure_label (\<lambda>f s. 4 * real (length s)) []
     (Label (Some [CfgOptions (empty_opts\<lparr>lo_font := Some \<lparr>fstring = ''12px a'', lineHeight = 12\<rparr>\<rparr>),
                   CfgText (TextArr [''ab'', ''toString''])])) = Inr ((None, 24), [(''12px a'', [(''ab'', 8)])]) \<and>
   map_of [(''ab'', (8::real))] ''ab'' = Some 8 \<and>
   measure_label (\<lambda>f s. 4 * real (length s)) [(''12px a'', [(''ab'', 8)])]
     (Label (Some [CfgOptions (empty_opts\<lparr>lo_font := Some \<lparr>fstring = ''12px a'', lineHeight = 12\<rparr>\<rparr>),
                   CfgText (TextArr [''ab'', ''toString''])])) = Inr ((None, 24), [(''12px a'', [(''ab'', 8)])])"
proof -
  let ?mt = "\<lambda>f s. 4 * real (length s) :: real"
  let ?font = "\<lparr>fstring = ''12px a'', lineHeight = 12\<rparr>"
  let ?me = "Label (Some [CfgOptions (empty_opts\<lparr>lo_font := Some ?font\<rparr>), CfgText (TextArr [''ab'', ''toString''])])"
  have ok: "wcache_ok ?mt []" by (simp add: wcache_ok_def)
  have f: "lo_font (l_options ?me) = Some ?font" by (simp add: Label_def set_text_def Let_def)
  have r: "measure_label ?mt [] ?me = Inr ((None, 24), [(''12px a'', [(''ab'', 8)])])"
    by (simp add: measure_label_def measure_line_def js_max_def inherited_def object_proto_keys_def
        Label_def set_text_def Let_def lines_of_def)
  from measure_label_settles [OF ok f r] ok f r show ?thesis by simp
qed

text \<open>
  C10. A label one of whose lines is named like an \<open>Object.prototype\<close> member,
  drawn at its measured size with \<open>align\<close> \<open>'left'\<close> or \<open>'right'\<close>, paints
  none of its lines: the width is \<open>NaN\<close>, so is every \<open>fillText\<close> x coordinate,
  and the canvas ignores those calls.
\<close>

theorem draw_inherited_line_blank:
  assumes ok: "wcache_ok mt wc" and font: "lo_font (l_options me) = Some font"
    and unsized: "\<forall>w h. l_size me \<noteq> SizeBox w h" and inh: "list_ex inherited (l_text me)"
    and align: "lo_align (l_options me) \<in> {''left'', ''right''}"
  shows "\<exists>cmds wc'. draw mt wc me = Inr (cmds, wc') \<and> (\<forall>t x y. FillText t x y \<notin> set cmds)"
proof -
  obtain h wc' where m: "measure_label mt wc me = Inr ((None, h), wc')"
    using measure_label_correct [OF ok font] inh by auto
  have sz: "(case l_size me of SizeBox w h \<Rightarrow> Inr ((Some w, h), wc) | _ \<Rightarrow> measure_label mt wc me) =
            Inr ((None, h), wc')"
    using m unsized by (cases "l_size me") auto
  show ?thesis using sz font align
    by (auto simp: draw_def Let_def setStyle_def split: option.splits prod.splits)
qed

theorem draw_inherited_line_blank_witness:
  "wcache_ok (\<lambda>f s. 4 * real (length s)) [] \<and>
   lo_font (l_options (Label (Some [CfgOptions (empty_opts\<lparr>lo_align := ''left'', lo_font := Some \<lparr>fstring = ''12px a'', lineHeight = 12\<rparr>\<rparr>),
                                     CfgText (TextArr [''ab'', ''constructor''])]))) = Some \<lparr>fstring = ''12px a'', lineHeight = 12\<rparr> \<and>
   (\<forall>w h. l_size (Label (Some [CfgOptions (empty_opts\<lparr>lo_align := ''left'', lo_font := Some \<lparr>fstring = ''12px a'', lineHeight = 12\<rparr>\<rparr>),
                                  CfgText (TextArr [''ab'', ''constructor''])])) \<noteq> SizeBox w h) \<and>
   list_ex inherited (l_text (Label (Some [CfgOptions (empty_opts\<lparr>lo_align := ''left'', lo_font := Some \<lparr>fstring = ''12px a'', lineHeight = 12\<rparr>\<rparr>),
                                          CfgText (TextArr [''ab'', ''constructor''])]))) \<and>
   lo_align (l_options (Label (Some [CfgOptions (empty_opts\<lparr>lo_align := ''left'', lo_font := Some \<lparr>fstring = ''12px a'', lineHeight = 12\<rparr>\<rparr>),
                                     CfgText (TextArr [''ab'', ''constructor''])]))) \<in> {''left'', ''right''} \<and>
   (\<exists>cmds wc'. draw (\<lambda>f s. 4 * real (length s)) []
        (Label (Some [CfgOptions (empty_opts\<lparr>lo_align := ''left'', lo_font := Some \<lparr>fstring = ''12px a'', lineHeight = 12\<rparr>\<rparr>),
                      CfgText (TextArr [''ab'', ''constructor''])])) = Inr (cmds, wc') \<and>
      (\<forall>t x y. FillText t x y \<notin> set cmds))"
proof -
  let ?mt = "\<lambda>f s. 4 * real (length s) :: real"
  let ?font = "\<lparr>fstring = ''12px a'', lineHeight = 12\<rparr>"
  let ?me = "Label (Some [CfgOptions (empty_opts\<lparr>lo_align := ''left'', lo_font := Some ?font\<rparr>),
                          CfgText (TextArr [''ab'', ''constructor''])])"
  have ok: "wcache_ok ?mt []" by (simp add: wcache_ok_def)
  have f: "lo_font (l_options ?me) = Some ?font" by (simp add: Label_def set_text_def Let_def)
  have u: "\<forall>w h. l_size ?me \<noteq> SizeBox w h" by (simp add: Label_def set_text_def Let_def)
  have i: "list_ex inherited (l_text ?me)"
    by (simp add: Label_def set_text_def Let_def lines_of_def inherited_def object_proto_keys_def)
  have a: "lo_align (l_options ?me) \<in> {''left'', ''right''}" by (simp add: Label_def set_text_def Let_def)
  from draw_inherited_line_blank [OF ok f u i a] ok f u i a show ?thesis by blast
qed

end
