(* ===== verification/Spec2Isabelle.thy ===== *)
theory Spec2Isabelle
  imports Config Label
begin

text \<open>
  \<^bold>\<open>A verification library for the Chart.js configuration engine and label geometry.\<close>

  The program has two halves. The configuration engine in
  \<open>src/src/core/core.config.js\<close> gives a chart's options their defaults by
  linking JavaScript prototypes, never by copying. It has an axis resolver (lines
  5--41), an option inheritance engine (lines 43--173) and the \<open>Config\<close> facade
  (lines 175--224). The label geometry sizes, places and paints rotated text:
  \<open>src/src/core/core.tickLabel.js\<close> for tick labels (a 2.x CommonJS module
  that measures through \<open>helpers.longestText\<close>) and
  \<open>src/src/elements/element.label.js\<close> for the persistent label element.

  \<^bold>\<open>Theories.\<close>
  \<^item> \<open>Prelude\<close>: the exception monads \<open>sbind\<close> (\<open>'e + 'a\<close>) and \<open>rbind\<close>
    (\<open>('e + 'a) option\<close>, \<open>None\<close> for a computation that does not return), and
    lemmas on association lists and lists.
  \<^item> \<open>JsObj\<close>: the JavaScript heap the engine works on. An object is a record
    with its kind, its own properties in insertion order and its prototype link;
    the heap is a list of objects addressed by position. Property lookup
    (\<open>get_prop\<close>) follows the prototype chain with fuel \<open>length h\<close>; the
    invariant \<open>heap_ok\<close> says every chain ends. The lemma
    \<open>chain_ends_length\<close> (a pigeonhole argument) shows this fuel is enough:
    any chain that ends does so within \<open>length h\<close> steps, so the fuel never
    changes a lookup on a well-formed heap. \<open>Object.setPrototypeOf\<close> (with its
    cycle check), \<open>Object.assign\<close>, \<open>Object.create(null)\<close>, \<open>Object.keys\<close>
    (index keys for a string) and property reads of any value (\<open>get_v\<close>: a
    string's characters and \<open>length\<close>) are modelled from the ECMAScript
    specification. Property writes, deletions, allocation and
    \<open>Object.setPrototypeOf\<close> are shown to keep \<open>heap_ok\<close>.
  \<^item> \<open>Axis\<close>: \<open>getIndexAxis\<close>, \<open>getAxisFromDefaultScaleID\<close>,
    \<open>getDefaultScaleIDFromAxis\<close>, \<open>axisFromPosition\<close>, \<open>determineAxis\<close>.
    Axis values are JavaScript values read from options. The lemmas give the
    placeholder round trips and the \<open>TypeError\<close> of \<open>determineAxis\<close> on a
    \<open>null\<close> scale.
  \<^item> \<open>Inherit\<close>: \<open>recursiveSetPrototype\<close> and \<open>includeDefaults\<close>.
    \<open>recursiveSetPrototype\<close> recurses along the own-property graph of the child,
    which may have a cycle. It is therefore a \<^theory_text>\<open>partial_function (option)\<close>
    whose \<open>forEach\<close> loop is a second call mode of the same fixpoint. The lemmas
    show that it changes prototype links only and keeps \<open>heap_ok\<close> (fixpoint
    induction). They show it returns whenever the own-property graph has a rank
    \<open>own_ranked\<close>: \<open>rsp_terminates\<close>, by induction on the rank. They also show
    it relinks only the child and objects of lower rank (\<open>rsp_frame\<close>), and
    that it links the child to the parent. Together these give the effective
    lookup of the options \<open>includeDefaults\<close> returns: the user's own value,
    otherwise the parent's lookup.
  \<^item> \<open>Fixture\<close>: concrete heaps for the witnesses: the registry entries of a
    line chart with the specification's end-to-end configuration, and a scale
    whose own nested option is \<open>null\<close>.
  \<^item> \<open>Scales\<close>: \<open>includeScaleDefaults\<close> (lines 48--105) and its helpers
    \<open>recursiveChildObjects\<close> and \<open>recursiveSetChildPrototypes\<close> (lines
    107--140). Each of its four loops is a definition of its own, in the code's
    order: the first pass over \<open>options.scales\<close> (\<open>first_scale_step\<close>), the
    datasets and their default scales (\<open>dataset_step\<close>,
    \<open>dataset_scale_step\<close>), and the final linking of every scale
    (\<open>finalize_step\<close>). \<open>recursiveSetChildPrototypes\<close> recurses along own
    properties like \<open>recursiveSetPrototype\<close> and is a
    \<^theory_text>\<open>partial_function (option)\<close> in the same way.
    \<open>recursiveChildObjects\<close> walks a prototype chain with fuel \<open>length h\<close>;
    it is shown to return on every well-formed heap. It also refines an abstract
    specification (\<open>child_chain\<close>: for each key, the objects nested under it
    along the prototype chain, nearest first), and the \<open>Map\<close> it returns is
    well typed (\<open>child_map_ok\<close>). \<open>recursiveSetChildPrototypes\<close> is shown to
    throw on an own nested option that is \<open>null\<close>.
  \<^item> \<open>Config\<close>: \<open>initConfig\<close> and the \<open>Config\<close> class (lines 175--224).
    The class's one field \<open>_config\<close> is a record; the accessors read it, and
    \<open>update\<close> rebuilds the scales and replaces the options. The lemma shows
    the \<open>TypeError\<close> on a primitive configuration.
  \<^item> \<open>Canvas\<close>: the drawing surface as the list of commands a routine issues,
    with text measurement a function of font and string. A call the canvas
    ignores (a coordinate that is \<open>undefined\<close> or \<open>NaN\<close>) is no command. It
    also holds the JavaScript remainder \<open>%\<close> over the reals, \<open>Math.max\<close> with
    \<open>NaN\<close> (\<open>js_max\<close>, \<open>None\<close> for \<open>NaN\<close>), and \<open>helpers.longestText\<close>
    of the 2.x helpers with its cache and eviction, modelled from the helpers
    code. Its caches are object literals, which inherit the members of
    \<open>Object.prototype\<close>: \<open>cache[s]\<close> for \<open>s\<close> such as \<open>'constructor'\<close>
    (\<open>inherited s\<close>) finds a function. The lemma \<open>longestText_correct\<close>
    shows the cache is transparent for every other string, and that those
    strings are never measured.
  \<^item> \<open>TickLabel\<close>: every operation of \<open>core.tickLabel.js\<close>: the module cache
    in \<open>measureWidth\<close>, the constructor and \<open>initialize\<close>, \<open>size\<close>
    (\<open>size_tl\<close>), \<open>_getCenter\<close> (\<open>getCenter\<close>), \<open>padding\<close> and \<open>draw\<close>
    (\<open>draw_tl\<close>).
  \<^item> \<open>Label\<close>: every member of \<open>element.label.js\<close>. The constructor's
    \<open>Object.assign\<close> runs the \<open>text\<close> and \<open>rotation\<close> setters. Also
    modelled are the accessors, \<open>getCenterPoint\<close> with \<open>rotatedSize\<close>,
    \<open>_measure\<close> with its width cache (its width is \<open>None\<close> when a line reads an
    inherited member and \<open>Math.max\<close> gives \<open>NaN\<close>), \<open>setStyle\<close> and
    \<open>draw\<close>. The inductive \<open>label_reach\<close> is the set of labels a program
    makes by construction and setter calls; rule induction gives its invariant
    on \<open>_size\<close>.

  \<^bold>\<open>What the properties show.\<close> Each property is a theorem next to the
  definitions it is about, preceded by its claim number. They cover:
  \<^item> the lookup and termination of the inheritance engine, and what
    \<open>recursiveSetPrototype\<close> links and leaves alone;
  \<^item> the termination of the scale builder's chain walk, its refinement of the
    abstract nested-object chains, the type of its \<open>Map\<close>, and the errors of
    \<open>recursiveSetChildPrototypes\<close> and of the \<open>Config\<close> constructor;
  \<^item> the equivalence of both width caches with uncached measurement, on
    the lines not named like \<open>Object.prototype\<close> members, and what those
    lines do: no width in a tick label, a \<open>NaN\<close> width and no painted text in
    a label;
  \<^item> the size, padding and centre geometry of tick labels;
  \<^item> the command traces of both \<open>draw\<close> routines;
  \<^item> the label's accessors and its cache invalidation, and the settling of
    its width cache: after one \<open>_measure\<close> every storable line is cached and
    a second call changes nothing;
  \<^item> the places where the code departs from the specification: the \<open>R\<close>
    anchor angles, the label's missing \<open>restore()\<close>, its never-cached size,
    the degrees passed to \<open>sin\<close> and \<open>cos\<close>, and the \<open>TypeError\<close> of
    \<open>recursiveSetChildPrototypes\<close> on a \<open>null\<close> nested option.

  \<^bold>\<open>Not modelled.\<close>
  \<^item> The contents of the \<open>core.defaults\<close> registry: the theorems hold for any
    registry, and the witnesses use the line-chart entries of \<open>Fixture\<close>.
  \<^item> \<open>Object.prototype\<close> in prototype chains of the option objects (the
    sources read no member of it there), and the methods on the prototypes of
    strings, numbers and booleans. Font strings are CSS descriptors and never
    name an \<open>Object.prototype\<close> member, so the font-keyed caches find an own
    entry or nothing.
  \<^item> Animations of \<open>Element\<close>: \<open>getProps\<close> reads current values.
  \<^item> Floating point: numbers are reals, so the theorems hold of exact
    arithmetic (no rounding: \<open>toDegrees (toRadians d)\<close> is \<open>d\<close> over the reals
    but not always over doubles, and no property states it). \<open>NaN\<close> is modelled
    only where a property is about it (\<open>None\<close> for a \<open>NaN\<close> width or size);
    infinities are not.
  \<^item> The pixels the canvas paints.
  \<^item> Heap well-formedness of the whole \<open>includeScaleDefaults\<close>, \<open>initConfig\<close>
    and \<open>update\<close>: only their parts (\<open>recursiveSetPrototype\<close>,
    \<open>Object.setPrototypeOf\<close>, writes) are shown to keep \<open>heap_ok\<close>. That
    \<open>initConfig\<close> discards the scales \<open>includeScaleDefaults\<close> builds is read
    off the definition (\<open>initConfig\<close>) and recorded as a finding, with no theorem.
  \<^item> The tests under \<open>src/test\<close>: the expectations of
    \<open>core.tickLabel.tests.js\<close> (the height of a one-line label, the box at the
    quarter turns) are instances of the \<open>TickLabel\<close> properties; the
    \<open>radialLinear\<close> fixture configures a scale whose code is not in the sources.
\<close>

end
